theory Spec2Isabelle
  imports Complex_Main
begin

section \<open>JuicyFlock: parameter clamping, buffer lifecycle and the boids kernels\<close>

text \<open>
  The host code is \<^verbatim>\<open>Source/MainComponent.cpp\<close> (with the declarations of
  \<^verbatim>\<open>MainComponent.h\<close>). C++ \<^verbatim>\<open>float\<close> values are idealised as
  \<^typ>\<open>real\<close>; C++ \<^verbatim>\<open>int\<close> values are \<^typ>\<open>int\<close>, and the lemmas
  on the grid show that the products formed stay far below \<open>2^31\<close>.
\<close>

subsection \<open>JUCE helpers\<close>

text \<open>
  \<^verbatim>\<open>juce::jlimit (lower, upper, v)\<close> is
  \<^verbatim>\<open>v < lower ? lower : (upper < v ? upper : v)\<close> and
  \<^verbatim>\<open>juce::jmax (a, b)\<close> is \<^verbatim>\<open>a < b ? b : a\<close>. The library only asserts
  \<open>lower \<le> upper\<close> in debug builds; the release behaviour is the expression.
\<close>

definition jlimit :: "'a::linorder \<Rightarrow> 'a \<Rightarrow> 'a \<Rightarrow> 'a" where
  "jlimit lowerLimit upperLimit valueToConstrain =
     (if valueToConstrain < lowerLimit then lowerLimit
      else if upperLimit < valueToConstrain then upperLimit
      else valueToConstrain)"

definition jmax :: "'a::linorder \<Rightarrow> 'a \<Rightarrow> 'a" where
  "jmax a b = (if a < b then b else a)"

text \<open>
  A \<^verbatim>\<open>juce::Slider\<close> keeps its value legal for the range it was given with
  \<^verbatim>\<open>setRange (start, end, interval)\<close>: every value asked of it is stored as
  \<^verbatim>\<open>NormalisableRange::snapToLegalValue\<close> of it, which is
  \<^verbatim>\<open>start + interval * std::floor ((v - start) / interval + 0.5)\<close> for a positive
  interval, and then
  \<^verbatim>\<open>(v <= start || end <= start) ? start : (v >= end ? end : v)\<close>.
\<close>

definition snapToLegalValue :: "real \<Rightarrow> real \<Rightarrow> real \<Rightarrow> real \<Rightarrow> real" where
  "snapToLegalValue rangeStart rangeEnd interval v =
     (let v1 = (if 0 < interval
                then rangeStart + interval * real_of_int \<lfloor>(v - rangeStart) / interval + 0.5\<rfloor>
                else v)
      in if v1 \<le> rangeStart \<or> rangeEnd \<le> rangeStart then rangeStart
         else if rangeEnd \<le> v1 then rangeEnd
         else v1)"

subsection \<open>Vectors\<close>

type_synonym vec3 = "real \<times> real \<times> real"

definition vx :: "vec3 \<Rightarrow> real" where "vx v = fst v"
definition vy :: "vec3 \<Rightarrow> real" where "vy v = fst (snd v)"
definition vz :: "vec3 \<Rightarrow> real" where "vz v = snd (snd v)"

definition vadd :: "vec3 \<Rightarrow> vec3 \<Rightarrow> vec3" where
  "vadd a b = (vx a + vx b, vy a + vy b, vz a + vz b)"

definition vsub :: "vec3 \<Rightarrow> vec3 \<Rightarrow> vec3" where
  "vsub a b = (vx a - vx b, vy a - vy b, vz a - vz b)"

definition vscale :: "vec3 \<Rightarrow> real \<Rightarrow> vec3" where
  "vscale a s = (vx a * s, vy a * s, vz a * s)"

definition vdiv :: "vec3 \<Rightarrow> real \<Rightarrow> vec3" where
  "vdiv a s = (vx a / s, vy a / s, vz a / s)"

definition dot :: "vec3 \<Rightarrow> vec3 \<Rightarrow> real" where
  "dot a b = vx a * vx b + vy a * vy b + vz a * vz b"

definition vlength :: "vec3 \<Rightarrow> real" where
  "vlength a = sqrt (dot a a)"

text \<open>\<^verbatim>\<open>Vector3D::normalised()\<close> is \<^verbatim>\<open>*this / length()\<close>.\<close>

definition normalised :: "vec3 \<Rightarrow> vec3" where
  "normalised a = vdiv a (vlength a)"

subsection \<open>The control panel's parameters\<close>

record Params =
  p_particleCount :: int
  p_neighborRadius :: real
  p_separationRadius :: real
  p_weightSeparation :: real
  p_weightAlignment :: real
  p_weightCohesion :: real
  p_minSpeed :: real
  p_maxSpeed :: real
  p_maxAccel :: real
  p_simSpeed :: real
  p_centerAttraction :: real
  p_boundaryMargin :: real
  p_boundaryStrength :: real
  p_wrapBounds :: bool
  p_pointSize :: real
  p_alphaMul :: real
  p_particleShape :: int
  p_colorMode :: int
  p_hueOffset :: real
  p_hueRange :: real
  p_saturation :: real
  p_value :: real
  p_densityCurve :: real

text \<open>The default member initialisers of \<^verbatim>\<open>BoidsControlPanel::Params\<close>.\<close>

definition Params_defaults :: Params where
  "Params_defaults =
     \<lparr> p_particleCount = 60000,
       p_neighborRadius = 1.34,
       p_separationRadius = 2.07,
       p_weightSeparation = 1.85,
       p_weightAlignment = 1.37,
       p_weightCohesion = 0.5,
       p_minSpeed = 1,
       p_maxSpeed = 10,
       p_maxAccel = 8,
       p_simSpeed = 1,
       p_centerAttraction = 0.3,
       p_boundaryMargin = 5,
       p_boundaryStrength = 10,
       p_wrapBounds = False,
       p_pointSize = 1,
       p_alphaMul = 0.65,
       p_particleShape = 1,
       p_colorMode = 1,
       p_hueOffset = 0,
       p_hueRange = 0.7,
       p_saturation = 0.4,
       p_value = 1,
       p_densityCurve = 1 \<rparr>"

text \<open>
  The controls of \<^verbatim>\<open>BoidsControlPanel\<close> that \<^verbatim>\<open>timerCallback\<close> reads. A slider
  is modelled by the value last asked of it (with the pointer, the keyboard, the text
  box or \<^verbatim>\<open>setParams\<close>); what \<^verbatim>\<open>getValue\<close> returns is that value made legal
  for the slider's range. A combo box is modelled by its selected id.
\<close>

record BoidsControlPanel =
  particleCountSlider :: real
  neighborRadiusSlider :: real
  separationRadiusSlider :: real
  wSepSlider :: real
  wAliSlider :: real
  wCohSlider :: real
  minSpeedSlider :: real
  maxSpeedSlider :: real
  maxAccelSlider :: real
  simSpeedSlider :: real
  centerAttractionSlider :: real
  boundaryMarginSlider :: real
  boundaryStrengthSlider :: real
  wrapBoundsToggle :: bool
  pointSizeSlider :: real
  alphaSlider :: real
  particleShapeBox :: int
  colorModeBox :: int
  hueOffsetSlider :: real
  hueRangeSlider :: real
  saturationSlider :: real
  valueSlider :: real
  densityCurveSlider :: real

text \<open>
  \<^verbatim>\<open>BoidsControlPanel::timerCallback\<close>: the \<open>Params\<close> gathered from the controls
  and handed to \<^verbatim>\<open>onParamsChanged\<close>, the only call of that callback. The ranges
  are those the panel's constructor gives to \<^verbatim>\<open>initSlider\<close>. The cast
  \<^verbatim>\<open>(int)\<close> of the particle count truncates a value that is at least 1.
\<close>

definition BoidsControlPanel_timerCallback :: "BoidsControlPanel \<Rightarrow> Params" where
  "BoidsControlPanel_timerCallback panel =
     \<lparr> p_particleCount = \<lfloor>snapToLegalValue 1 100000 1 (particleCountSlider panel)\<rfloor>,
       p_neighborRadius = snapToLegalValue 0.1 8 0.01 (neighborRadiusSlider panel),
       p_separationRadius = snapToLegalValue 0.05 4 0.01 (separationRadiusSlider panel),
       p_weightSeparation = snapToLegalValue 0 5 0.01 (wSepSlider panel),
       p_weightAlignment = snapToLegalValue 0 5 0.01 (wAliSlider panel),
       p_weightCohesion = snapToLegalValue 0 5 0.01 (wCohSlider panel),
       p_minSpeed = snapToLegalValue 0 10 0.01 (minSpeedSlider panel),
       p_maxSpeed = snapToLegalValue 0.1 20 0.01 (maxSpeedSlider panel),
       p_maxAccel = snapToLegalValue 0 80 0.1 (maxAccelSlider panel),
       p_simSpeed = snapToLegalValue 0.1 2 0.01 (simSpeedSlider panel),
       p_centerAttraction = snapToLegalValue 0 3 0.01 (centerAttractionSlider panel),
       p_boundaryMargin = snapToLegalValue 0.05 5 0.01 (boundaryMarginSlider panel),
       p_boundaryStrength = snapToLegalValue 0 80 0.1 (boundaryStrengthSlider panel),
       p_wrapBounds = wrapBoundsToggle panel,
       p_pointSize = snapToLegalValue 1 8 0.1 (pointSizeSlider panel),
       p_alphaMul = snapToLegalValue 0 1 0.01 (alphaSlider panel),
       p_particleShape = jlimit 0 3 (particleShapeBox panel - 1),
       p_colorMode = jlimit 0 3 (colorModeBox panel - 1),
       p_hueOffset = snapToLegalValue 0 1 0.001 (hueOffsetSlider panel),
       p_hueRange = snapToLegalValue 0 1 0.001 (hueRangeSlider panel),
       p_saturation = snapToLegalValue 0 1 0.001 (saturationSlider panel),
       p_value = snapToLegalValue 0 1 0.001 (valueSlider panel),
       p_densityCurve = snapToLegalValue 0.1 8 0.01 (densityCurveSlider panel) \<rparr>"

subsection \<open>Particles and the component's state\<close>

text \<open>
  \<^verbatim>\<open>ParticleCPU { float pos[4]; float vel[4]; float color[4]; }\<close>. The fourth
  components of \<open>pos\<close> and \<open>vel\<close> are the constants 1 and 0. A colour component
  is \<open>None\<close> when the float stored is a NaN (the result of \<open>0/0\<close>).
\<close>

record Particle =
  pos :: vec3
  pos_w :: real
  vel :: vec3
  vel_w :: real
  color_r :: "real option"
  color_g :: "real option"
  color_b :: "real option"
  color_a :: "real option"

text \<open>
  The members of \<^verbatim>\<open>MainComponent\<close> that the simulation uses. A buffer object is
  modelled by its contents; a deleted buffer (handle 0) is the empty list.
  \<open>particlesSSBO0\<close> and \<open>particlesSSBO1\<close> are \<^verbatim>\<open>particlesSSBO[0]\<close> and
  \<^verbatim>\<open>particlesSSBO[1]\<close>.
\<close>

record MainComponent =
  particlesSSBO0 :: "Particle list"
  particlesSSBO1 :: "Particle list"
  cellHeadsSSBO :: "int list"
  nextIndexSSBO :: "int list"
  currentParticleCount :: int
  requestedParticleCount :: int
  buffersReady :: bool
  cellSize :: real
  gridDims :: "int \<times> int \<times> int"
  cellCount :: int
  neighborRadius :: real
  separationRadius :: real
  maxSpeed :: real
  minSpeed :: real
  weightSeparation :: real
  weightAlignment :: real
  weightCohesion :: real
  maxAccel :: real
  simSpeed :: real
  centerAttraction :: real
  boundaryMargin :: real
  boundaryStrength :: real
  wrapBounds :: bool
  pointSize :: real
  alphaMul :: real
  particleShape :: int
  colorMode :: int
  hueOffset :: real
  hueRange :: real
  saturation :: real
  hsvValue :: real
  densityCurve :: real
  shadersLoaded :: bool
  computeAvailable :: bool

text \<open>
  \<^verbatim>\<open>worldMin\<close>, \<^verbatim>\<open>worldMax\<close> and \<^verbatim>\<open>maxCellCount\<close> are members with
  default initialisers that no code assigns, so they are constants here
  (\<^verbatim>\<open>1 << 20\<close> is 1048576).
\<close>

definition worldMin :: vec3 where "worldMin = (-10, -10, -10)"
definition worldMax :: vec3 where "worldMax = (10, 10, 10)"
definition maxCellCount :: int where "maxCellCount = 1048576"

text \<open>The state the default member initialisers give, before the constructor's body.\<close>

definition MainComponent_members :: MainComponent where
  "MainComponent_members =
     \<lparr> particlesSSBO0 = [], particlesSSBO1 = [], cellHeadsSSBO = [], nextIndexSSBO = [],
       currentParticleCount = 0, requestedParticleCount = 0, buffersReady = False,
       cellSize = 2, gridDims = (10, 10, 10), cellCount = 1000,
       neighborRadius = 0, separationRadius = 0, maxSpeed = 0, minSpeed = 0,
       weightSeparation = 0, weightAlignment = 0, weightCohesion = 0,
       maxAccel = 0, simSpeed = 1, centerAttraction = 0,
       boundaryMargin = 0, boundaryStrength = 0, wrapBounds = False,
       pointSize = 0, alphaMul = 0, particleShape = 1,
       colorMode = 0, hueOffset = 0, hueRange = 0, saturation = 0, hsvValue = 0,
       densityCurve = 0, shadersLoaded = False, computeAvailable = False \<rparr>"

subsection \<open>Clamping the parameters\<close>

text \<open>
  The assignments that the constructor and the \<^verbatim>\<open>setOnParamsChanged\<close> lambda
  share, in the source's order: each stored parameter is the requested one,
  clamped; \<open>separationRadius\<close> is clamped against the \<^emph>\<open>new\<close> \<open>neighborRadius\<close>
  and \<open>maxSpeed\<close> against the \<^emph>\<open>new\<close> \<open>minSpeed\<close>.
\<close>

definition clampParams :: "Params \<Rightarrow> MainComponent \<Rightarrow> MainComponent" where
  "clampParams p st =
     (let nr = jlimit 0.05 50 (p_neighborRadius p);
          mn = jlimit 0 1000 (p_minSpeed p)
      in st\<lparr> neighborRadius := nr,
              separationRadius := jlimit 0.01 nr (p_separationRadius p),
              weightSeparation := jlimit 0 50 (p_weightSeparation p),
              weightAlignment := jlimit 0 50 (p_weightAlignment p),
              weightCohesion := jlimit 0 50 (p_weightCohesion p),
              minSpeed := mn,
              maxSpeed := jlimit (jmax (mn + 0.001) 0.01) 1000 (p_maxSpeed p),
              maxAccel := jlimit 0 10000 (p_maxAccel p),
              simSpeed := jlimit 0.1 2 (p_simSpeed p),
              centerAttraction := jlimit 0 1000 (p_centerAttraction p),
              boundaryMargin := jlimit 0.01 1000 (p_boundaryMargin p),
              boundaryStrength := jlimit 0 10000 (p_boundaryStrength p),
              wrapBounds := p_wrapBounds p,
              pointSize := jlimit 1 64 (p_pointSize p),
              alphaMul := jlimit 0 1 (p_alphaMul p),
              particleShape := jlimit 0 3 (p_particleShape p),
              colorMode := jlimit 0 3 (p_colorMode p),
              hueOffset := jlimit 0 1 (p_hueOffset p),
              hueRange := jlimit 0 1 (p_hueRange p),
              saturation := jlimit 0 1 (p_saturation p),
              hsvValue := jlimit 0 1 (p_value p),
              densityCurve := jlimit 0.1 8 (p_densityCurve p) \<rparr>)"

text \<open>
  The constructor: the default \<open>Params\<close>, the particle count clamped into
  \<open>1..100000\<close> and stored, then the clamped parameters.
\<close>

definition MainComponent_ctor :: MainComponent where
  "MainComponent_ctor =
     (let p = Params_defaults;
          newCount = jlimit 1 100000 (p_particleCount p)
      in clampParams p
           (MainComponent_members\<lparr> currentParticleCount := newCount,
                                    requestedParticleCount := newCount \<rparr>))"

subsection \<open>Reallocation\<close>

text \<open>
  \<^verbatim>\<open>deleteBuffers\<close>: every buffer object is deleted and the readiness flag
  cleared.
\<close>

definition deleteBuffers :: "MainComponent \<Rightarrow> MainComponent" where
  "deleteBuffers st =
     st\<lparr> particlesSSBO0 := [], particlesSSBO1 := [],
         cellHeadsSSBO := [], nextIndexSSBO := [],
         buffersReady := False \<rparr>"

text \<open>
  The lambda \<^verbatim>\<open>computeGridFromCellSize\<close>:
  \<^verbatim>\<open>jmax (1, (int) std::ceil (worldSize.x / cellSize))\<close> per axis, and the product.
\<close>

definition computeGridFromCellSize :: "MainComponent \<Rightarrow> MainComponent" where
  "computeGridFromCellSize st =
     (let worldSize = vsub worldMax worldMin;
          dx = jmax 1 \<lceil>vx worldSize / cellSize st\<rceil>;
          dy = jmax 1 \<lceil>vy worldSize / cellSize st\<rceil>;
          dz = jmax 1 \<lceil>vz worldSize / cellSize st\<rceil>
      in st\<lparr> gridDims := (dx, dy, dz), cellCount := dx * dy * dz \<rparr>)"

text \<open>
  The loop \<^verbatim>\<open>for (iter = 0; iter < 4 && cellCount > maxCellCount; ++iter)\<close>; the
  first argument counts the iterations left. \<^verbatim>\<open>std::cbrt\<close> is the real cube root.
\<close>

fun scaleUpCellSize :: "nat \<Rightarrow> MainComponent \<Rightarrow> MainComponent" where
  "scaleUpCellSize 0 st = st"
| "scaleUpCellSize (Suc n) st =
     (if cellCount st > maxCellCount then
        (let scale = root 3 (real_of_int (cellCount st) / real_of_int maxCellCount)
         in scaleUpCellSize n
              (computeGridFromCellSize (st\<lparr> cellSize := cellSize st * (scale * 1.001) \<rparr>)))
      else st)"

definition sizeGrid :: "MainComponent \<Rightarrow> MainComponent" where
  "sizeGrid st =
     (let st1 = computeGridFromCellSize (st\<lparr> cellSize := jmax 0.5 (neighborRadius st) \<rparr>)
      in if maxCellCount > 0 \<and> cellCount st1 > maxCellCount
         then scaleUpCellSize 4 st1 else st1)"

text \<open>
  What the reallocation takes from its environment: \<open>canonical n\<close> is the \<open>n\<close>-th
  value in \<open>[0, 1)\<close> that the \<^verbatim>\<open>std::mt19937\<close>, seeded with the millisecond
  counter, yields to the distributions; \<open>uninitParticle\<close> and \<open>uninitIndex\<close> are
  the contents of buffers allocated with a null data pointer.
\<close>

record AllocEnv =
  canonical :: "nat \<Rightarrow> real"
  uninitParticle :: "nat \<Rightarrow> Particle"
  uninitIndex :: "nat \<Rightarrow> int"

text \<open>\<^verbatim>\<open>std::uniform_real_distribution<float> (a, b)\<close> applied to one canonical value.\<close>

definition uniform_real :: "real \<Rightarrow> real \<Rightarrow> real \<Rightarrow> real" where
  "uniform_real a b u = (b - a) * u + a"

text \<open>
  Particle \<open>i\<close> draws seven values, in the order of the loop body: \<open>rx\<close>, \<open>ry\<close>,
  \<open>rz\<close>, three times \<open>ru\<close>, then \<open>rs\<close>.
\<close>

definition initPos :: "(nat \<Rightarrow> real) \<Rightarrow> nat \<Rightarrow> vec3" where
  "initPos u i =
     (uniform_real (vx worldMin) (vx worldMax) (u (7 * i)),
      uniform_real (vy worldMin) (vy worldMax) (u (7 * i + 1)),
      uniform_real (vz worldMin) (vz worldMax) (u (7 * i + 2)))"

definition initDir :: "(nat \<Rightarrow> real) \<Rightarrow> nat \<Rightarrow> vec3" where
  "initDir u i =
     (let dir = (uniform_real (-1) 1 (u (7 * i + 3)),
                 uniform_real (-1) 1 (u (7 * i + 4)),
                 uniform_real (-1) 1 (u (7 * i + 5)));
          dir' = (if vlength dir < 0.001 then (1, 0, 0) else dir)
      in normalised dir')"

definition initSpeed :: "MainComponent \<Rightarrow> (nat \<Rightarrow> real) \<Rightarrow> nat \<Rightarrow> real" where
  "initSpeed st u i =
     uniform_real (minSpeed st) (jmax (minSpeed st) (maxSpeed st / 2)) (u (7 * i + 6))"

text \<open>
  \<^verbatim>\<open>jlimit (0, 1, (speed - minSpeed) / (maxSpeed - minSpeed))\<close> in IEEE arithmetic:
  with a zero denominator the quotient is a NaN when the numerator is zero too (and
  \<open>jlimit\<close> returns the NaN, both of its comparisons being false), and an infinity
  otherwise, which \<open>jlimit\<close> clamps to 1 or 0.
\<close>

definition normalisedSpeed :: "MainComponent \<Rightarrow> real \<Rightarrow> real option" where
  "normalisedSpeed st speed =
     (let num = speed - minSpeed st; den = maxSpeed st - minSpeed st
      in if den = 0 then (if num = 0 then None else if 0 < num then Some 1 else Some 0)
         else Some (jlimit 0 1 (num / den)))"

text \<open>
  \<^verbatim>\<open>0.2f + 0.8f * std::abs (heading.x)\<close> with \<^verbatim>\<open>heading = vel.normalised()\<close>: a
  NaN when the velocity is the zero vector.
\<close>

definition headingChannel :: "vec3 \<Rightarrow> real \<Rightarrow> real option" where
  "headingChannel v c = (if vlength v = 0 then None else Some (0.2 + 0.8 * \<bar>c / vlength v\<bar>))"

definition initParticle :: "MainComponent \<Rightarrow> (nat \<Rightarrow> real) \<Rightarrow> nat \<Rightarrow> Particle" where
  "initParticle st u i =
     (let speed = initSpeed st u i;
          v = vscale (initDir u i) speed
      in \<lparr> pos = initPos u i, pos_w = 1, vel = v, vel_w = 0,
           color_r = headingChannel v (vx v),
           color_g = headingChannel v (vy v),
           color_b = headingChannel v (vz v),
           color_a = map_option (\<lambda>t. 0.35 + 0.65 * t) (normalisedSpeed st speed) \<rparr>)"

text \<open>
  The buffers of the new size: buffer 0 holds the generated particles, buffer 1 and
  the next-index buffer are allocated without data, the heads are all \<open>-1\<close>.
\<close>

definition allocateBuffers :: "AllocEnv \<Rightarrow> MainComponent \<Rightarrow> MainComponent" where
  "allocateBuffers env st =
     (let n = nat (currentParticleCount st)
      in st\<lparr> particlesSSBO0 := map (initParticle st (canonical env)) [0..<n],
              particlesSSBO1 := map (uninitParticle env) [0..<n],
              cellHeadsSSBO := replicate (nat (cellCount st)) (-1),
              nextIndexSSBO := map (uninitIndex env) [0..<n] \<rparr>)"

definition setParticleCount :: "int \<Rightarrow> MainComponent \<Rightarrow> MainComponent" where
  "setParticleCount newParticleCount st =
     st\<lparr> currentParticleCount := jlimit 1 100000 newParticleCount \<rparr>"

definition markReady :: "MainComponent \<Rightarrow> MainComponent" where
  "markReady st = st\<lparr> buffersReady := True \<rparr>"

text \<open>
  \<^verbatim>\<open>rebuildBuffersOnGLThread\<close> is these five phases in sequence;
  \<open>runPhases\<close> runs a list of phases from left to right.
\<close>

definition rebuildPhases :: "AllocEnv \<Rightarrow> int \<Rightarrow> (MainComponent \<Rightarrow> MainComponent) list" where
  "rebuildPhases env newParticleCount =
     [deleteBuffers, setParticleCount newParticleCount, sizeGrid, allocateBuffers env, markReady]"

definition runPhases :: "(MainComponent \<Rightarrow> MainComponent) list \<Rightarrow> MainComponent \<Rightarrow> MainComponent" where
  "runPhases fs st = fold (\<lambda>f s. f s) fs st"

definition rebuildBuffersOnGLThread :: "AllocEnv \<Rightarrow> int \<Rightarrow> MainComponent \<Rightarrow> MainComponent" where
  "rebuildBuffersOnGLThread env newParticleCount st =
     runPhases (rebuildPhases env newParticleCount) st"

subsection \<open>Parameter updates\<close>

text \<open>
  The condition of the lambda given to \<^verbatim>\<open>setOnParamsChanged\<close>:
  \<^verbatim>\<open>newCount != currentParticleCount || neighborRadiusChanged\<close>, where
  \<^verbatim>\<open>neighborRadiusChanged\<close> compares the \<^emph>\<open>requested\<close> radius with the radius
  stored before the update.
\<close>

definition neighborRadiusChanged :: "Params \<Rightarrow> MainComponent \<Rightarrow> bool" where
  "neighborRadiusChanged p st = (\<bar>p_neighborRadius p - neighborRadius st\<bar> > 0.0001)"

definition rebuildRequested :: "Params \<Rightarrow> MainComponent \<Rightarrow> bool" where
  "rebuildRequested p st =
     (jlimit 1 100000 (p_particleCount p) \<noteq> currentParticleCount st \<or> neighborRadiusChanged p st)"

definition onParamsChanged :: "AllocEnv \<Rightarrow> Params \<Rightarrow> MainComponent \<Rightarrow> MainComponent" where
  "onParamsChanged env p st =
     (let newCount = jlimit 1 100000 (p_particleCount p);
          changed = rebuildRequested p st;
          st' = clampParams p st
      in if changed then rebuildBuffersOnGLThread env newCount st' else st')"

text \<open>
  \<^verbatim>\<open>reloadAllShadersOnGLThread\<close>, as far as the simulation state goes: without
  compute shaders nothing is compiled and \<open>shadersLoaded\<close> is false; otherwise it
  is true exactly when all five programs compile and link, which \<open>compiled\<close>
  reports.
\<close>

definition reloadAllShadersOnGLThread :: "bool \<Rightarrow> MainComponent \<Rightarrow> MainComponent" where
  "reloadAllShadersOnGLThread compiled st =
     (if \<not> computeAvailable st then st\<lparr> shadersLoaded := False \<rparr>
      else st\<lparr> shadersLoaded := compiled \<rparr>)"

text \<open>
  \<^verbatim>\<open>initialise\<close>, as far as the simulation state goes: the capability check
  reports \<open>capable\<close>, the shaders are loaded, and the buffers are built when
  compute shaders are available.
\<close>

definition initialise :: "AllocEnv \<Rightarrow> bool \<Rightarrow> bool \<Rightarrow> MainComponent \<Rightarrow> MainComponent" where
  "initialise env capable compiled st =
     (let st1 = reloadAllShadersOnGLThread compiled (st\<lparr> computeAvailable := capable \<rparr>)
      in if computeAvailable st1
         then rebuildBuffersOnGLThread env (currentParticleCount st1) st1 else st1)"

text \<open>
  \<^verbatim>\<open>shutdown\<close>, as far as the simulation state goes: the buffers are deleted and
  both flags cleared.
\<close>

definition shutdown :: "MainComponent \<Rightarrow> MainComponent" where
  "shutdown st = (deleteBuffers st)\<lparr> shadersLoaded := False, computeAvailable := False \<rparr>"

subsection \<open>The per-frame dispatch\<close>

text \<open>
  The uniforms the host sets before the build and step dispatches. The compute
  programs are loaded from files at run time, so the dispatch takes them as
  parameters: the clear program maps the heads, the build program the heads and the
  next indices, the step program writes the output particle buffer.
\<close>

record Uniforms =
  u_particleCount :: int
  u_gridDims :: "int \<times> int \<times> int"
  u_worldMin :: vec3
  u_worldMax :: vec3
  u_cellSize :: real
  u_dt :: real
  u_neighborRadius :: real
  u_separationRadius :: real
  u_weightSeparation :: real
  u_weightAlignment :: real
  u_weightCohesion :: real
  u_minSpeed :: real
  u_maxSpeed :: real
  u_maxAccel :: real
  u_centerAttraction :: real
  u_boundaryMargin :: real
  u_boundaryStrength :: real
  u_wrapBounds :: int
  u_colorMode :: int
  u_hueOffset :: real
  u_hueRange :: real
  u_saturation :: real
  u_value :: real
  u_densityCurve :: real

definition uniformsOf :: "MainComponent \<Rightarrow> real \<Rightarrow> Uniforms" where
  "uniformsOf st dtSeconds =
     \<lparr> u_particleCount = currentParticleCount st,
       u_gridDims = gridDims st,
       u_worldMin = worldMin,
       u_worldMax = worldMax,
       u_cellSize = cellSize st,
       u_dt = dtSeconds * simSpeed st,
       u_neighborRadius = neighborRadius st,
       u_separationRadius = separationRadius st,
       u_weightSeparation = weightSeparation st,
       u_weightAlignment = weightAlignment st,
       u_weightCohesion = weightCohesion st,
       u_minSpeed = minSpeed st,
       u_maxSpeed = maxSpeed st,
       u_maxAccel = maxAccel st,
       u_centerAttraction = centerAttraction st,
       u_boundaryMargin = boundaryMargin st,
       u_boundaryStrength = boundaryStrength st,
       u_wrapBounds = (if wrapBounds st then 1 else 0),
       u_colorMode = colorMode st,
       u_hueOffset = hueOffset st,
       u_hueRange = hueRange st,
       u_saturation = saturation st,
       u_value = hsvValue st,
       u_densityCurve = densityCurve st \<rparr>"

record Programs =
  computeClearProgram :: "int \<Rightarrow> int list \<Rightarrow> int list"
  computeBuildProgram :: "Uniforms \<Rightarrow> Particle list \<Rightarrow> int list \<Rightarrow> int list \<Rightarrow> int list \<times> int list"
  computeStepProgram ::
    "Uniforms \<Rightarrow> Particle list \<Rightarrow> int list \<Rightarrow> int list \<Rightarrow> Particle list \<Rightarrow> Particle list"

text \<open>
  \<^verbatim>\<open>dispatchComputePasses\<close>: nothing when the buffers are not ready; otherwise
  clear, build, step (with a barrier after each) and the swap of the two particle
  buffers.
\<close>

definition dispatchComputePasses :: "Programs \<Rightarrow> real \<Rightarrow> MainComponent \<Rightarrow> MainComponent" where
  "dispatchComputePasses progs dtSeconds st =
     (if \<not> buffersReady st then st
      else
        (let u = uniformsOf st dtSeconds;
             heads1 = computeClearProgram progs (cellCount st) (cellHeadsSSBO st);
             (heads2, next2) =
               computeBuildProgram progs u (particlesSSBO0 st) heads1 (nextIndexSSBO st);
             out = computeStepProgram progs u (particlesSSBO0 st) heads2 next2 (particlesSSBO1 st)
         in st\<lparr> cellHeadsSSBO := heads2, nextIndexSSBO := next2,
                 particlesSSBO0 := out, particlesSSBO1 := particlesSSBO0 st \<rparr>))"

text \<open>
  \<^verbatim>\<open>render\<close>, as far as the simulation state goes: the frame time is clamped
  into \<open>[0, 0.05]\<close> and the passes are dispatched when the programs are loaded.
\<close>

definition render :: "Programs \<Rightarrow> real \<Rightarrow> MainComponent \<Rightarrow> MainComponent" where
  "render progs elapsed st =
     (let dt = jlimit 0 0.05 elapsed
      in if \<not> shadersLoaded st \<or> \<not> computeAvailable st then st
         else dispatchComputePasses progs dt st)"

section \<open>The compute kernels\<close>

text \<open>
  The three compute shaders (\<^verbatim>\<open>boids_clear.comp\<close>, \<^verbatim>\<open>boids_build.comp\<close>,
  \<^verbatim>\<open>boids_step.comp\<close>) are not among the source files. Their models below
  follow the specification (sections 4.1 and 4.2) and \<^verbatim>\<open>docs/TECHNICAL.md\<close>.
  GLSL \<^verbatim>\<open>clamp (x, lo, hi)\<close> is \<^verbatim>\<open>min (max (x, lo), hi)\<close>.
\<close>

definition glsl_clamp :: "'a::linorder \<Rightarrow> 'a \<Rightarrow> 'a \<Rightarrow> 'a" where
  "glsl_clamp x lo hi = min (max x lo) hi"

subsection \<open>Clearing and building the grid\<close>

text \<open>
  Modelled from the spec: \<^verbatim>\<open>boids_clear.comp\<close> is missing. One invocation per
  cell below \<open>u_cellCount\<close> sets that head to the empty sentinel \<open>-1\<close>.
\<close>

definition boids_clear :: "int \<Rightarrow> int list \<Rightarrow> int list" where
  "boids_clear count hs = map (\<lambda>c. if int c < count then -1 else hs ! c) [0..<length hs]"

text \<open>
  Modelled from the spec (4.1 steps 1 and 2): the cell of a position in
  \<^verbatim>\<open>boids_build.comp\<close>, which is missing. The integer coordinates are
  \<open>floor ((pos - worldMin) / cellSize)\<close>, clamped into \<open>[0, dims - 1]\<close> per
  axis.
\<close>

definition cellCoords :: "Uniforms \<Rightarrow> vec3 \<Rightarrow> int \<times> int \<times> int" where
  "cellCoords u p =
     (case u_gridDims u of (dx, dy, dz) \<Rightarrow>
        (glsl_clamp \<lfloor>(vx p - vx (u_worldMin u)) / u_cellSize u\<rfloor> 0 (dx - 1),
         glsl_clamp \<lfloor>(vy p - vy (u_worldMin u)) / u_cellSize u\<rfloor> 0 (dy - 1),
         glsl_clamp \<lfloor>(vz p - vz (u_worldMin u)) / u_cellSize u\<rfloor> 0 (dz - 1)))"

text \<open>
  Modelled from the spec (4.1 step 3): the flat index of integer cell coordinates,
  \<open>x + dimsX * (y + dimsY * z)\<close>.
\<close>

definition flattenCell :: "Uniforms \<Rightarrow> int \<times> int \<times> int \<Rightarrow> int" where
  "flattenCell u c =
     (case u_gridDims u of (dx, dy, dz) \<Rightarrow>
        (case c of (x, y, z) \<Rightarrow> x + dx * (y + dy * z)))"

text \<open>
  Modelled from the spec (4.1 steps 1 to 3): the flat cell index of a position.
\<close>

definition cellIndex :: "Uniforms \<Rightarrow> vec3 \<Rightarrow> int" where
  "cellIndex u p = flattenCell u (cellCoords u p)"

text \<open>
  Modelled from the spec: the insertion of \<^verbatim>\<open>boids_build.comp\<close>, which is
  missing. The invocation of particle \<open>i\<close> does two things in program order:
  \<open>prev = atomicExchange (head[cell], i)\<close>, one indivisible step, and then
  \<open>next[i] = prev\<close>. The invocations run concurrently, so an execution of the pass
  is a list of events, \<open>Exchange i\<close> and \<open>Store i\<close>, in which the events of
  different invocations interleave in any way. \<open>bs_inv\<close> records how far each
  invocation has come, and the value it holds between its two steps.

  An event that no invocation can perform next (an unknown index, a step out of
  program order or done twice) makes the list \<open>NotAnExecution\<close>, as does a list
  that ends before every invocation has finished; an access outside a buffer is
  \<open>OutOfBounds\<close>.
\<close>

datatype Invocation = Ready | Exchanged int | Finished

text \<open>
  Modelled from the spec (4.1 step 4): the two steps of an invocation, as events of
  an execution: the atomic exchange, and the store of its result into \<open>next[i]\<close>.
\<close>

datatype Event = Exchange nat | Store nat

text \<open>
  Modelled from the spec: the two ways in which a list of events is not the
  outcome of a build pass.
\<close>

datatype BuildError = OutOfBounds | NotAnExecution

text \<open>
  Modelled from the spec (section 5): the state the invocations of the build pass
  share, CellHeads and NextIndex, with the progress of each invocation.
\<close>

record BuildState =
  bs_heads :: "int list"
  bs_next :: "int list"
  bs_inv :: "Invocation list"

text \<open>
  Modelled from the spec (4.1 step 4): one event. \<open>Exchange i\<close> reads the
  position of particle \<open>i\<close>, replaces the head of its cell by \<open>i\<close> and keeps the
  previous head; \<open>Store i\<close> writes the kept value to \<open>next[i]\<close>.
\<close>

fun buildEvent :: "Uniforms \<Rightarrow> Particle list \<Rightarrow> Event \<Rightarrow> BuildState \<Rightarrow> BuildError + BuildState" where
  "buildEvent u ps (Exchange i) s =
     (if i < length (bs_inv s) \<and> bs_inv s ! i = Ready then
        (if i < length ps then
           (let c = cellIndex u (pos (ps ! i)) in
            if 0 \<le> c \<and> nat c < length (bs_heads s) then
              Inr (s\<lparr> bs_heads := (bs_heads s)[nat c := int i],
                      bs_inv := (bs_inv s)[i := Exchanged (bs_heads s ! nat c)] \<rparr>)
            else Inl OutOfBounds)
         else Inl OutOfBounds)
      else Inl NotAnExecution)"
| "buildEvent u ps (Store i) s =
     (if i < length (bs_inv s) then
        (case bs_inv s ! i of
           Exchanged prev \<Rightarrow>
             (if i < length (bs_next s) then
                Inr (s\<lparr> bs_next := (bs_next s)[i := prev],
                        bs_inv := (bs_inv s)[i := Finished] \<rparr>)
              else Inl OutOfBounds)
         | Ready \<Rightarrow> Inl NotAnExecution
         | Finished \<Rightarrow> Inl NotAnExecution)
      else Inl NotAnExecution)"

text \<open>
  Modelled from the spec (section 5): the events of an execution, one after the
  other; the first error ends the run.
\<close>

fun runEvents :: "Uniforms \<Rightarrow> Particle list \<Rightarrow> Event list \<Rightarrow> BuildState \<Rightarrow> BuildError + BuildState" where
  "runEvents u ps [] s = Inr s"
| "runEvents u ps (e # es) s =
     (case buildEvent u ps e s of
        Inl err \<Rightarrow> Inl err
      | Inr s' \<Rightarrow> runEvents u ps es s')"

text \<open>
  Modelled from the spec (section 5): the state when the build pass starts, one
  invocation per particle below \<open>u_particleCount\<close>, none of which has run.
\<close>

definition buildStart :: "Uniforms \<Rightarrow> int list \<Rightarrow> int list \<Rightarrow> BuildState" where
  "buildStart u hs ns =
     \<lparr> bs_heads = hs, bs_next = ns, bs_inv = replicate (nat (u_particleCount u)) Ready \<rparr>"

text \<open>
  Modelled from the spec (4.1 Insert): \<^verbatim>\<open>boids_build.comp\<close> is missing. The
  heads and next indices after the execution \<open>sched\<close> of the pass, in which every
  invocation has finished.
\<close>

definition boids_build ::
  "Event list \<Rightarrow> Uniforms \<Rightarrow> Particle list \<Rightarrow> int list \<Rightarrow> int list
     \<Rightarrow> BuildError + (int list \<times> int list)" where
  "boids_build sched u ps hs ns =
     (case runEvents u ps sched (buildStart u hs ns) of
        Inl err \<Rightarrow> Inl err
      | Inr s \<Rightarrow>
          if list_all (\<lambda>v. v = Finished) (bs_inv s) then Inr (bs_heads s, bs_next s)
          else Inl NotAnExecution)"

text \<open>
  Modelled from the spec (section 5): the execution in which the invocations run
  one after the other.
\<close>

definition sequentialSchedule :: "nat \<Rightarrow> Event list" where
  "sequentialSchedule n = concat (map (\<lambda>i. [Exchange i, Store i]) [0..<n])"

text \<open>
  Modelled from the spec (4.2 step 1, the traversal of a cell's list):
  \<open>i = head[c]\<close>, and while \<open>i\<close> is not \<open>-1\<close>, visit
  \<open>i\<close> and go on with \<open>next[i]\<close>. The first argument bounds the number of
  visits; the walk is \<open>None\<close> when it leaves the buffer or has not reached the
  sentinel within the bound, which a cycle-free list of distinct indices below
  \<open>length ns\<close> always does within \<open>length ns\<close> visits.
\<close>

fun walk :: "nat \<Rightarrow> int list \<Rightarrow> int \<Rightarrow> nat list option" where
  "walk 0 ns j = (if j = -1 then Some [] else None)"
| "walk (Suc n) ns j =
     (if j = -1 then Some []
      else if 0 \<le> j \<and> nat j < length ns
           then map_option (\<lambda>js. nat j # js) (walk n ns (ns ! nat j))
           else None)"

text \<open>
  Modelled from the spec: the list of cell \<open>c\<close>, the walk from \<open>heads[c]\<close>, bounded by the number of
  particles.
\<close>

definition cellList :: "int list \<Rightarrow> int list \<Rightarrow> nat \<Rightarrow> nat list option" where
  "cellList hs ns c = walk (length ns) ns (hs ! c)"

text \<open>
  Modelled from the spec: the number of particles the walk of cell \<open>c\<close>
  visits.
\<close>

definition cellLength :: "int list \<Rightarrow> int list \<Rightarrow> nat \<Rightarrow> nat" where
  "cellLength hs ns c = (case cellList hs ns c of None \<Rightarrow> 0 | Some js \<Rightarrow> length js)"

text \<open>
  Modelled from the spec (section 8): the total traversed length over all cells.
\<close>

definition totalTraversed :: "int list \<Rightarrow> int list \<Rightarrow> nat" where
  "totalTraversed hs ns = sum_list (map (cellLength hs ns) [0..<length hs])"

text \<open>
  For the proofs: \<open>chain f h js\<close> says that following \<open>f\<close> from the head \<open>h\<close>
  visits exactly \<open>js\<close> and then reaches the sentinel.
\<close>

primrec chain :: "(nat \<Rightarrow> int) \<Rightarrow> int \<Rightarrow> nat list \<Rightarrow> bool" where
  "chain f h [] = (h = -1)"
| "chain f h (j # js) = (h = int j \<and> chain f (f j) js)"

text \<open>
  For the proofs: the next index of each particle once its invocation has
  finished, which is the value held between the two steps, or else the stored one.
\<close>

definition pendingNext :: "BuildState \<Rightarrow> nat \<Rightarrow> int" where
  "pendingNext s i =
     (case bs_inv s ! i of Exchanged prev \<Rightarrow> prev | Ready \<Rightarrow> bs_next s ! i | Finished \<Rightarrow> bs_next s ! i)"

text \<open>
  The invariant of the build pass, for \<open>n\<close> particles and \<open>C\<close> cells: in every
  state an execution reaches, the list of each cell holds, once each, the particles
  of that cell whose exchange has taken place.
\<close>

definition buildInv :: "Uniforms \<Rightarrow> Particle list \<Rightarrow> nat \<Rightarrow> nat \<Rightarrow> BuildState \<Rightarrow> bool" where
  "buildInv u ps n C s \<longleftrightarrow>
     length (bs_inv s) = n \<and> length (bs_next s) = n \<and> length (bs_heads s) = C \<and>
     (\<forall>c<C. \<exists>js. chain (pendingNext s) (bs_heads s ! c) js \<and> distinct js \<and>
         set js = {i. i < n \<and> bs_inv s ! i \<noteq> Ready \<and> cellIndex u (pos (ps ! i)) = int c})"

subsection \<open>The step kernel\<close>

text \<open>
  Modelled from the spec: \<^verbatim>\<open>boids_step.comp\<close> is missing. Section 4.2 of the
  specification fixes its steps. It leaves open three constants (the epsilon in the
  weight of the repulsion, the threshold below which a speed counts as negligible,
  the fallback direction) and the details of the colour mapping; these are the
  fields of \<open>KernelConstants\<close>, and the properties below hold for all of them.
\<close>

record KernelConstants =
  k_sepEps :: real
  k_speedEps :: real
  k_fallbackDir :: vec3
  k_color :: "Uniforms \<Rightarrow> vec3 \<Rightarrow> nat \<Rightarrow> real option \<times> real option \<times> real option \<times> real option"

text \<open>
  Modelled from the spec (4.2 step 1): the cap on the particles examined per
  particle, \<^verbatim>\<open>kMaxNeighbours\<close> in \<^verbatim>\<open>docs/TECHNICAL.md\<close>.
\<close>

definition kMaxNeighbours :: nat where "kMaxNeighbours = 64"

text \<open>
  Modelled from the spec (4.2 step 1): the accumulators of the neighbour scan:
  the sums of the neighbours' positions and velocities with their count, the sum of
  the repulsions with its count, and the number of particles examined.
\<close>

record Accum =
  acc_cohesion :: vec3
  acc_alignment :: vec3
  acc_neighbours :: nat
  acc_separation :: vec3
  acc_separationCount :: nat
  acc_examined :: nat

text \<open>
  Modelled from the spec (4.2 step 1): the accumulators before the scan.
\<close>

definition emptyAccum :: Accum where
  "emptyAccum =
     \<lparr> acc_cohesion = (0, 0, 0), acc_alignment = (0, 0, 0), acc_neighbours = 0,
       acc_separation = (0, 0, 0), acc_separationCount = 0, acc_examined = 0 \<rparr>"

text \<open>
  Modelled from the spec (4.2 step 1): one visited particle. It counts as examined;
  when it is another particle within \<open>neighborRadius\<close> its position and velocity
  are accumulated, and within \<open>separationRadius\<close> also the repulsion
  \<open>- d / (dist2 + eps)\<close>.
\<close>

definition visit :: "KernelConstants \<Rightarrow> Uniforms \<Rightarrow> Particle \<Rightarrow> Particle \<Rightarrow> bool \<Rightarrow> Accum \<Rightarrow> Accum" where
  "visit K u self other same acc =
     (let d = vsub (pos other) (pos self);
          dist2 = dot d d;
          acc1 = acc\<lparr> acc_examined := acc_examined acc + 1 \<rparr>
      in if same then acc1
         else if dist2 \<le> u_neighborRadius u * u_neighborRadius u then
           (let acc2 = acc1\<lparr> acc_cohesion := vadd (acc_cohesion acc1) (pos other),
                              acc_alignment := vadd (acc_alignment acc1) (vel other),
                              acc_neighbours := acc_neighbours acc1 + 1 \<rparr>
            in if dist2 \<le> u_separationRadius u * u_separationRadius u then
                 acc2\<lparr> acc_separation :=
                          vsub (acc_separation acc2) (vdiv d (dist2 + k_sepEps K)),
                        acc_separationCount := acc_separationCount acc2 + 1 \<rparr>
               else acc2)
         else acc1)"

text \<open>
  Modelled from the spec (4.2 step 1): the walk through one cell's list, from the
  index \<open>j\<close>. The second-last numeric argument is the number of particles that
  may still be examined before the cap of 64 is reached, so the walk ends even on
  a list with a cycle. An index outside the buffers ends the walk.
\<close>

fun scanCell ::
  "KernelConstants \<Rightarrow> Uniforms \<Rightarrow> Particle list \<Rightarrow> int list \<Rightarrow> nat \<Rightarrow> nat \<Rightarrow> int \<Rightarrow> Accum \<Rightarrow> Accum" where
  "scanCell K u ps ns i 0 j acc = acc"
| "scanCell K u ps ns i (Suc budget) j acc =
     (if j = -1 then acc
      else if 0 \<le> j \<and> nat j < length ps \<and> nat j < length ns then
        scanCell K u ps ns i budget (ns ! nat j)
          (visit K u (ps ! i) (ps ! nat j) (nat j = i) acc)
      else acc)"

text \<open>
  Modelled from the spec (4.2 step 1): the 27 cells at offsets \<open>-1, 0, 1\<close> per
  axis around the particle's own cell, without those outside the grid.
\<close>

definition neighbourCells :: "Uniforms \<Rightarrow> vec3 \<Rightarrow> int list" where
  "neighbourCells u p =
     (case u_gridDims u of (dx, dy, dz) \<Rightarrow>
        (case cellCoords u p of (cx, cy, cz) \<Rightarrow>
           [flattenCell u (x, y, z).
              z \<leftarrow> [cz - 1, cz, cz + 1], y \<leftarrow> [cy - 1, cy, cy + 1], x \<leftarrow> [cx - 1, cx, cx + 1],
              0 \<le> x \<and> x < dx \<and> 0 \<le> y \<and> y < dy \<and> 0 \<le> z \<and> z < dz]))"

text \<open>
  Modelled from the spec (4.2 step 1): the scan of particle \<open>i\<close> over its
  neighbour cells. Each cell's list is walked with what is left of the cap, so the
  scan stops once 64 particles have been examined.
\<close>

definition neighbourScan ::
  "KernelConstants \<Rightarrow> Uniforms \<Rightarrow> Particle list \<Rightarrow> int list \<Rightarrow> int list \<Rightarrow> nat \<Rightarrow> Accum" where
  "neighbourScan K u ps hs ns i =
     fold (\<lambda>c acc.
             if 0 \<le> c \<and> nat c < length hs
             then scanCell K u ps ns i (kMaxNeighbours - acc_examined acc) (hs ! nat c) acc
             else acc)
          (neighbourCells u (pos (ps ! i))) emptyAccum"

text \<open>
  Modelled from the spec (4.2 step 2): mean neighbour position minus own position,
  zero without neighbours.
\<close>

definition steerCohesion :: "Particle \<Rightarrow> Accum \<Rightarrow> vec3" where
  "steerCohesion self acc =
     (if acc_neighbours acc = 0 then (0, 0, 0)
      else vsub (vdiv (acc_cohesion acc) (real (acc_neighbours acc))) (pos self))"

text \<open>
  Modelled from the spec (4.2 step 2): mean neighbour velocity minus own velocity,
  zero without neighbours.
\<close>

definition steerAlignment :: "Particle \<Rightarrow> Accum \<Rightarrow> vec3" where
  "steerAlignment self acc =
     (if acc_neighbours acc = 0 then (0, 0, 0)
      else vsub (vdiv (acc_alignment acc) (real (acc_neighbours acc))) (vel self))"

text \<open>
  Modelled from the spec (4.2 step 2): the mean of the accumulated repulsions, zero
  when no particle was within the separation radius.
\<close>

definition steerSeparation :: "Accum \<Rightarrow> vec3" where
  "steerSeparation acc =
     (if acc_separationCount acc = 0 then (0, 0, 0)
      else vdiv (acc_separation acc) (real (acc_separationCount acc)))"

text \<open>
  Modelled from the spec (4.2 step 3): per axis face, a term that grows linearly
  with the depth of the particle inside the margin band and is scaled by
  \<open>boundaryStrength\<close>, pushing back into the box.
\<close>

definition axisAvoidance :: "real \<Rightarrow> real \<Rightarrow> real \<Rightarrow> real \<Rightarrow> real \<Rightarrow> real" where
  "axisAvoidance lo hi margin strength x =
     strength * max 0 (lo + margin - x) - strength * max 0 (x - (hi - margin))"

text \<open>
  Modelled from the spec (4.2 step 3): the avoidance term of the three axes.
\<close>

definition boundaryAvoidance :: "Uniforms \<Rightarrow> vec3 \<Rightarrow> vec3" where
  "boundaryAvoidance u p =
     (axisAvoidance (vx (u_worldMin u)) (vx (u_worldMax u)) (u_boundaryMargin u) (u_boundaryStrength u) (vx p),
      axisAvoidance (vy (u_worldMin u)) (vy (u_worldMax u)) (u_boundaryMargin u) (u_boundaryStrength u) (vy p),
      axisAvoidance (vz (u_worldMin u)) (vz (u_worldMax u)) (u_boundaryMargin u) (u_boundaryStrength u) (vz p))"

text \<open>
  Modelled from the spec (4.2 steps 3 and 4): the weighted sum of the steering
  vectors, the pull to the centre of the world, the avoidance term in soft mode
  only (\<open>u_wrapBounds = 0\<close>), and the clamp of the magnitude to \<open>maxAccel\<close>.
\<close>

definition acceleration :: "Uniforms \<Rightarrow> Particle \<Rightarrow> Accum \<Rightarrow> vec3" where
  "acceleration u self acc =
     (let steer = vadd (vscale (steerSeparation acc) (u_weightSeparation u))
                    (vadd (vscale (steerAlignment self acc) (u_weightAlignment u))
                          (vscale (steerCohesion self acc) (u_weightCohesion u)));
          center = vscale (vadd (u_worldMin u) (u_worldMax u)) 0.5;
          pull = vscale (vsub center (pos self)) (u_centerAttraction u);
          a = vadd steer pull
      in if u_wrapBounds u = 0 then vadd a (boundaryAvoidance u (pos self)) else a)"

text \<open>
  Modelled from the spec (4.2 step 4): an acceleration longer than \<open>maxAccel\<close>
  is rescaled, direction preserved, to \<open>maxAccel\<close>.
\<close>

definition clampAcceleration :: "Uniforms \<Rightarrow> vec3 \<Rightarrow> vec3" where
  "clampAcceleration u a =
     (if vlength a > u_maxAccel u then vscale (normalised a) (u_maxAccel u) else a)"

text \<open>
  Modelled from the spec (4.2 step 5): explicit Euler,
  \<open>velocity += acceleration * dt\<close> and then \<open>position += velocity * dt\<close>.
\<close>

definition integratedVelocity :: "Uniforms \<Rightarrow> Particle \<Rightarrow> Accum \<Rightarrow> vec3" where
  "integratedVelocity u self acc =
     vadd (vel self) (vscale (clampAcceleration u (acceleration u self acc)) (u_dt u))"

text \<open>
  Modelled from the spec (4.2 step 5): \<open>position += velocity * dt\<close>, with the
  velocity just integrated.
\<close>

definition integratedPosition :: "Uniforms \<Rightarrow> Particle \<Rightarrow> Accum \<Rightarrow> vec3" where
  "integratedPosition u self acc =
     vadd (pos self) (vscale (integratedVelocity u self acc) (u_dt u))"

text \<open>
  Modelled from the spec (4.2 step 6): a negligible speed is replaced by the
  fallback direction at the minimum speed (the \<open>u_minSpeed\<close> uniform, which the
  host has clamped); any other velocity keeps its direction and has its speed
  clamped into \<open>[minSpeed, maxSpeed]\<close>.
\<close>

definition clampSpeed :: "KernelConstants \<Rightarrow> Uniforms \<Rightarrow> vec3 \<Rightarrow> vec3" where
  "clampSpeed K u v =
     (let speed = vlength v
      in if speed < k_speedEps K then vscale (k_fallbackDir K) (u_minSpeed u)
         else vscale (vdiv v speed) (glsl_clamp speed (u_minSpeed u) (u_maxSpeed u)))"

text \<open>
  Modelled from the spec (4.2 step 7): in wrap mode a coordinate below
  \<open>worldMin\<close> is moved up by the extent of the axis and one above \<open>worldMax\<close>
  moved down by it; in soft mode every coordinate is clamped into the box.
\<close>

definition wrapAxis :: "real \<Rightarrow> real \<Rightarrow> real \<Rightarrow> real" where
  "wrapAxis lo hi x =
     (let x1 = (if x < lo then x + (hi - lo) else x)
      in if x1 > hi then x1 - (hi - lo) else x1)"

text \<open>
  Modelled from the spec (4.2 step 7): the boundary enforcement after integration,
  by mode.
\<close>

definition enforceBounds :: "Uniforms \<Rightarrow> vec3 \<Rightarrow> vec3" where
  "enforceBounds u p =
     (if u_wrapBounds u \<noteq> 0 then
        (wrapAxis (vx (u_worldMin u)) (vx (u_worldMax u)) (vx p),
         wrapAxis (vy (u_worldMin u)) (vy (u_worldMax u)) (vy p),
         wrapAxis (vz (u_worldMin u)) (vz (u_worldMax u)) (vz p))
      else
        (glsl_clamp (vx p) (vx (u_worldMin u)) (vx (u_worldMax u)),
         glsl_clamp (vy p) (vy (u_worldMin u)) (vy (u_worldMax u)),
         glsl_clamp (vz p) (vz (u_worldMin u)) (vz (u_worldMax u))))"

text \<open>
  Modelled from the spec (4.2 steps 2 to 8): the new state of one particle from its
  old state and the accumulated neighbourhood.
\<close>

definition stepParticle :: "KernelConstants \<Rightarrow> Uniforms \<Rightarrow> Particle \<Rightarrow> Accum \<Rightarrow> Particle" where
  "stepParticle K u self acc =
     (let v = clampSpeed K u (integratedVelocity u self acc);
          p = enforceBounds u (integratedPosition u self acc)
      in case k_color K u v (acc_neighbours acc) of
           (r, g, b, a) \<Rightarrow>
             \<lparr> pos = p, pos_w = pos_w self, vel = v, vel_w = vel_w self,
               color_r = r, color_g = g, color_b = b, color_a = a \<rparr>)"

text \<open>
  Modelled from the spec (4.2): the invocation for particle \<open>i\<close>: the scan of
  its neighbourhood in the grid, then the step.
\<close>

definition boids_step_invocation ::
  "KernelConstants \<Rightarrow> Uniforms \<Rightarrow> Particle list \<Rightarrow> int list \<Rightarrow> int list \<Rightarrow> nat \<Rightarrow> Particle" where
  "boids_step_invocation K u ps hs ns i =
     stepParticle K u (ps ! i) (neighbourScan K u ps hs ns i)"

text \<open>
  Modelled from the spec (4.2): \<^verbatim>\<open>boids_step.comp\<close> is missing. The pass
  writes the slot of every particle below \<open>u_particleCount\<close> in the output
  buffer and leaves the other slots as they are.
\<close>

definition boids_step ::
  "KernelConstants \<Rightarrow> Uniforms \<Rightarrow> Particle list \<Rightarrow> int list \<Rightarrow> int list \<Rightarrow> Particle list
     \<Rightarrow> Particle list" where
  "boids_step K u ps hs ns out =
     map (\<lambda>i. if int i < u_particleCount u \<and> i < length ps
              then boids_step_invocation K u ps hs ns i else out ! i)
         [0..<length out]"

text \<open>A position lies inside the world box of the uniforms, bounds included.\<close>

definition insideWorld :: "Uniforms \<Rightarrow> vec3 \<Rightarrow> bool" where
  "insideWorld u p \<longleftrightarrow>
     vx (u_worldMin u) \<le> vx p \<and> vx p \<le> vx (u_worldMax u) \<and>
     vy (u_worldMin u) \<le> vy p \<and> vy p \<le> vy (u_worldMax u) \<and>
     vz (u_worldMin u) \<le> vz p \<and> vz p \<le> vz (u_worldMax u)"

subsection \<open>The kernels as the programs of the host\<close>

text \<open>
  Modelled from the spec: the three kernels above, as the programs that
  \<^verbatim>\<open>dispatchComputePasses\<close> runs. The build program runs the execution
  \<open>sched\<close>; a list of events that is not an execution of the pass leaves the
  two grid buffers as they are.
\<close>

definition boidsPrograms :: "KernelConstants \<Rightarrow> Event list \<Rightarrow> Programs" where
  "boidsPrograms K sched =
     \<lparr> computeClearProgram = boids_clear,
       computeBuildProgram =
         (\<lambda>u ps hs ns. case boids_build sched u ps hs ns of Inr r \<Rightarrow> r | Inl err \<Rightarrow> (hs, ns)),
       computeStepProgram = boids_step K \<rparr>"

text \<open>
  What the kernels expect of the host's state: a grid with at least one cell per
  axis, \<open>cellCount\<close> the product of the dimensions, one head per cell, and one
  entry per particle in both particle buffers and in the next-index buffer.
\<close>

definition buffersFit :: "MainComponent \<Rightarrow> bool" where
  "buffersFit st \<longleftrightarrow>
     1 \<le> fst (gridDims st) \<and> 1 \<le> fst (snd (gridDims st)) \<and> 1 \<le> snd (snd (gridDims st)) \<and>
     cellCount st = fst (gridDims st) * fst (snd (gridDims st)) * snd (snd (gridDims st)) \<and>
     length (cellHeadsSSBO st) = nat (cellCount st) \<and>
     length (particlesSSBO0 st) = nat (currentParticleCount st) \<and>
     length (particlesSSBO1 st) = nat (currentParticleCount st) \<and>
     length (nextIndexSSBO st) = nat (currentParticleCount st)"

subsection \<open>Example inputs\<close>

text \<open>
  A concrete environment for the worked examples: every canonical draw is \<open>1/2\<close>,
  uninitialised memory reads as zero; and programs that leave every buffer as it is.
\<close>

definition zeroParticle :: Particle where
  "zeroParticle =
     \<lparr> pos = (0, 0, 0), pos_w = 0, vel = (0, 0, 0), vel_w = 0,
       color_r = Some 0, color_g = Some 0, color_b = Some 0, color_a = Some 0 \<rparr>"

definition exampleEnv :: AllocEnv where
  "exampleEnv =
     \<lparr> canonical = (\<lambda>n. 1 / 2), uninitParticle = (\<lambda>n. zeroParticle), uninitIndex = (\<lambda>n. 0) \<rparr>"

definition idlePrograms :: Programs where
  "idlePrograms =
     \<lparr> computeClearProgram = (\<lambda>n hs. hs),
       computeBuildProgram = (\<lambda>u ps hs ns. (hs, ns)),
       computeStepProgram = (\<lambda>u ps hs ns out. out) \<rparr>"

text \<open>
  The controls as the constructor leaves them (\<^verbatim>\<open>setParams\<close> of the clamped
  defaults), and a state whose cell size is below what a reallocation sets.
\<close>

definition examplePanel :: BoidsControlPanel where
  "examplePanel =
     \<lparr> particleCountSlider = 60000, neighborRadiusSlider = 1.34, separationRadiusSlider = 1.34,
       wSepSlider = 1.85, wAliSlider = 1.37, wCohSlider = 0.5,
       minSpeedSlider = 1, maxSpeedSlider = 10, maxAccelSlider = 8, simSpeedSlider = 1,
       centerAttractionSlider = 0.3, boundaryMarginSlider = 5, boundaryStrengthSlider = 10,
       wrapBoundsToggle = False, pointSizeSlider = 1, alphaSlider = 0.65,
       particleShapeBox = 2, colorModeBox = 2,
       hueOffsetSlider = 0, hueRangeSlider = 0.7, saturationSlider = 0.4, valueSlider = 1,
       densityCurveSlider = 1 \<rparr>"

definition smallCellState :: MainComponent where
  "smallCellState = MainComponent_ctor\<lparr> cellSize := 0.1 \<rparr>"

text \<open>
  For a tick of the simulation: constants for the step kernel; the state after a
  reallocation for two particles with the default parameters, a neighbour radius
  of 50 (one grid cell) and either boundary mode; the particle that the example
  environment generates; and an execution of the build pass in which the two
  invocations interleave, particle 1 exchanging first.
\<close>

definition exampleConstants :: KernelConstants where
  "exampleConstants =
     \<lparr> k_sepEps = 0.0001, k_speedEps = 0.000001, k_fallbackDir = (1, 0, 0),
       k_color = (\<lambda>u v n. (Some 1, Some 1, Some 1, Some 1)) \<rparr>"

definition exampleStateFor :: "bool \<Rightarrow> MainComponent" where
  "exampleStateFor wrap =
     rebuildBuffersOnGLThread exampleEnv 2
       (clampParams (Params_defaults\<lparr> p_neighborRadius := 50, p_wrapBounds := wrap \<rparr>)
          MainComponent_ctor)"

definition exampleParticle :: Particle where
  "exampleParticle =
     \<lparr> pos = (0, 0, 0), pos_w = 1, vel = (3, 0, 0), vel_w = 0,
       color_r = Some 1, color_g = Some 0.2, color_b = Some 0.2, color_a = Some (0.35 + 0.65 * (2 / 9)) \<rparr>"

definition interleavedSchedule :: "Event list" where
  "interleavedSchedule = [Exchange 1, Exchange 0, Store 0, Store 1]"

section \<open>Properties of the host code\<close>

subsection \<open>Clamps and the fields each operation leaves alone\<close>

lemma jlimit_bounds:
  fixes lo :: "'a::linorder"
  assumes "lo \<le> hi"
  shows "lo \<le> jlimit lo hi v" and "jlimit lo hi v \<le> hi"
  using assms by (auto simp: jlimit_def)

lemma jmax_ge:
  fixes a :: "'a::linorder"
  shows "a \<le> jmax a b" and "b \<le> jmax a b"
  by (auto simp: jmax_def)

lemma jmax_le:
  fixes a :: "'a::linorder"
  shows "a \<le> c \<Longrightarrow> b \<le> c \<Longrightarrow> jmax a b \<le> c"
  by (simp add: jmax_def)

lemma jlimit_count: "jlimit 1 100000 (k::int) = min (max k 1) 100000"
  by (simp add: jlimit_def min_def max_def)

lemma scaleUpCellSize_params:
  "neighborRadius (scaleUpCellSize n st) = neighborRadius st"
  "separationRadius (scaleUpCellSize n st) = separationRadius st"
  "minSpeed (scaleUpCellSize n st) = minSpeed st"
  "maxSpeed (scaleUpCellSize n st) = maxSpeed st"
  "currentParticleCount (scaleUpCellSize n st) = currentParticleCount st"
  "buffersReady (scaleUpCellSize n st) = buffersReady st"
  by (induction n arbitrary: st; simp add: computeGridFromCellSize_def Let_def)+

lemma sizeGrid_params:
  "neighborRadius (sizeGrid st) = neighborRadius st"
  "separationRadius (sizeGrid st) = separationRadius st"
  "minSpeed (sizeGrid st) = minSpeed st"
  "maxSpeed (sizeGrid st) = maxSpeed st"
  "currentParticleCount (sizeGrid st) = currentParticleCount st"
  "buffersReady (sizeGrid st) = buffersReady st"
  by (simp_all add: sizeGrid_def Let_def scaleUpCellSize_params computeGridFromCellSize_def)

lemma rebuild_unfold:
  "rebuildBuffersOnGLThread env k st =
     markReady (allocateBuffers env (sizeGrid (setParticleCount k (deleteBuffers st))))"
  by (simp add: rebuildBuffersOnGLThread_def rebuildPhases_def runPhases_def)

lemma rebuild_params:
  "neighborRadius (rebuildBuffersOnGLThread env k st) = neighborRadius st"
  "separationRadius (rebuildBuffersOnGLThread env k st) = separationRadius st"
  "minSpeed (rebuildBuffersOnGLThread env k st) = minSpeed st"
  "maxSpeed (rebuildBuffersOnGLThread env k st) = maxSpeed st"
  by (simp_all add: rebuild_unfold markReady_def allocateBuffers_def Let_def sizeGrid_params
        setParticleCount_def deleteBuffers_def)

lemma clampParams_radii:
  "neighborRadius (clampParams p st) = jlimit 0.05 50 (p_neighborRadius p)"
  "separationRadius (clampParams p st) =
     jlimit 0.01 (jlimit 0.05 50 (p_neighborRadius p)) (p_separationRadius p)"
  by (simp_all add: clampParams_def Let_def)

lemma clampParams_speeds:
  "minSpeed (clampParams p st) = jlimit 0 1000 (p_minSpeed p)"
  "maxSpeed (clampParams p st) =
     jlimit (jmax (jlimit 0 1000 (p_minSpeed p) + 0.001) 0.01) 1000 (p_maxSpeed p)"
  by (simp_all add: clampParams_def Let_def)

lemma clampParams_grid:
  "cellSize (clampParams p st) = cellSize st"
  "gridDims (clampParams p st) = gridDims st"
  "cellCount (clampParams p st) = cellCount st"
  "currentParticleCount (clampParams p st) = currentParticleCount st"
  "particlesSSBO0 (clampParams p st) = particlesSSBO0 st"
  "buffersReady (clampParams p st) = buffersReady st"
  by (simp_all add: clampParams_def Let_def)

lemma onParamsChanged_params:
  "neighborRadius (onParamsChanged env p st) = neighborRadius (clampParams p st)"
  "separationRadius (onParamsChanged env p st) = separationRadius (clampParams p st)"
  "minSpeed (onParamsChanged env p st) = minSpeed (clampParams p st)"
  "maxSpeed (onParamsChanged env p st) = maxSpeed (clampParams p st)"
  by (simp_all add: onParamsChanged_def Let_def rebuild_params)

lemma onParamsChanged_cases:
  "rebuildRequested p st \<Longrightarrow> onParamsChanged env p st =
      rebuildBuffersOnGLThread env (jlimit 1 100000 (p_particleCount p)) (clampParams p st)"
  "\<not> rebuildRequested p st \<Longrightarrow> onParamsChanged env p st = clampParams p st"
  by (simp_all add: onParamsChanged_def Let_def)

lemma ctor_fields:
  "neighborRadius MainComponent_ctor = 1.34"
  "separationRadius MainComponent_ctor = 1.34"
  "minSpeed MainComponent_ctor = 1"
  "maxSpeed MainComponent_ctor = 10"
  "currentParticleCount MainComponent_ctor = 60000"
  "\<not> buffersReady MainComponent_ctor"
  by (simp_all add: MainComponent_ctor_def Let_def clampParams_radii clampParams_speeds
      clampParams_grid Params_defaults_def jlimit_def jmax_def MainComponent_members_def)

subsection \<open>Stored radii and speeds\<close>

lemma separationRadius_clamped: "0.01 \<le> separationRadius (clampParams p st) \<and>
   separationRadius (clampParams p st) \<le> neighborRadius (clampParams p st)"
  by (simp add: clampParams_radii jlimit_def)

text \<open>
  C9. After the constructor and after every parameter update the stored separation
  radius lies in \<open>[0.01, neighborRadius]\<close>, whatever was requested; the panel's
  defaults request a separation radius (2.07) above the neighbor radius (1.34).
\<close>

theorem separationRadius_le_neighborRadius: "0.01 \<le> separationRadius (clampParams p st) \<and>
   separationRadius (clampParams p st) \<le> neighborRadius (clampParams p st) \<and>
   0.01 \<le> separationRadius (onParamsChanged env p st) \<and>
   separationRadius (onParamsChanged env p st) \<le> neighborRadius (onParamsChanged env p st) \<and>
   p_neighborRadius Params_defaults < p_separationRadius Params_defaults \<and>
   0.01 \<le> separationRadius MainComponent_ctor \<and>
   separationRadius MainComponent_ctor \<le> neighborRadius MainComponent_ctor"
  using separationRadius_clamped[of p st] by (simp add: onParamsChanged_params ctor_fields Params_defaults_def)

theorem separationRadius_le_neighborRadius_witness:
  "separationRadius (onParamsChanged exampleEnv (Params_defaults\<lparr> p_neighborRadius := 0.1, p_separationRadius := 4 \<rparr>) MainComponent_ctor) = 0.1 \<and>
   neighborRadius (onParamsChanged exampleEnv (Params_defaults\<lparr> p_neighborRadius := 0.1, p_separationRadius := 4 \<rparr>) MainComponent_ctor) = 0.1"
  using separationRadius_le_neighborRadius[of "Params_defaults\<lparr> p_neighborRadius := 0.1, p_separationRadius := 4 \<rparr>" MainComponent_ctor exampleEnv]
  by (simp add: onParamsChanged_params clampParams_radii jlimit_def)

text \<open>
  The speed clamp keeps \<open>0 \<le> minSpeed \<le> maxSpeed\<close> and \<open>0 < maxSpeed\<close> for every
  request, and a gap of at least \<open>0.001\<close> when the requested minimum is at most
  \<open>999.999\<close> (the panel's slider ends at 10).
\<close>

lemma clampParams_speeds_ordered:
  shows "0 \<le> minSpeed (clampParams p st) \<and> minSpeed (clampParams p st) \<le> maxSpeed (clampParams p st) \<and> 0 < maxSpeed (clampParams p st)"
  by (simp add: clampParams_speeds jlimit_def jmax_def)

lemma clampParams_speed_gap:
  assumes "p_minSpeed p \<le> 999.999"
  shows "minSpeed (clampParams p st) + 0.001 \<le> maxSpeed (clampParams p st)"
  using assms by (simp add: clampParams_speeds jlimit_def jmax_def)

subsection \<open>Grid sizing\<close>

lemma gridAxis_bounds:
  assumes "(0.5::real) \<le> cs"
  shows "1 \<le> jmax 1 \<lceil>20 / cs\<rceil>" and "jmax 1 \<lceil>20 / cs\<rceil> \<le> 40"
proof -
  show "1 \<le> jmax 1 \<lceil>20 / cs\<rceil>" by (rule jmax_ge)
  have "20 / cs \<le> 40" using assms by (simp add: field_simps)
  then have "\<lceil>20 / cs\<rceil> \<le> 40" by (simp add: ceiling_le_iff)
  then show "jmax 1 \<lceil>20 / cs\<rceil> \<le> 40" by (intro jmax_le) simp_all
qed

lemma worldSize_eq: "vsub worldMax worldMin = (20, 20, 20)"
  by (simp add: vsub_def worldMax_def worldMin_def vx_def vy_def vz_def)

lemma computeGrid_bounds:
  assumes "0.5 \<le> cellSize st"
  shows "cellCount (computeGridFromCellSize st) \<le> 64000"
    and "1 \<le> cellCount (computeGridFromCellSize st)"
    and "cellCount (computeGridFromCellSize st) =
           fst (gridDims (computeGridFromCellSize st)) *
           fst (snd (gridDims (computeGridFromCellSize st))) *
           snd (snd (gridDims (computeGridFromCellSize st)))"
    and "cellSize (computeGridFromCellSize st) = cellSize st"
proof -
  let ?d = "jmax 1 \<lceil>20 / cellSize st\<rceil>"
  have d: "1 \<le> ?d" "?d \<le> 40" using gridAxis_bounds[OF assms] by simp_all
  have cc: "cellCount (computeGridFromCellSize st) = ?d * ?d * ?d"
    by (simp add: computeGridFromCellSize_def Let_def worldSize_eq vx_def vy_def vz_def)
  have "?d * ?d \<le> 40 * 40" using d by (intro mult_mono) simp_all
  then have "?d * ?d * ?d \<le> 40 * 40 * 40" using d by (intro mult_mono) simp_all
  then show "cellCount (computeGridFromCellSize st) \<le> 64000" using cc by simp
  have "1 * 1 \<le> ?d * ?d" using d by (intro mult_mono) simp_all
  then have "1 * 1 * 1 \<le> ?d * ?d * ?d" using d by (intro mult_mono) simp_all
  then show "1 \<le> cellCount (computeGridFromCellSize st)" using cc by simp
  show "cellCount (computeGridFromCellSize st) =
           fst (gridDims (computeGridFromCellSize st)) *
           fst (snd (gridDims (computeGridFromCellSize st))) *
           snd (snd (gridDims (computeGridFromCellSize st)))"
    by (simp add: computeGridFromCellSize_def Let_def)
  show "cellSize (computeGridFromCellSize st) = cellSize st"
    by (simp add: computeGridFromCellSize_def Let_def)
qed

lemma sizeGrid_eq:
  "sizeGrid st = computeGridFromCellSize (st\<lparr> cellSize := jmax 0.5 (neighborRadius st) \<rparr>)"
proof -
  let ?s = "st\<lparr> cellSize := jmax 0.5 (neighborRadius st) \<rparr>"
  have "0.5 \<le> cellSize ?s" using jmax_ge(1)[of "0.5::real"] by simp
  then have "cellCount (computeGridFromCellSize ?s) \<le> 64000" by (rule computeGrid_bounds)
  then have "\<not> cellCount (computeGridFromCellSize ?s) > maxCellCount"
    by (simp add: maxCellCount_def)
  then show ?thesis by (simp add: sizeGrid_def Let_def)
qed

lemma sizeGrid_grid:
  "neighborRadius (sizeGrid st) \<le> cellSize (sizeGrid st)"
  "0.5 \<le> cellSize (sizeGrid st)"
  "cellCount (sizeGrid st) \<le> 64000"
  "1 \<le> cellCount (sizeGrid st)"
  "cellCount (sizeGrid st) = fst (gridDims (sizeGrid st)) * fst (snd (gridDims (sizeGrid st))) * snd (snd (gridDims (sizeGrid st)))"
proof -
  let ?s = "st\<lparr> cellSize := jmax 0.5 (neighborRadius st) \<rparr>"
  have cs: "0.5 \<le> cellSize ?s" using jmax_ge(1)[of "0.5::real"] by simp
  have eq: "cellSize (sizeGrid st) = jmax 0.5 (neighborRadius st)"
    unfolding sizeGrid_eq computeGrid_bounds(4)[OF cs] by simp
  have nr: "neighborRadius (sizeGrid st) = neighborRadius st"
    by (rule sizeGrid_params)
  show "neighborRadius (sizeGrid st) \<le> cellSize (sizeGrid st)"
    unfolding eq nr by (rule jmax_ge)
  show "0.5 \<le> cellSize (sizeGrid st)"
    unfolding eq by (rule jmax_ge)
  show "cellCount (sizeGrid st) \<le> 64000"
    unfolding sizeGrid_eq by (rule computeGrid_bounds(1)[OF cs])
  show "1 \<le> cellCount (sizeGrid st)"
    unfolding sizeGrid_eq by (rule computeGrid_bounds(2)[OF cs])
  show "cellCount (sizeGrid st) = fst (gridDims (sizeGrid st)) * fst (snd (gridDims (sizeGrid st))) * snd (snd (gridDims (sizeGrid st)))"
    unfolding sizeGrid_eq by (rule computeGrid_bounds(3)[OF cs])
qed

lemma rebuild_grid:
  "cellSize (rebuildBuffersOnGLThread env k st) = cellSize (sizeGrid st)"
  "gridDims (rebuildBuffersOnGLThread env k st) = gridDims (sizeGrid st)"
  "cellCount (rebuildBuffersOnGLThread env k st) = cellCount (sizeGrid st)"
  by (simp_all add: rebuild_unfold markReady_def allocateBuffers_def Let_def
      sizeGrid_eq computeGridFromCellSize_def setParticleCount_def deleteBuffers_def)

text \<open>
  The scale-up loop, for the world of 20 units per axis and the ceiling \<open>2^20\<close>,
  whose cube root lies between 101.5 and 101.595. A grid over the ceiling has at
  least 102 cells per axis. One retry multiplies the cell size by
  \<open>cells / root 3 (2^20) * 1.001\<close>, after which at most 102 cells per axis remain; a
  second retry leaves at most 101, and \<open>101^3 = 1030301\<close> is within the ceiling.
\<close>

lemma cube_root_ceiling_bounds:
  "101.5 \<le> root 3 1048576" "root 3 1048576 \<le> 101.595"
proof -
  have "(101.5::real) ^ 3 \<le> 1048576" by (simp add: power3_eq_cube)
  then have "root 3 ((101.5::real) ^ 3) \<le> root 3 1048576" by (simp only: real_root_le_iff zero_less_numeral)
  then show "101.5 \<le> root 3 1048576" by (simp add: real_root_power_cancel)
  have "(1048576::real) \<le> 101.595 ^ 3" by (simp add: power3_eq_cube)
  then have "root 3 1048576 \<le> root 3 ((101.595::real) ^ 3)" by (simp only: real_root_le_iff zero_less_numeral)
  then show "root 3 1048576 \<le> 101.595" by (simp add: real_root_power_cancel)
qed

lemma computeGrid_cube:
  "cellSize (computeGridFromCellSize st) = cellSize st"
  "gridDims (computeGridFromCellSize st) =
     (jmax 1 \<lceil>20 / cellSize st\<rceil>, jmax 1 \<lceil>20 / cellSize st\<rceil>, jmax 1 \<lceil>20 / cellSize st\<rceil>)"
  "cellCount (computeGridFromCellSize st) =
     jmax 1 \<lceil>20 / cellSize st\<rceil> * jmax 1 \<lceil>20 / cellSize st\<rceil> * jmax 1 \<lceil>20 / cellSize st\<rceil>"
  by (simp_all add: computeGridFromCellSize_def Let_def worldSize_eq vx_def vy_def vz_def)

lemma axisCells_ge:
  "1 \<le> jmax 1 \<lceil>x\<rceil>" "x \<le> real_of_int (jmax 1 \<lceil>x::real\<rceil>)"
proof -
  show "1 \<le> jmax 1 \<lceil>x\<rceil>" by (rule jmax_ge)
  have "x \<le> real_of_int \<lceil>x\<rceil>" by (rule le_of_int_ceiling)
  also have "\<dots> \<le> real_of_int (jmax 1 \<lceil>x\<rceil>)" using jmax_ge(2)[of "\<lceil>x\<rceil>" 1] by simp
  finally show "x \<le> real_of_int (jmax 1 \<lceil>x::real\<rceil>)" .
qed

lemma axisCells_le:
  assumes "x \<le> real_of_int n" "1 \<le> n"
  shows "jmax 1 \<lceil>x\<rceil> \<le> n"
  using assms by (intro jmax_le) (simp_all add: ceiling_le_iff)

lemma cube_le:
  fixes d :: int
  assumes "1 \<le> d" "d \<le> n"
  shows "d * d * d \<le> n * n * n"
proof -
  have "d * d \<le> n * n" using assms by (intro mult_mono) simp_all
  then show ?thesis using assms by (intro mult_mono) simp_all
qed

lemma over_budget_axis:
  fixes d :: int
  assumes "1 \<le> d" "maxCellCount < d * d * d"
  shows "102 \<le> d"
proof (rule ccontr)
  assume "\<not> 102 \<le> d"
  then have "d \<le> 101" by simp
  from cube_le[OF assms(1) this] have "d * d * d \<le> 1030301" by simp
  with assms(2) show False by (simp add: maxCellCount_def)
qed

lemma retry_scale:
  fixes d :: int
  shows "root 3 (real_of_int (d * d * d) / real_of_int maxCellCount) = real_of_int d / root 3 1048576"
proof -
  have "real_of_int (d * d * d) = (real_of_int d) ^ 3" by (simp add: power3_eq_cube)
  then have "root 3 (real_of_int (d * d * d)) = real_of_int d"
    by (simp add: odd_real_root_power_cancel)
  then show ?thesis by (simp add: real_root_divide maxCellCount_def)
qed

text \<open>
  One retry from the grid of the cell size \<open>c\<close>, with \<open>20 / c\<close> at most \<open>B\<close>.
\<close>

lemma retry_step:
  fixes c B :: real and d :: int
  assumes c: "0 < c" and d: "d = jmax 1 \<lceil>20 / c\<rceil>" and over: "maxCellCount < d * d * d"
    and B: "20 / c \<le> B"
    and c': "c' = c * (root 3 (real_of_int (d * d * d) / real_of_int maxCellCount) * 1.001)"
  shows "c \<le> c'" "0 < c'" "20 / c' \<le> root 3 1048576 / 1.001"
    "20 / c' \<le> B * root 3 1048576 / (102 * 1.001)"
proof -
  let ?m = "root 3 1048576"
  have m: "101.5 \<le> ?m" "?m \<le> 101.595" by (rule cube_root_ceiling_bounds)+
  have d1: "1 \<le> d" unfolding d by (rule axisCells_ge)
  have d102: "102 \<le> d" by (rule over_budget_axis[OF d1 over])
  have xd: "20 / c \<le> real_of_int d" unfolding d by (rule axisCells_ge)
  have ceq: "c' = c * (real_of_int d / ?m * 1.001)" unfolding c' retry_scale by simp
  have dr: "102 \<le> real_of_int d" using d102 by simp
  have f: "1 \<le> real_of_int d / ?m * 1.001"
  proof -
    have "?m \<le> 102" by (rule order_trans[OF m(2)]) simp
    then have "?m \<le> real_of_int d" using dr by linarith
    then have a: "1 \<le> real_of_int d / ?m" using m by (simp add: field_simps)
    have "1 * 1 \<le> real_of_int d / ?m * 1.001"
    proof (rule mult_mono)
      show "1 \<le> real_of_int d / ?m" by (rule a)
      show "(1::real) \<le> 1.001" by simp
      show "0 \<le> real_of_int d / ?m" using a by linarith
      show "(0::real) \<le> 1" by simp
    qed
    then show ?thesis by simp
  qed
  have "c * 1 \<le> c * (real_of_int d / ?m * 1.001)"
    by (rule mult_left_mono[OF f]) (rule less_imp_le[OF c])
  then show cc: "c \<le> c'" unfolding ceq by (simp only: mult_1_right)
  show c0: "0 < c'" using c cc by linarith
  have inv: "20 / c' = (20 / c) * (?m / (real_of_int d * 1.001))"
    unfolding ceq using c m dr by (simp add: field_simps)
  have pos: "0 \<le> ?m / (real_of_int d * 1.001)" using m dr by simp
  have "20 / c' \<le> real_of_int d * (?m / (real_of_int d * 1.001))"
    unfolding inv using xd pos by (rule mult_right_mono)
  also have "\<dots> = ?m / 1.001" using dr by simp
  finally show "20 / c' \<le> ?m / 1.001" .
  have B0: "0 \<le> B" using B c by (meson divide_nonneg_pos order_trans zero_le_numeral less_imp_le)
  have "?m / (real_of_int d * 1.001) \<le> ?m / (102 * 1.001)"
    using m dr by (intro divide_left_mono) simp_all
  then have "B * (?m / (real_of_int d * 1.001)) \<le> B * (?m / (102 * 1.001))"
    using B0 by (rule mult_left_mono)
  moreover have "20 / c' \<le> B * (?m / (real_of_int d * 1.001))"
    unfolding inv using B pos by (rule mult_right_mono)
  ultimately show "20 / c' \<le> B * ?m / (102 * 1.001)" by simp
qed

lemma second_retry_fits:
  "root 3 1048576 / 1.001 * root 3 1048576 / (102 * 1.001) \<le> (101::real)"
proof -
  let ?m = "root 3 1048576"
  have m: "0 \<le> ?m" "?m \<le> 101.595" using cube_root_ceiling_bounds by simp_all
  have "?m * ?m \<le> 101.595 * 101.595" using m by (intro mult_mono) simp_all
  then show ?thesis by (simp add: field_simps)
qed

lemma computeGrid_idem:
  "computeGridFromCellSize (computeGridFromCellSize st) = computeGridFromCellSize st"
  by (simp add: computeGridFromCellSize_def Let_def)

lemma computeGrid_cellSize_update:
  "computeGridFromCellSize (computeGridFromCellSize st\<lparr> cellSize := c \<rparr>) =
   computeGridFromCellSize (st\<lparr> cellSize := c \<rparr>)"
  by (simp add: computeGridFromCellSize_def Let_def)

lemma scaleUp_within_budget:
  "cellCount st \<le> maxCellCount \<Longrightarrow> scaleUpCellSize n st = st"
  by (cases n) simp_all

lemma scaleUp_over_budget:
  "maxCellCount < cellCount st \<Longrightarrow>
     scaleUpCellSize (Suc n) st =
       scaleUpCellSize n (computeGridFromCellSize
         (st\<lparr> cellSize := cellSize st *
              (root 3 (real_of_int (cellCount st) / real_of_int maxCellCount) * 1.001) \<rparr>))"
  by (simp add: Let_def)

lemma fits_if_at_most_101:
  assumes "20 / cellSize st \<le> 101"
  shows "cellCount (computeGridFromCellSize st) \<le> maxCellCount"
proof -
  let ?d = "jmax 1 \<lceil>20 / cellSize st\<rceil>"
  have "?d \<le> 101" using assms by (intro axisCells_le) simp_all
  from cube_le[OF axisCells_ge(1) this] have "?d * ?d * ?d \<le> 1030301" by simp
  then show ?thesis by (simp add: computeGrid_cube maxCellCount_def)
qed

text \<open>
  Once \<open>20 / cellSize\<close> is at most the cube root of the ceiling over 1.001, one
  more retry is enough; and one retry brings it there.
\<close>

lemma last_retry:
  assumes c: "0 < cellSize st" and B: "20 / cellSize st \<le> root 3 1048576 / 1.001"
  shows "cellCount (scaleUpCellSize (Suc n) (computeGridFromCellSize st)) \<le> maxCellCount"
    and "cellSize st \<le> cellSize (scaleUpCellSize (Suc n) (computeGridFromCellSize st))"
    and "computeGridFromCellSize (scaleUpCellSize (Suc n) (computeGridFromCellSize st)) =
           scaleUpCellSize (Suc n) (computeGridFromCellSize st)"
proof -
  let ?s0 = "computeGridFromCellSize st"
  let ?d = "jmax 1 \<lceil>20 / cellSize st\<rceil>"
  let ?r = "scaleUpCellSize (Suc n) ?s0"
  have goal: "cellCount ?r \<le> maxCellCount \<and> cellSize st \<le> cellSize ?r \<and> computeGridFromCellSize ?r = ?r"
  proof (cases "maxCellCount < cellCount ?s0")
    case False
    then have "?r = ?s0" by (intro scaleUp_within_budget) simp
    then show ?thesis using False by (simp add: computeGrid_idem computeGrid_cube(1))
  next
    case True
    define c' where "c' = cellSize st * (root 3 (real_of_int (?d * ?d * ?d) / real_of_int maxCellCount) * 1.001)"
    let ?s1 = "computeGridFromCellSize (st\<lparr> cellSize := c' \<rparr>)"
    have over: "maxCellCount < ?d * ?d * ?d" using True by (simp add: computeGrid_cube)
    note step = retry_step[OF c refl over B c'_def]
    have "20 / c' \<le> 101" using step(4) second_retry_fits by (rule order_trans)
    then have fit: "cellCount ?s1 \<le> maxCellCount" by (intro fits_if_at_most_101) simp
    have "?r = scaleUpCellSize n ?s1"
      unfolding scaleUp_over_budget[OF True]
      by (simp add: computeGrid_cube c'_def computeGrid_cellSize_update)
    then have r: "?r = ?s1" using scaleUp_within_budget[OF fit] by simp
    show ?thesis unfolding r using fit step(1) by (simp add: computeGrid_idem computeGrid_cube(1))
  qed
  from goal show "cellCount ?r \<le> maxCellCount" by blast
  from goal show "cellSize st \<le> cellSize ?r" by blast
  from goal show "computeGridFromCellSize ?r = ?r" by blast
qed

lemma two_retries:
  assumes c: "0 < cellSize st"
  shows "cellCount (scaleUpCellSize (Suc (Suc n)) (computeGridFromCellSize st)) \<le> maxCellCount"
    and "cellSize st \<le> cellSize (scaleUpCellSize (Suc (Suc n)) (computeGridFromCellSize st))"
    and "computeGridFromCellSize (scaleUpCellSize (Suc (Suc n)) (computeGridFromCellSize st)) =
           scaleUpCellSize (Suc (Suc n)) (computeGridFromCellSize st)"
proof -
  let ?s0 = "computeGridFromCellSize st"
  let ?d = "jmax 1 \<lceil>20 / cellSize st\<rceil>"
  let ?r = "scaleUpCellSize (Suc (Suc n)) ?s0"
  have goal: "cellCount ?r \<le> maxCellCount \<and> cellSize st \<le> cellSize ?r \<and> computeGridFromCellSize ?r = ?r"
  proof (cases "maxCellCount < cellCount ?s0")
    case False
    then have "?r = ?s0" by (intro scaleUp_within_budget) simp
    then show ?thesis using False by (simp add: computeGrid_idem computeGrid_cube(1))
  next
    case True
    define c' where "c' = cellSize st * (root 3 (real_of_int (?d * ?d * ?d) / real_of_int maxCellCount) * 1.001)"
    let ?t = "st\<lparr> cellSize := c' \<rparr>"
    have over: "maxCellCount < ?d * ?d * ?d" using True by (simp add: computeGrid_cube)
    note step = retry_step[OF c refl over order_refl c'_def]
    have r: "?r = scaleUpCellSize (Suc n) (computeGridFromCellSize ?t)"
      unfolding scaleUp_over_budget[OF True]
      by (simp add: computeGrid_cube c'_def computeGrid_cellSize_update)
    have t: "0 < cellSize ?t" "20 / cellSize ?t \<le> root 3 1048576 / 1.001"
      using step(2,3) by simp_all
    note l = last_retry[OF t, of n]
    show ?thesis unfolding r using l step(1) by simp
  qed
  from goal show "cellCount ?r \<le> maxCellCount" by blast
  from goal show "cellSize st \<le> cellSize ?r" by blast
  from goal show "computeGridFromCellSize ?r = ?r" by blast
qed

lemma scaleUp_four:
  assumes "0 < cellSize st"
  shows "cellCount (scaleUpCellSize 4 (computeGridFromCellSize st)) \<le> maxCellCount"
    and "cellSize st \<le> cellSize (scaleUpCellSize 4 (computeGridFromCellSize st))"
    and "computeGridFromCellSize (scaleUpCellSize 4 (computeGridFromCellSize st)) =
           scaleUpCellSize 4 (computeGridFromCellSize st)"
proof -
  have n: "(4::nat) = Suc (Suc 2)" by simp
  show "cellCount (scaleUpCellSize 4 (computeGridFromCellSize st)) \<le> maxCellCount"
    unfolding n by (rule two_retries[OF assms])
  show "cellSize st \<le> cellSize (scaleUpCellSize 4 (computeGridFromCellSize st))"
    unfolding n by (rule two_retries[OF assms])
  show "computeGridFromCellSize (scaleUpCellSize 4 (computeGridFromCellSize st)) =
           scaleUpCellSize 4 (computeGridFromCellSize st)"
    unfolding n by (rule two_retries[OF assms])
qed

lemma small_cells_no_overflow:
  assumes "0.02 \<le> cellSize st"
  shows "cellCount (computeGridFromCellSize st) \<le> 1000000000"
proof -
  let ?d = "jmax 1 \<lceil>20 / cellSize st\<rceil>"
  have "20 / cellSize st \<le> 1000" using assms by (simp add: field_simps)
  then have "?d \<le> 1000" by (intro axisCells_le) simp_all
  from cube_le[OF axisCells_ge(1) this] show ?thesis by (simp add: computeGrid_cube)
qed

lemma example_retries:
  "cellCount (computeGridFromCellSize smallCellState) = 8000000"
  "gridDims (scaleUpCellSize 4 (computeGridFromCellSize smallCellState)) = (101, 101, 101)"
  "cellCount (scaleUpCellSize 4 (computeGridFromCellSize smallCellState)) = 1030301"
proof -
  let ?m = "root 3 1048576"
  have m: "101.5 \<le> ?m" "?m \<le> 101.595" by (rule cube_root_ceiling_bounds)+
  have m0: "0 < ?m" by simp
  let ?s0 = "computeGridFromCellSize smallCellState"
  have c0: "cellSize smallCellState = 0.1" by (simp add: smallCellState_def)
  have d0: "jmax 1 \<lceil>20 / cellSize smallCellState\<rceil> = 200"
    unfolding c0 by (simp add: jmax_def)
  show n0: "cellCount ?s0 = 8000000" unfolding computeGrid_cube d0 by simp
  have over0: "maxCellCount < cellCount ?s0" unfolding n0 by (simp add: maxCellCount_def)
  define c1 where "c1 = 0.1 * (200 / ?m * 1.001)"
  let ?s1 = "computeGridFromCellSize (smallCellState\<lparr> cellSize := c1 \<rparr>)"
  have sc0: "root 3 (real_of_int (cellCount ?s0) / real_of_int maxCellCount) = 200 / ?m"
    using retry_scale[of 200] unfolding n0 by simp
  have r1: "scaleUpCellSize 4 ?s0 = scaleUpCellSize 3 ?s1"
  proof -
    have "(4::nat) = Suc 3" by simp
    then show ?thesis
      using scaleUp_over_budget[OF over0, of 3]
      by (simp only: sc0 computeGrid_cube(1) c0 c1_def computeGrid_cellSize_update)
  qed
  have x1: "20 / c1 = ?m / 1.001" unfolding c1_def using m0 by (simp add: field_simps)
  have "\<lceil>?m / 1.001\<rceil> = 102"
  proof (rule ceiling_unique)
    have "101.101 < ?m" by (rule less_le_trans[OF _ m(1)]) simp
    then show "real_of_int 102 - 1 < ?m / 1.001" by (simp add: field_simps)
    have "?m \<le> 102.102" by (rule order_trans[OF m(2)]) simp
    then show "?m / 1.001 \<le> real_of_int 102" by (simp add: field_simps)
  qed
  then have d1: "jmax 1 \<lceil>20 / cellSize (smallCellState\<lparr> cellSize := c1 \<rparr>)\<rceil> = 102"
    by (simp add: x1 jmax_def)
  have n1: "cellCount ?s1 = 1061208" unfolding computeGrid_cube d1 by simp
  have over1: "maxCellCount < cellCount ?s1" unfolding n1 by (simp add: maxCellCount_def)
  define c2 where "c2 = c1 * (102 / ?m * 1.001)"
  let ?s2 = "computeGridFromCellSize (smallCellState\<lparr> cellSize := c2 \<rparr>)"
  have sc1: "root 3 (real_of_int (cellCount ?s1) / real_of_int maxCellCount) = 102 / ?m"
    using retry_scale[of 102] unfolding n1 by simp
  have r2: "scaleUpCellSize 3 ?s1 = scaleUpCellSize 2 ?s2"
  proof -
    have "(3::nat) = Suc 2" by simp
    then show ?thesis
      using scaleUp_over_budget[OF over1, of 2]
      by (simp add: sc1 computeGrid_cube(1) c2_def computeGrid_cellSize_update del: scaleUpCellSize.simps)
  qed
  have x2: "20 / c2 = ?m / 1.001 * ?m / (102 * 1.001)"
    unfolding c2_def c1_def using m0 by (simp add: field_simps)
  have mm: "101.5 * 101.5 \<le> ?m * ?m" using m by (intro mult_mono) simp_all
  have "\<lceil>?m / 1.001 * ?m / (102 * 1.001)\<rceil> = 101"
  proof (rule ceiling_unique)
    show "?m / 1.001 * ?m / (102 * 1.001) \<le> real_of_int 101"
      using second_retry_fits by simp
    have "10221 < ?m * ?m" by (rule less_le_trans[OF _ mm]) simp
    then show "real_of_int 101 - 1 < ?m / 1.001 * ?m / (102 * 1.001)" by (simp add: field_simps)
  qed
  then have d2: "jmax 1 \<lceil>20 / cellSize (smallCellState\<lparr> cellSize := c2 \<rparr>)\<rceil> = 101"
    by (simp add: x2 jmax_def)
  have n2: "cellCount ?s2 = 1030301" unfolding computeGrid_cube d2 by simp
  have g2: "gridDims ?s2 = (101, 101, 101)" unfolding computeGrid_cube d2 by simp
  have fit: "cellCount ?s2 \<le> maxCellCount" unfolding n2 by (simp add: maxCellCount_def)
  have r: "scaleUpCellSize 4 ?s0 = ?s2"
    unfolding r1 r2 by (rule scaleUp_within_budget[OF fit])
  show "gridDims (scaleUpCellSize 4 ?s0) = (101, 101, 101)" unfolding r by (rule g2)
  show "cellCount (scaleUpCellSize 4 ?s0) = 1030301" unfolding r by (rule n2)
qed

text \<open>
  C6. After every reallocation the cell size is at least the neighbor radius, the
  cell count is the product of the grid dimensions, and it does not exceed
  \<open>maxCellCount = 2^20\<close>. A reallocation sets a cell size of at least 0.5, for
  which the count derived first is at most \<open>40^3 = 64000\<close>, so that it never
  enters the scale-up loop. The loop itself, started on the grid derived from any
  cell size of at least 0.02 (for which the count derived first is below
  \<open>2^31\<close>), ends with a cell count of at most \<open>maxCellCount\<close>, with a cell
  size that is not smaller, and with the grid derived from that cell size.
\<close>

theorem rebuild_grid_within_budget:
  "neighborRadius (rebuildBuffersOnGLThread env k st) \<le> cellSize (rebuildBuffersOnGLThread env k st) \<and>
   cellCount (rebuildBuffersOnGLThread env k st) =
     fst (gridDims (rebuildBuffersOnGLThread env k st)) *
     fst (snd (gridDims (rebuildBuffersOnGLThread env k st))) *
     snd (snd (gridDims (rebuildBuffersOnGLThread env k st))) \<and>
   cellCount (rebuildBuffersOnGLThread env k st) \<le> maxCellCount \<and> maxCellCount = 2 ^ 20 \<and>
   (0.02 \<le> cellSize s \<longrightarrow>
      cellCount (computeGridFromCellSize s) < 2 ^ 31 \<and>
      cellCount (scaleUpCellSize 4 (computeGridFromCellSize s)) \<le> maxCellCount \<and>
      cellSize s \<le> cellSize (scaleUpCellSize 4 (computeGridFromCellSize s)) \<and>
      computeGridFromCellSize (scaleUpCellSize 4 (computeGridFromCellSize s)) =
        scaleUpCellSize 4 (computeGridFromCellSize s))"
proof -
  have a: "neighborRadius (rebuildBuffersOnGLThread env k st) \<le> cellSize (rebuildBuffersOnGLThread env k st) \<and>
   cellCount (rebuildBuffersOnGLThread env k st) =
     fst (gridDims (rebuildBuffersOnGLThread env k st)) *
     fst (snd (gridDims (rebuildBuffersOnGLThread env k st))) *
     snd (snd (gridDims (rebuildBuffersOnGLThread env k st))) \<and>
   cellCount (rebuildBuffersOnGLThread env k st) \<le> maxCellCount \<and> maxCellCount = 2 ^ 20"
    using sizeGrid_grid[of st]
    by (simp add: rebuild_grid rebuild_params maxCellCount_def sizeGrid_params)
  have b: "cellCount (computeGridFromCellSize s) < 2 ^ 31 \<and>
      cellCount (scaleUpCellSize 4 (computeGridFromCellSize s)) \<le> maxCellCount \<and>
      cellSize s \<le> cellSize (scaleUpCellSize 4 (computeGridFromCellSize s)) \<and>
      computeGridFromCellSize (scaleUpCellSize 4 (computeGridFromCellSize s)) =
        scaleUpCellSize 4 (computeGridFromCellSize s)"
    if c: "0.02 \<le> cellSize s"
  proof -
    have "(0::real) < 0.02" by simp
    then have p: "0 < cellSize s" using c by (rule less_le_trans)
    have "cellCount (computeGridFromCellSize s) < 2 ^ 31"
      using small_cells_no_overflow[OF c] by simp
    with scaleUp_four[OF p] show ?thesis by blast
  qed
  from a b show ?thesis by blast
qed

theorem rebuild_grid_within_budget_witness:
  "cellSize (rebuildBuffersOnGLThread exampleEnv 60000 MainComponent_ctor) = 1.34 \<and>
   gridDims (rebuildBuffersOnGLThread exampleEnv 60000 MainComponent_ctor) = (15, 15, 15) \<and>
   cellCount (rebuildBuffersOnGLThread exampleEnv 60000 MainComponent_ctor) = 3375 \<and>
   cellCount (rebuildBuffersOnGLThread exampleEnv 60000 MainComponent_ctor) \<le> maxCellCount \<and>
   cellSize smallCellState = 0.1 \<and>
   cellCount (computeGridFromCellSize smallCellState) = 8000000 \<and>
   maxCellCount < cellCount (computeGridFromCellSize smallCellState) \<and>
   gridDims (scaleUpCellSize 4 (computeGridFromCellSize smallCellState)) = (101, 101, 101) \<and>
   cellCount (scaleUpCellSize 4 (computeGridFromCellSize smallCellState)) = 1030301 \<and>
   cellCount (scaleUpCellSize 4 (computeGridFromCellSize smallCellState)) \<le> maxCellCount \<and>
   cellSize smallCellState \<le> cellSize (scaleUpCellSize 4 (computeGridFromCellSize smallCellState))"
proof -
  have c: "\<lceil>20 / (1.34::real)\<rceil> = 15" by (simp add: ceiling_eq_iff)
  have r: "cellSize (rebuildBuffersOnGLThread exampleEnv 60000 MainComponent_ctor) = 1.34 \<and>
   gridDims (rebuildBuffersOnGLThread exampleEnv 60000 MainComponent_ctor) = (15, 15, 15) \<and>
   cellCount (rebuildBuffersOnGLThread exampleEnv 60000 MainComponent_ctor) = 3375"
    by (simp add: rebuild_grid sizeGrid_eq computeGridFromCellSize_def Let_def ctor_fields
        worldSize_eq vx_def vy_def vz_def jmax_def c)
  have s: "cellSize smallCellState = 0.1" "0.02 \<le> cellSize smallCellState"
    by (simp_all add: smallCellState_def)
  have o: "maxCellCount < cellCount (computeGridFromCellSize smallCellState)"
    by (simp add: example_retries maxCellCount_def)
  from rebuild_grid_within_budget[of exampleEnv 60000 MainComponent_ctor smallCellState] r s o
    example_retries
  show ?thesis by blast
qed

subsection \<open>The regenerated particles\<close>

lemma uniform_real_bounds:
  assumes "a \<le> b" "0 \<le> u" "u < 1"
  shows "a \<le> uniform_real a b u" and "uniform_real a b u \<le> b"
proof -
  have "0 \<le> (b - a) * u" using assms by simp
  then show "a \<le> uniform_real a b u" by (simp add: uniform_real_def)
  have "(b - a) * u \<le> (b - a) * 1" using assms by (intro mult_left_mono) simp_all
  then show "uniform_real a b u \<le> b" by (simp add: uniform_real_def)
qed

lemma vlength_nonneg: "0 \<le> vlength a"
  by (simp add: vlength_def dot_def)

lemma vlength_normalised:
  assumes "vlength a \<noteq> 0"
  shows "vlength (normalised a) = 1"
proof -
  let ?l = "vlength a"
  have l2: "?l * ?l = dot a a"
    by (simp add: vlength_def dot_def)
  have "dot (normalised a) (normalised a) = dot a a / (?l * ?l)"
    by (simp add: normalised_def vdiv_def dot_def vx_def vy_def vz_def add_divide_distrib)
  also have "\<dots> = (?l * ?l) / (?l * ?l)" by (simp only: l2)
  also have "\<dots> = 1" using assms by simp
  finally show ?thesis by (simp add: vlength_def)
qed

lemma vlength_vscale: "vlength (vscale a s) = vlength a * \<bar>s\<bar>"
proof -
  have "dot (vscale a s) (vscale a s) = dot a a * (s * s)"
    by (simp add: vscale_def dot_def vx_def vy_def vz_def algebra_simps)
  then show ?thesis
    by (simp add: vlength_def real_sqrt_mult)
qed

lemma initDir_unit: "vlength (initDir u i) = 1"
proof -
  let ?d = "(uniform_real (-1) 1 (u (7 * i + 3)), uniform_real (-1) 1 (u (7 * i + 4)),
             uniform_real (-1) 1 (u (7 * i + 5)))"
  show ?thesis
  proof (cases "vlength ?d < 0.001")
    case True
    have "vlength (normalised (1, 0, 0)) = 1"
      by (rule vlength_normalised) (simp add: vlength_def dot_def vx_def vy_def vz_def)
    with True show ?thesis by (simp add: initDir_def Let_def)
  next
    case False
    then have "vlength ?d \<noteq> 0" by auto
    then have "vlength (normalised ?d) = 1" by (rule vlength_normalised)
    with False show ?thesis by (simp add: initDir_def Let_def)
  qed
qed

lemma initSpeed_bounds:
  assumes "0 \<le> minSpeed st" "minSpeed st \<le> maxSpeed st" "0 \<le> u (7 * i + 6)" "u (7 * i + 6) < 1"
  shows "minSpeed st \<le> initSpeed st u i" and "initSpeed st u i \<le> maxSpeed st"
proof -
  have hi: "minSpeed st \<le> jmax (minSpeed st) (maxSpeed st / 2)" by (rule jmax_ge)
  have "maxSpeed st / 2 \<le> maxSpeed st" using assms by simp
  then have top: "jmax (minSpeed st) (maxSpeed st / 2) \<le> maxSpeed st"
    using assms by (intro jmax_le)
  show "minSpeed st \<le> initSpeed st u i"
    unfolding initSpeed_def using hi assms(3,4) by (rule uniform_real_bounds)
  have "initSpeed st u i \<le> jmax (minSpeed st) (maxSpeed st / 2)"
    unfolding initSpeed_def using hi assms(3,4) by (rule uniform_real_bounds)
  with top show "initSpeed st u i \<le> maxSpeed st" by simp
qed

lemma initPos_in_world:
  assumes "\<forall>n. 0 \<le> u n \<and> u n < 1"
  shows "vx worldMin \<le> vx (initPos u i) \<and> vx (initPos u i) \<le> vx worldMax \<and>
         vy worldMin \<le> vy (initPos u i) \<and> vy (initPos u i) \<le> vy worldMax \<and>
         vz worldMin \<le> vz (initPos u i) \<and> vz (initPos u i) \<le> vz worldMax"
proof -
  have w: "vx worldMin \<le> vx worldMax" "vy worldMin \<le> vy worldMax" "vz worldMin \<le> vz worldMax"
    by (simp_all add: worldMin_def worldMax_def vx_def vy_def vz_def)
  have u: "\<And>n. 0 \<le> u n" "\<And>n. u n < 1" using assms by simp_all
  have px: "vx (initPos u i) = uniform_real (vx worldMin) (vx worldMax) (u (7 * i))"
    and py: "vy (initPos u i) = uniform_real (vy worldMin) (vy worldMax) (u (7 * i + 1))"
    and pz: "vz (initPos u i) = uniform_real (vz worldMin) (vz worldMax) (u (7 * i + 2))"
    by (simp_all add: initPos_def vx_def vy_def vz_def)
  show ?thesis
    unfolding px py pz
    using uniform_real_bounds[OF w(1) u] uniform_real_bounds[OF w(2) u] uniform_real_bounds[OF w(3) u]
    by blast
qed

lemma rebuild_particles:
  "particlesSSBO0 (rebuildBuffersOnGLThread env k st) =
     map (initParticle (rebuildBuffersOnGLThread env k st) (canonical env))
       [0..<nat (jlimit 1 100000 k)]"
  "currentParticleCount (rebuildBuffersOnGLThread env k st) = jlimit 1 100000 k"
proof -
  have ip: "\<And>a b. minSpeed a = minSpeed b \<Longrightarrow> maxSpeed a = maxSpeed b \<Longrightarrow> initParticle a = initParticle b"
    by (intro ext) (simp add: initParticle_def initSpeed_def normalisedSpeed_def)
  let ?s = "sizeGrid (setParticleCount k (deleteBuffers st))"
  have "initParticle ?s = initParticle (rebuildBuffersOnGLThread env k st)"
    by (rule ip) (simp_all add: rebuild_params sizeGrid_params setParticleCount_def deleteBuffers_def)
  moreover have "currentParticleCount ?s = jlimit 1 100000 k"
    by (simp add: sizeGrid_params setParticleCount_def)
  ultimately show "particlesSSBO0 (rebuildBuffersOnGLThread env k st) =
     map (initParticle (rebuildBuffersOnGLThread env k st) (canonical env))
       [0..<nat (jlimit 1 100000 k)]"
    by (simp add: rebuild_unfold markReady_def allocateBuffers_def Let_def)
  show "currentParticleCount (rebuildBuffersOnGLThread env k st) = jlimit 1 100000 k"
    by (simp add: rebuild_unfold markReady_def allocateBuffers_def Let_def sizeGrid_params setParticleCount_def)
qed

text \<open>
  C2. A reallocation for a requested count \<open>k\<close> leaves exactly
  \<open>min (max k 1) 100000\<close> particles; each one has its position inside
  \<open>[worldMin, worldMax]\<close>, and its velocity is a heading of length 1 times a speed
  in \<open>[minSpeed, maxSpeed]\<close>. The canonical draws lie in \<open>[0, 1)\<close>, and the stored
  speeds are ordered as \<open>clampParams\<close> leaves them
  (\<open>clampParams_speeds_ordered\<close>).
\<close>

theorem rebuild_particle_population:
  assumes draws: "\<forall>n. 0 \<le> canonical env n \<and> canonical env n < 1"
    and speeds: "0 \<le> minSpeed st" "minSpeed st \<le> maxSpeed st"
    and st': "st' = rebuildBuffersOnGLThread env k st"
  shows "currentParticleCount st' = min (max k 1) 100000 \<and>
         length (particlesSSBO0 st') = nat (min (max k 1) 100000) \<and>
         (\<forall>i < length (particlesSSBO0 st').
            vx worldMin \<le> vx (pos (particlesSSBO0 st' ! i)) \<and>
            vx (pos (particlesSSBO0 st' ! i)) \<le> vx worldMax \<and>
            vy worldMin \<le> vy (pos (particlesSSBO0 st' ! i)) \<and>
            vy (pos (particlesSSBO0 st' ! i)) \<le> vy worldMax \<and>
            vz worldMin \<le> vz (pos (particlesSSBO0 st' ! i)) \<and>
            vz (pos (particlesSSBO0 st' ! i)) \<le> vz worldMax \<and>
            vel (particlesSSBO0 st' ! i) =
              vscale (initDir (canonical env) i) (initSpeed st' (canonical env) i) \<and>
            vlength (initDir (canonical env) i) = 1 \<and>
            minSpeed st' \<le> initSpeed st' (canonical env) i \<and>
            initSpeed st' (canonical env) i \<le> maxSpeed st' \<and>
            vlength (vel (particlesSSBO0 st' ! i)) = initSpeed st' (canonical env) i)"
proof -
  let ?u = "canonical env"
  have sp: "0 \<le> minSpeed st'" "minSpeed st' \<le> maxSpeed st'"
    using speeds by (simp_all add: st' rebuild_params)
  have len: "length (particlesSSBO0 st') = nat (min (max k 1) 100000)"
    by (simp add: st' rebuild_particles jlimit_count)
  have each: "\<And>i. i < length (particlesSSBO0 st') \<Longrightarrow>
      particlesSSBO0 st' ! i = initParticle st' ?u i"
    by (simp add: st' rebuild_particles)
  have u: "\<And>n. 0 \<le> ?u n" "\<And>n. ?u n < 1" using draws by simp_all
  have sb: "\<And>i. minSpeed st' \<le> initSpeed st' ?u i" "\<And>i. initSpeed st' ?u i \<le> maxSpeed st'"
    using initSpeed_bounds[OF sp u] by simp_all
  have s0: "\<And>i. 0 \<le> initSpeed st' ?u i" using sb(1) sp(1) by (meson order_trans)
  have vl: "\<And>i. vlength (vel (initParticle st' ?u i)) = initSpeed st' ?u i"
    using s0 by (simp add: initParticle_def Let_def vlength_vscale initDir_unit)
  have pp: "\<And>i. pos (initParticle st' ?u i) = initPos ?u i"
    and vv: "\<And>i. vel (initParticle st' ?u i) = vscale (initDir ?u i) (initSpeed st' ?u i)"
    by (simp_all add: initParticle_def Let_def)
  have cnt: "currentParticleCount st' = min (max k 1) 100000"
    by (simp add: st' rebuild_particles(2) jlimit_count)
  have "\<And>i. i < length (particlesSSBO0 st') \<Longrightarrow>
            vx worldMin \<le> vx (pos (particlesSSBO0 st' ! i)) \<and>
            vx (pos (particlesSSBO0 st' ! i)) \<le> vx worldMax \<and>
            vy worldMin \<le> vy (pos (particlesSSBO0 st' ! i)) \<and>
            vy (pos (particlesSSBO0 st' ! i)) \<le> vy worldMax \<and>
            vz worldMin \<le> vz (pos (particlesSSBO0 st' ! i)) \<and>
            vz (pos (particlesSSBO0 st' ! i)) \<le> vz worldMax \<and>
            vel (particlesSSBO0 st' ! i) =
              vscale (initDir (canonical env) i) (initSpeed st' (canonical env) i) \<and>
            vlength (initDir (canonical env) i) = 1 \<and>
            minSpeed st' \<le> initSpeed st' (canonical env) i \<and>
            initSpeed st' (canonical env) i \<le> maxSpeed st' \<and>
            vlength (vel (particlesSSBO0 st' ! i)) = initSpeed st' (canonical env) i"
    using initPos_in_world[OF draws] sb vl
    by (simp only: each pp vv initDir_unit)
  with cnt len show ?thesis by blast
qed

theorem rebuild_particle_population_witness:
  "currentParticleCount (rebuildBuffersOnGLThread exampleEnv 150000 MainComponent_ctor) = 100000 \<and>
   length (particlesSSBO0 (rebuildBuffersOnGLThread exampleEnv 150000 MainComponent_ctor)) = 100000 \<and>
   pos (particlesSSBO0 (rebuildBuffersOnGLThread exampleEnv 150000 MainComponent_ctor) ! 0) = (0, 0, 0) \<and>
   vel (particlesSSBO0 (rebuildBuffersOnGLThread exampleEnv 150000 MainComponent_ctor) ! 0) = (3, 0, 0) \<and>
   vlength (vel (particlesSSBO0 (rebuildBuffersOnGLThread exampleEnv 150000 MainComponent_ctor) ! 0)) = 3"
proof -
  let ?st = "rebuildBuffersOnGLThread exampleEnv 150000 MainComponent_ctor"
  have draws: "\<forall>n. 0 \<le> canonical exampleEnv n \<and> canonical exampleEnv n < 1"
    by (simp add: exampleEnv_def)
  have sp: "0 \<le> minSpeed MainComponent_ctor" "minSpeed MainComponent_ctor \<le> maxSpeed MainComponent_ctor"
    by (simp_all add: ctor_fields)
  note main = rebuild_particle_population[OF draws sp refl, of 150000]
  have len: "length (particlesSSBO0 ?st) = 100000" using main by simp
  then have i0: "0 < length (particlesSSBO0 ?st)" by simp
  have d: "initDir (canonical exampleEnv) 0 = (1, 0, 0)"
    by (simp add: initDir_def exampleEnv_def uniform_real_def vlength_def dot_def vx_def vy_def vz_def
        normalised_def vdiv_def)
  have s: "initSpeed ?st (canonical exampleEnv) 0 = 3"
    by (simp add: initSpeed_def rebuild_params ctor_fields exampleEnv_def uniform_real_def jmax_def)
  have p: "pos (particlesSSBO0 ?st ! 0) = (0, 0, 0)"
    by (simp add: rebuild_particles jlimit_def initParticle_def Let_def initPos_def exampleEnv_def
        uniform_real_def worldMin_def worldMax_def vx_def vy_def vz_def)
  from main i0 have v0: "vel (particlesSSBO0 ?st ! 0) =
      vscale (initDir (canonical exampleEnv) 0) (initSpeed ?st (canonical exampleEnv) 0)"
    by blast
  from main i0 have l0: "vlength (vel (particlesSSBO0 ?st ! 0)) = initSpeed ?st (canonical exampleEnv) 0"
    by blast
  have v: "vel (particlesSSBO0 ?st ! 0) = (3, 0, 0)"
    unfolding v0 d s by (simp add: vscale_def vx_def vy_def vz_def)
  have l: "vlength (vel (particlesSSBO0 ?st ! 0)) = 3"
    unfolding l0 s by (rule refl)
  from main have "currentParticleCount ?st = 100000" by simp
  with len p v l show ?thesis by blast
qed

subsection \<open>The readiness flag\<close>

lemma phases_flag:
  "\<not> buffersReady (deleteBuffers st)"
  "buffersReady (setParticleCount k st) = buffersReady st"
  "buffersReady (allocateBuffers env st) = buffersReady st"
  "buffersReady (markReady st)"
  by (simp_all add: deleteBuffers_def setParticleCount_def allocateBuffers_def markReady_def Let_def)

lemma take_phases:
  assumes "1 \<le> n" "n < length (rebuildPhases env k)"
  shows "take n (rebuildPhases env k) = [deleteBuffers] \<or>
         take n (rebuildPhases env k) = [deleteBuffers, setParticleCount k] \<or>
         take n (rebuildPhases env k) = [deleteBuffers, setParticleCount k, sizeGrid] \<or>
         take n (rebuildPhases env k) = [deleteBuffers, setParticleCount k, sizeGrid, allocateBuffers env]"
proof -
  have "n = 1 \<or> n = 2 \<or> n = 3 \<or> n = 4"
    using assms by (simp add: rebuildPhases_def) arith
  then show ?thesis
    by (auto simp: rebuildPhases_def numeral_2_eq_2 numeral_3_eq_3 eval_nat_numeral)
qed

lemma not_ready_during_rebuild:
  assumes "1 \<le> n" "n < length (rebuildPhases env k)"
  shows "\<not> buffersReady (runPhases (take n (rebuildPhases env k)) st)"
  using take_phases[OF assms]
  by (auto simp: runPhases_def phases_flag sizeGrid_params)

lemma dispatch_not_ready:
  "\<not> buffersReady st \<Longrightarrow> dispatchComputePasses progs dt st = st"
  by (simp add: dispatchComputePasses_def)

text \<open>
  C8. The readiness flag is false after every phase of a reallocation but the last
  (from the deletion of the old buffers on), true when the reallocation has
  completed, and a dispatch that finds the flag false returns the state as it is,
  whatever the programs are.
\<close>

theorem buffersReady_false_during_rebuild:
  "(\<forall>n. 1 \<le> n \<and> n < length (rebuildPhases env k) \<longrightarrow>
        \<not> buffersReady (runPhases (take n (rebuildPhases env k)) st)) \<and>
   buffersReady (rebuildBuffersOnGLThread env k st) \<and>
   (\<forall>s. \<not> buffersReady s \<longrightarrow> dispatchComputePasses progs dt s = s)"
  by (simp add: not_ready_during_rebuild dispatch_not_ready rebuild_unfold phases_flag)

theorem buffersReady_false_during_rebuild_witness:
  "\<not> buffersReady (runPhases (take 4 (rebuildPhases exampleEnv 60000)) MainComponent_ctor) \<and>
   buffersReady (rebuildBuffersOnGLThread exampleEnv 60000 MainComponent_ctor) \<and>
   dispatchComputePasses idlePrograms 0.016 (deleteBuffers (rebuildBuffersOnGLThread exampleEnv 60000 MainComponent_ctor))
     = deleteBuffers (rebuildBuffersOnGLThread exampleEnv 60000 MainComponent_ctor)"
proof -
  note main = buffersReady_false_during_rebuild[of exampleEnv 60000 MainComponent_ctor idlePrograms "0.016"]
  have n: "1 \<le> (4::nat) \<and> 4 < length (rebuildPhases exampleEnv 60000)"
    by (simp add: rebuildPhases_def)
  have d: "\<not> buffersReady (deleteBuffers (rebuildBuffersOnGLThread exampleEnv 60000 MainComponent_ctor))"
    by (simp add: deleteBuffers_def)
  from main n d show ?thesis by blast
qed

subsection \<open>What the control panel delivers\<close>

text \<open>
  The lambda given to \<^verbatim>\<open>setOnParamsChanged\<close> is called from
  \<^verbatim>\<open>BoidsControlPanel::timerCallback\<close> only, with the values of the sliders. A
  slider value lies in the slider's range, and a value of the radius slider is
  \<open>0.1\<close> plus a multiple of \<open>0.01\<close>, so two of them are equal or at least
  \<open>0.01\<close> apart. The constructor stores such a radius, every update stores the
  one delivered, and no other operation writes the radius.
\<close>

lemma snap_bounds:
  assumes "lo \<le> hi"
  shows "lo \<le> snapToLegalValue lo hi h v" "snapToLegalValue lo hi h v \<le> hi"
  using assms by (auto simp: snapToLegalValue_def Let_def)

lemma radius_on_grid:
  "\<exists>k::int. snapToLegalValue 0.1 8 0.01 v = 0.1 + 0.01 * real_of_int k"
proof -
  let ?v1 = "0.1 + 0.01 * real_of_int \<lfloor>(v - 0.1) / 0.01 + 0.5\<rfloor>"
  have "snapToLegalValue 0.1 8 0.01 v = 0.1 \<or> snapToLegalValue 0.1 8 0.01 v = 8 \<or>
        snapToLegalValue 0.1 8 0.01 v = ?v1"
    by (simp add: snapToLegalValue_def Let_def)
  moreover have "(0.1::real) = 0.1 + 0.01 * real_of_int 0" by simp
  moreover have "(8::real) = 0.1 + 0.01 * real_of_int 790" by simp
  ultimately show ?thesis by metis
qed

lemma grid_values_apart:
  fixes k j :: int
  assumes "a = 0.1 + 0.01 * real_of_int k" "b = 0.1 + 0.01 * real_of_int j"
  shows "\<bar>a - b\<bar> > 0.0001 \<longleftrightarrow> a \<noteq> b"
proof (cases "k = j")
  case True
  then show ?thesis using assms by simp
next
  case False
  then have "1 \<le> \<bar>k - j\<bar>" by simp
  define D where "D = real_of_int k - real_of_int j"
  have D: "1 \<le> \<bar>D\<bar>"
    unfolding D_def using \<open>1 \<le> \<bar>k - j\<bar>\<close> by (metis of_int_1_le_iff of_int_abs of_int_diff)
  have ab: "a - b = D / 100" unfolding D_def using assms by (simp add: algebra_simps)
  have "\<bar>a - b\<bar> = \<bar>D\<bar> / 100" unfolding ab by (simp only: abs_divide abs_numeral)
  then have "1 / 100 \<le> \<bar>a - b\<bar>" using D by simp
  moreover have "(0.0001::real) < 1 / 100" by simp
  ultimately have "0.0001 < \<bar>a - b\<bar>" by (rule less_le_trans[rotated])
  moreover have "a \<noteq> b" using False assms by simp
  ultimately show ?thesis by simp
qed

lemma panel_fields:
  "p_neighborRadius (BoidsControlPanel_timerCallback panel) = snapToLegalValue 0.1 8 0.01 (neighborRadiusSlider panel)"
  "p_minSpeed (BoidsControlPanel_timerCallback panel) = snapToLegalValue 0 10 0.01 (minSpeedSlider panel)"
  "p_maxSpeed (BoidsControlPanel_timerCallback panel) = snapToLegalValue 0.1 20 0.01 (maxSpeedSlider panel)"
  "p_particleCount (BoidsControlPanel_timerCallback panel) = \<lfloor>snapToLegalValue 1 100000 1 (particleCountSlider panel)\<rfloor>"
  by (simp_all add: BoidsControlPanel_timerCallback_def)

lemma panel_radius_stored:
  "neighborRadius (clampParams (BoidsControlPanel_timerCallback panel) st) =
     snapToLegalValue 0.1 8 0.01 (neighborRadiusSlider panel)"
proof -
  have "0.1 \<le> snapToLegalValue 0.1 8 0.01 (neighborRadiusSlider panel)"
       "snapToLegalValue 0.1 8 0.01 (neighborRadiusSlider panel) \<le> 8"
    by (rule snap_bounds, simp)+
  then show ?thesis by (simp add: clampParams_radii panel_fields jlimit_def)
qed

lemma ctor_radius_on_slider: "neighborRadius MainComponent_ctor = snapToLegalValue 0.1 8 0.01 1.34"
proof -
  have "\<lfloor>(1.34 - 0.1) / 0.01 + 0.5 :: real\<rfloor> = 124" by (simp add: floor_eq_iff)
  then show ?thesis by (simp add: ctor_fields snapToLegalValue_def Let_def)
qed

lemma rebuildRequested_panel:
  assumes "neighborRadius st = snapToLegalValue 0.1 8 0.01 r0"
    and "p = BoidsControlPanel_timerCallback panel"
  shows "rebuildRequested p st \<longleftrightarrow>
           (jlimit 1 100000 (p_particleCount p) \<noteq> currentParticleCount st \<or>
            neighborRadius (clampParams p st) \<noteq> neighborRadius st)"
proof -
  obtain k :: int where k: "p_neighborRadius p = 0.1 + 0.01 * real_of_int k"
    using radius_on_grid[of "neighborRadiusSlider panel"] by (auto simp: assms(2) panel_fields)
  obtain j :: int where j: "neighborRadius st = 0.1 + 0.01 * real_of_int j"
    using radius_on_grid[of r0] by (auto simp: assms(1))
  have c: "neighborRadius (clampParams p st) = p_neighborRadius p"
    unfolding assms(2) panel_radius_stored panel_fields by (rule refl)
  show ?thesis
    unfolding rebuildRequested_def neighborRadiusChanged_def c
    using grid_values_apart[OF k j] by simp
qed

lemma panel_speed_gap:
  "minSpeed (clampParams (BoidsControlPanel_timerCallback panel) st) + 0.001
     \<le> maxSpeed (clampParams (BoidsControlPanel_timerCallback panel) st)"
proof -
  have "snapToLegalValue 0 10 0.01 (minSpeedSlider panel) \<le> 10" by (rule snap_bounds) simp
  then have "p_minSpeed (BoidsControlPanel_timerCallback panel) \<le> 999.999"
    by (simp add: panel_fields)
  then show ?thesis by (rule clampParams_speed_gap)
qed

lemma normalisedSpeed_gap:
  assumes "minSpeed st < maxSpeed st"
  shows "normalisedSpeed st s = Some (jlimit 0 1 ((s - minSpeed st) / (maxSpeed st - minSpeed st)))"
  using assms by (simp add: normalisedSpeed_def Let_def)

lemma snap_examples:
  "snapToLegalValue 1 100000 1 60000 = 60000"
  "snapToLegalValue 0.1 8 0.01 1.343 = 1.34"
  "snapToLegalValue 0.1 8 0.01 2 = 2"
  "snapToLegalValue 0 10 0.01 10 = 10"
  "snapToLegalValue 0.1 20 0.01 0.1 = 0.1"
proof -
  have "\<lfloor>(60000 - 1) / 1 + 0.5 :: real\<rfloor> = 59999" by (simp add: floor_eq_iff)
  then show "snapToLegalValue 1 100000 1 60000 = 60000" by (simp add: snapToLegalValue_def Let_def)
  have "\<lfloor>(1.343 - 0.1) / 0.01 + 0.5 :: real\<rfloor> = 124" by (simp add: floor_eq_iff)
  then show "snapToLegalValue 0.1 8 0.01 1.343 = 1.34" by (simp add: snapToLegalValue_def Let_def)
  have "\<lfloor>(2 - 0.1) / 0.01 + 0.5 :: real\<rfloor> = 190" by (simp add: floor_eq_iff)
  then show "snapToLegalValue 0.1 8 0.01 2 = 2" by (simp add: snapToLegalValue_def Let_def)
  have "\<lfloor>(10 - 0) / 0.01 + 0.5 :: real\<rfloor> = 1000" by (simp add: floor_eq_iff)
  then show "snapToLegalValue 0 10 0.01 10 = 10" by (simp add: snapToLegalValue_def Let_def)
  have "\<lfloor>(0.1 - 0.1) / 0.01 + 0.5 :: real\<rfloor> = 0" by (simp add: floor_eq_iff)
  then show "snapToLegalValue 0.1 20 0.01 0.1 = 0.1" by (simp add: snapToLegalValue_def Let_def)
qed

lemma radius_kept:
  "neighborRadius (rebuildBuffersOnGLThread env k st) = neighborRadius st"
  "neighborRadius (dispatchComputePasses progs dt st) = neighborRadius st"
  "neighborRadius (render progs elapsed st) = neighborRadius st"
  "neighborRadius (reloadAllShadersOnGLThread compiled st) = neighborRadius st"
  "neighborRadius (initialise env capable compiled st) = neighborRadius st"
  "neighborRadius (shutdown st) = neighborRadius st"
proof -
  show r: "\<And>env k st. neighborRadius (rebuildBuffersOnGLThread env k st) = neighborRadius st"
    by (rule rebuild_params)
  show d: "\<And>progs dt st. neighborRadius (dispatchComputePasses progs dt st) = neighborRadius st"
    by (simp add: dispatchComputePasses_def Let_def split: prod.splits)
  show "neighborRadius (render progs elapsed st) = neighborRadius st"
    by (simp add: render_def Let_def d)
  show "neighborRadius (reloadAllShadersOnGLThread compiled st) = neighborRadius st"
    by (simp add: reloadAllShadersOnGLThread_def)
  show "neighborRadius (initialise env capable compiled st) = neighborRadius st"
    by (simp add: initialise_def Let_def r reloadAllShadersOnGLThread_def)
  show "neighborRadius (shutdown st) = neighborRadius st"
    by (simp add: shutdown_def deleteBuffers_def)
qed

subsection \<open>The speed range is never empty\<close>

lemma alpha_defined:
  assumes "minSpeed st < maxSpeed st" "i < length (particlesSSBO0 (rebuildBuffersOnGLThread env k st))"
  shows "color_a (particlesSSBO0 (rebuildBuffersOnGLThread env k st) ! i) \<noteq> None"
proof -
  let ?r = "rebuildBuffersOnGLThread env k st"
  have g: "minSpeed ?r < maxSpeed ?r" using assms(1) by (simp add: rebuild_params)
  have i: "i < nat (jlimit 1 100000 k)" using assms(2) by (simp add: rebuild_particles)
  have "particlesSSBO0 ?r ! i = initParticle ?r (canonical env) i"
    using i by (simp add: rebuild_particles)
  then show ?thesis
    by (simp add: initParticle_def Let_def normalisedSpeed_gap[OF g])
qed

text \<open>
  C10. After the constructor, and after every parameter update that the control
  panel delivers, the stored \<open>maxSpeed\<close> is at least \<open>0.001\<close> above the stored
  \<open>minSpeed\<close>, so the denominator \<open>maxSpeed - minSpeed\<close> is positive; and the
  alpha of every particle that a reallocation generates from such a state, also the
  reallocation inside the update, is a number and not the NaN of \<open>0/0\<close>.
\<close>

theorem maxSpeed_above_minSpeed:
  "minSpeed MainComponent_ctor + 0.001 \<le> maxSpeed MainComponent_ctor \<and>
   minSpeed (onParamsChanged env (BoidsControlPanel_timerCallback panel) st) + 0.001
     \<le> maxSpeed (onParamsChanged env (BoidsControlPanel_timerCallback panel) st) \<and>
   0 < maxSpeed MainComponent_ctor - minSpeed MainComponent_ctor \<and>
   0 < maxSpeed (onParamsChanged env (BoidsControlPanel_timerCallback panel) st)
        - minSpeed (onParamsChanged env (BoidsControlPanel_timerCallback panel) st) \<and>
   (\<forall>i < length (particlesSSBO0 (rebuildBuffersOnGLThread env' k MainComponent_ctor)).
      color_a (particlesSSBO0 (rebuildBuffersOnGLThread env' k MainComponent_ctor) ! i) \<noteq> None) \<and>
   (\<forall>i < length (particlesSSBO0 (rebuildBuffersOnGLThread env' k
                    (onParamsChanged env (BoidsControlPanel_timerCallback panel) st))).
      color_a (particlesSSBO0 (rebuildBuffersOnGLThread env' k
                 (onParamsChanged env (BoidsControlPanel_timerCallback panel) st)) ! i) \<noteq> None) \<and>
   (rebuildRequested (BoidsControlPanel_timerCallback panel) st \<longrightarrow>
      (\<forall>i < length (particlesSSBO0 (onParamsChanged env (BoidsControlPanel_timerCallback panel) st)).
         color_a (particlesSSBO0 (onParamsChanged env (BoidsControlPanel_timerCallback panel) st) ! i) \<noteq> None))"
proof -
  let ?p = "BoidsControlPanel_timerCallback panel"
  let ?u = "onParamsChanged env ?p st"
  have c: "minSpeed MainComponent_ctor + 0.001 \<le> maxSpeed MainComponent_ctor"
    by (simp add: ctor_fields)
  have u: "minSpeed ?u + 0.001 \<le> maxSpeed ?u"
    unfolding onParamsChanged_params by (rule panel_speed_gap)
  have k: "minSpeed (clampParams ?p st) + 0.001 \<le> maxSpeed (clampParams ?p st)"
    by (rule panel_speed_gap)
  have step: "\<And>a b :: real. a + 0.001 \<le> b \<Longrightarrow> a < b" by simp
  have cl: "minSpeed MainComponent_ctor < maxSpeed MainComponent_ctor" by (rule step[OF c])
  have ul: "minSpeed ?u < maxSpeed ?u" by (rule step[OF u])
  have kl: "minSpeed (clampParams ?p st) < maxSpeed (clampParams ?p st)" by (rule step[OF k])
  have r: "rebuildRequested ?p st \<longrightarrow>
      (\<forall>i < length (particlesSSBO0 ?u). color_a (particlesSSBO0 ?u ! i) \<noteq> None)"
    using alpha_defined[OF kl] by (simp add: onParamsChanged_cases)
  from c u cl ul r alpha_defined[OF cl] alpha_defined[OF ul] show ?thesis by simp
qed

theorem maxSpeed_above_minSpeed_witness:
  "minSpeed (onParamsChanged exampleEnv
      (BoidsControlPanel_timerCallback (examplePanel\<lparr> minSpeedSlider := 10, maxSpeedSlider := 0.1 \<rparr>))
      MainComponent_ctor) = 10 \<and>
   maxSpeed (onParamsChanged exampleEnv
      (BoidsControlPanel_timerCallback (examplePanel\<lparr> minSpeedSlider := 10, maxSpeedSlider := 0.1 \<rparr>))
      MainComponent_ctor) = 10.001 \<and>
   color_a (particlesSSBO0 (rebuildBuffersOnGLThread exampleEnv 2 (onParamsChanged exampleEnv
      (BoidsControlPanel_timerCallback (examplePanel\<lparr> minSpeedSlider := 10, maxSpeedSlider := 0.1 \<rparr>))
      MainComponent_ctor)) ! 0) \<noteq> None"
proof -
  let ?panel = "examplePanel\<lparr> minSpeedSlider := 10, maxSpeedSlider := 0.1 \<rparr>"
  let ?u = "onParamsChanged exampleEnv (BoidsControlPanel_timerCallback ?panel) MainComponent_ctor"
  note main = maxSpeed_above_minSpeed[of exampleEnv ?panel MainComponent_ctor exampleEnv 2]
  have sl: "minSpeedSlider ?panel = 10" "maxSpeedSlider ?panel = 0.1" by simp_all
  have f: "p_minSpeed (BoidsControlPanel_timerCallback ?panel) = 10"
    "p_maxSpeed (BoidsControlPanel_timerCallback ?panel) = 0.1"
    unfolding panel_fields sl snap_examples by simp_all
  have mn: "minSpeed ?u = 10"
    unfolding onParamsChanged_params clampParams_speeds f by (simp add: jlimit_def)
  have mx: "maxSpeed ?u = 10.001"
    unfolding onParamsChanged_params clampParams_speeds f by (simp add: jlimit_def jmax_def)
  have l: "0 < length (particlesSSBO0 (rebuildBuffersOnGLThread exampleEnv 2 ?u))"
    by (simp add: rebuild_particles jlimit_def)
  from main l have "color_a (particlesSSBO0 (rebuildBuffersOnGLThread exampleEnv 2 ?u) ! 0) \<noteq> None"
    by blast
  with mn mx show ?thesis by blast
qed

subsection \<open>When a parameter update reallocates\<close>

text \<open>
  C7. A parameter update that the control panel delivers, applied to a state whose
  stored neighbor radius is a value of the radius slider, reallocates exactly when
  the clamped particle count differs from the current count or the clamped neighbor
  radius differs from the stored one. When it does, the reallocation runs inside
  the update, with the grid sized from the new radius; when it does not, cell size,
  grid dimensions, cell count and particles are those of before. The radius stored
  by the update is again a value of the radius slider, and so is the one the
  constructor stores.
\<close>

theorem rebuild_iff_count_or_radius_changed:
  assumes stored: "neighborRadius st = snapToLegalValue 0.1 8 0.01 r0"
    and p: "p = BoidsControlPanel_timerCallback panel"
  shows "(rebuildRequested p st \<longleftrightarrow>
           (jlimit 1 100000 (p_particleCount p) \<noteq> currentParticleCount st \<or>
            neighborRadius (clampParams p st) \<noteq> neighborRadius st)) \<and>
         (rebuildRequested p st \<longrightarrow>
            onParamsChanged env p st =
              rebuildBuffersOnGLThread env (jlimit 1 100000 (p_particleCount p)) (clampParams p st) \<and>
            cellSize (onParamsChanged env p st) = jmax 0.5 (neighborRadius (onParamsChanged env p st))) \<and>
         (\<not> rebuildRequested p st \<longrightarrow>
            onParamsChanged env p st = clampParams p st \<and>
            cellSize (onParamsChanged env p st) = cellSize st \<and>
            gridDims (onParamsChanged env p st) = gridDims st \<and>
            cellCount (onParamsChanged env p st) = cellCount st \<and>
            particlesSSBO0 (onParamsChanged env p st) = particlesSSBO0 st) \<and>
         neighborRadius (onParamsChanged env p st) =
           snapToLegalValue 0.1 8 0.01 (neighborRadiusSlider panel) \<and>
         neighborRadius MainComponent_ctor = snapToLegalValue 0.1 8 0.01 1.34"
proof -
  have cs: "\<And>s. cellSize (sizeGrid s) = jmax 0.5 (neighborRadius s)"
    by (simp add: sizeGrid_eq computeGridFromCellSize_def Let_def)
  have rb: "\<And>k s. cellSize (rebuildBuffersOnGLThread env k s) = jmax 0.5 (neighborRadius (rebuildBuffersOnGLThread env k s))"
    by (simp add: rebuild_grid cs rebuild_params)
  have nr: "neighborRadius (onParamsChanged env p st) =
           snapToLegalValue 0.1 8 0.01 (neighborRadiusSlider panel)"
    unfolding onParamsChanged_params p by (rule panel_radius_stored)
  from rb nr ctor_radius_on_slider show ?thesis
    using rebuildRequested_panel[OF stored p]
    by (auto simp: onParamsChanged_cases clampParams_grid)
qed

theorem rebuild_iff_count_or_radius_changed_witness:
  "p_neighborRadius (BoidsControlPanel_timerCallback (examplePanel\<lparr> neighborRadiusSlider := 1.343 \<rparr>)) = 1.34 \<and>
   \<not> rebuildRequested (BoidsControlPanel_timerCallback (examplePanel\<lparr> neighborRadiusSlider := 1.343 \<rparr>)) MainComponent_ctor \<and>
   onParamsChanged exampleEnv (BoidsControlPanel_timerCallback (examplePanel\<lparr> neighborRadiusSlider := 1.343 \<rparr>)) MainComponent_ctor =
     clampParams (BoidsControlPanel_timerCallback (examplePanel\<lparr> neighborRadiusSlider := 1.343 \<rparr>)) MainComponent_ctor \<and>
   rebuildRequested (BoidsControlPanel_timerCallback (examplePanel\<lparr> neighborRadiusSlider := 2 \<rparr>)) MainComponent_ctor \<and>
   cellSize (onParamsChanged exampleEnv (BoidsControlPanel_timerCallback (examplePanel\<lparr> neighborRadiusSlider := 2 \<rparr>)) MainComponent_ctor) = 2"
proof -
  let ?pa = "BoidsControlPanel_timerCallback (examplePanel\<lparr> neighborRadiusSlider := 1.343 \<rparr>)"
  let ?pb = "BoidsControlPanel_timerCallback (examplePanel\<lparr> neighborRadiusSlider := 2 \<rparr>)"
  note a = rebuild_iff_count_or_radius_changed[OF ctor_radius_on_slider refl, of "examplePanel\<lparr> neighborRadiusSlider := 1.343 \<rparr>" exampleEnv]
  note b = rebuild_iff_count_or_radius_changed[OF ctor_radius_on_slider refl, of "examplePanel\<lparr> neighborRadiusSlider := 2 \<rparr>" exampleEnv]
  have sa: "neighborRadiusSlider (examplePanel\<lparr> neighborRadiusSlider := 1.343 \<rparr>) = 1.343"
    "particleCountSlider (examplePanel\<lparr> neighborRadiusSlider := 1.343 \<rparr>) = 60000"
    by (simp_all add: examplePanel_def)
  have sb: "neighborRadiusSlider (examplePanel\<lparr> neighborRadiusSlider := 2 \<rparr>) = 2"
    "particleCountSlider (examplePanel\<lparr> neighborRadiusSlider := 2 \<rparr>) = 60000"
    by (simp_all add: examplePanel_def)
  have fa: "p_neighborRadius ?pa = 1.34" "p_particleCount ?pa = 60000"
    unfolding panel_fields sa snap_examples by simp_all
  have fb: "p_neighborRadius ?pb = 2" "p_particleCount ?pb = 60000"
    unfolding panel_fields sb snap_examples by simp_all
  have ca: "jlimit 1 100000 (p_particleCount ?pa) = currentParticleCount MainComponent_ctor"
    unfolding fa by (simp add: ctor_fields jlimit_def)
  have na: "neighborRadius (clampParams ?pa MainComponent_ctor) = neighborRadius MainComponent_ctor"
    unfolding clampParams_radii fa by (simp add: ctor_fields jlimit_def)
  have nb: "neighborRadius (clampParams ?pb MainComponent_ctor) \<noteq> neighborRadius MainComponent_ctor"
    unfolding clampParams_radii fb by (simp add: ctor_fields jlimit_def)
  from a ca na have ra: "\<not> rebuildRequested ?pa MainComponent_ctor" by blast
  from b nb have rb: "rebuildRequested ?pb MainComponent_ctor" by blast
  from a ra have ea: "onParamsChanged exampleEnv ?pa MainComponent_ctor = clampParams ?pa MainComponent_ctor"
    by blast
  from b rb have "cellSize (onParamsChanged exampleEnv ?pb MainComponent_ctor) =
      jmax 0.5 (neighborRadius (onParamsChanged exampleEnv ?pb MainComponent_ctor))"
    by blast
  moreover have "neighborRadius (onParamsChanged exampleEnv ?pb MainComponent_ctor) = 2"
    unfolding onParamsChanged_params clampParams_radii fb by (simp add: jlimit_def)
  ultimately have eb: "cellSize (onParamsChanged exampleEnv ?pb MainComponent_ctor) = 2"
    by (simp add: jmax_def)
  from fa(1) ra ea rb eb show ?thesis by blast
qed

section \<open>Properties of the kernels\<close>

subsection \<open>The cell of a position\<close>

lemma glsl_clamp_range:
  fixes x :: int
  assumes "lo \<le> hi"
  shows "lo \<le> glsl_clamp x lo hi" and "glsl_clamp x lo hi \<le> hi"
  using assms by (simp_all add: glsl_clamp_def)

lemma flatten_range:
  fixes x y z dx dy dz :: int
  assumes "0 \<le> x" "x \<le> dx - 1" "0 \<le> y" "y \<le> dy - 1" "0 \<le> z" "z \<le> dz - 1"
  shows "0 \<le> x + dx * (y + dy * z)" and "x + dx * (y + dy * z) < dx * dy * dz"
proof -
  have dx: "0 \<le> dx" and dy: "0 \<le> dy" using assms by linarith+
  have "0 \<le> dy * z" using dy assms by simp
  then have yz: "0 \<le> y + dy * z" using assms by linarith
  then have "0 \<le> dx * (y + dy * z)" using dx by simp
  then show "0 \<le> x + dx * (y + dy * z)" using assms by linarith
  have "dy * z \<le> dy * (dz - 1)" using dy assms by (intro mult_left_mono) simp_all
  then have "y + dy * z \<le> dy * dz - 1" using assms by (simp add: algebra_simps)
  then have "dx * (y + dy * z) \<le> dx * (dy * dz - 1)" using dx by (intro mult_left_mono) simp_all
  then show "x + dx * (y + dy * z) < dx * dy * dz" using assms by (simp add: algebra_simps)
qed

lemma cellIndex_range:
  assumes "u_gridDims u = (dx, dy, dz)" "1 \<le> dx" "1 \<le> dy" "1 \<le> dz"
  shows "0 \<le> cellIndex u p" and "cellIndex u p < dx * dy * dz"
proof -
  let ?x = "glsl_clamp \<lfloor>(vx p - vx (u_worldMin u)) / u_cellSize u\<rfloor> 0 (dx - 1)"
  let ?y = "glsl_clamp \<lfloor>(vy p - vy (u_worldMin u)) / u_cellSize u\<rfloor> 0 (dy - 1)"
  let ?z = "glsl_clamp \<lfloor>(vz p - vz (u_worldMin u)) / u_cellSize u\<rfloor> 0 (dz - 1)"
  have ci: "cellIndex u p = ?x + dx * (?y + dy * ?z)"
    by (simp add: cellIndex_def flattenCell_def cellCoords_def assms(1))
  have r: "0 \<le> ?x" "?x \<le> dx - 1" "0 \<le> ?y" "?y \<le> dy - 1" "0 \<le> ?z" "?z \<le> dz - 1"
    using assms by (auto simp: glsl_clamp_def)
  show "0 \<le> cellIndex u p" unfolding ci using r by (rule flatten_range)
  show "cellIndex u p < dx * dy * dz" unfolding ci using r by (rule flatten_range)
qed

subsection \<open>The build pass keeps its invariant\<close>

lemma chain_cong:
  "(\<And>a. a \<in> set js \<Longrightarrow> f a = g a) \<Longrightarrow> chain f h js = chain g h js"
  by (induction js arbitrary: h) auto

lemma buildEvent_exchange_inv:
  assumes inv: "buildInv u ps n C s"
    and cells: "\<And>a. a < n \<Longrightarrow> 0 \<le> cellIndex u (pos (ps ! a)) \<and> nat (cellIndex u (pos (ps ! a))) < C"
    and len: "n \<le> length ps"
    and i: "i < n" "bs_inv s ! i = Ready"
  shows "\<exists>s'. buildEvent u ps (Exchange i) s = Inr s' \<and> buildInv u ps n C s'"
proof -
  let ?c0 = "nat (cellIndex u (pos (ps ! i)))"
  let ?s' = "s\<lparr> bs_heads := (bs_heads s)[?c0 := int i],
                  bs_inv := (bs_inv s)[i := Exchanged (bs_heads s ! ?c0)] \<rparr>"
  from inv have L: "length (bs_inv s) = n" "length (bs_next s) = n" "length (bs_heads s) = C"
    by (simp_all add: buildInv_def)
  have c0: "0 \<le> cellIndex u (pos (ps ! i))" "?c0 < C" using cells[OF i(1)] by simp_all
  have ev: "buildEvent u ps (Exchange i) s = Inr ?s'"
    using i len L c0 by (simp add: Let_def)
  have pn: "\<And>a. a < n \<Longrightarrow> a \<noteq> i \<Longrightarrow> pendingNext ?s' a = pendingNext s a"
    by (simp add: pendingNext_def L split: Invocation.splits)
  have pi: "pendingNext ?s' i = bs_heads s ! ?c0"
    using i by (simp add: pendingNext_def L)
  have "\<exists>js. chain (pendingNext ?s') (bs_heads ?s' ! c) js \<and> distinct js \<and>
         set js = {a. a < n \<and> bs_inv ?s' ! a \<noteq> Ready \<and> cellIndex u (pos (ps ! a)) = int c}"
    if c: "c < C" for c
  proof -
    from inv c obtain js where js: "chain (pendingNext s) (bs_heads s ! c) js" "distinct js"
      "set js = {a. a < n \<and> bs_inv s ! a \<noteq> Ready \<and> cellIndex u (pos (ps ! a)) = int c}"
      unfolding buildInv_def by blast
    have notin: "i \<notin> set js" using js(3) i by simp
    have same: "chain (pendingNext ?s') h js = chain (pendingNext s) h js" for h
      by (rule chain_cong) (use js(3) notin pn in auto)
    have ready: "bs_inv ?s' ! a \<noteq> Ready \<longleftrightarrow> a = i \<or> bs_inv s ! a \<noteq> Ready" if "a < n" for a
      using that i L by (cases "a = i") simp_all
    show ?thesis
    proof (cases "c = ?c0")
      case True
      have h: "bs_heads ?s' ! c = int i" using True c0 L by simp
      have "chain (pendingNext ?s') (pendingNext ?s' i) js"
        unfolding pi same using js(1) True by simp
      then have "chain (pendingNext ?s') (bs_heads ?s' ! c) (i # js)"
        unfolding h by simp
      moreover have "distinct (i # js)" using js(2) notin by simp
      moreover have "set (i # js) = {a. a < n \<and> bs_inv ?s' ! a \<noteq> Ready \<and> cellIndex u (pos (ps ! a)) = int c}"
        using js(3) ready i True c0 by auto
      ultimately show ?thesis by blast
    next
      case False
      have h: "bs_heads ?s' ! c = bs_heads s ! c" using False by simp
      have ic: "cellIndex u (pos (ps ! i)) \<noteq> int c" using False c0 by auto
      have "chain (pendingNext ?s') (bs_heads ?s' ! c) js"
        unfolding h same by (rule js(1))
      moreover have "set js = {a. a < n \<and> bs_inv ?s' ! a \<noteq> Ready \<and> cellIndex u (pos (ps ! a)) = int c}"
        using js(3) ready ic by auto
      ultimately show ?thesis using js(2) by blast
    qed
  qed
  then have "buildInv u ps n C ?s'" using L by (simp add: buildInv_def)
  with ev show ?thesis by blast
qed

lemma buildEvent_store_inv:
  assumes inv: "buildInv u ps n C s"
    and i: "i < n" "bs_inv s ! i = Exchanged prev"
  shows "\<exists>s'. buildEvent u ps (Store i) s = Inr s' \<and> buildInv u ps n C s'"
proof -
  let ?s' = "s\<lparr> bs_next := (bs_next s)[i := prev], bs_inv := (bs_inv s)[i := Finished] \<rparr>"
  from inv have L: "length (bs_inv s) = n" "length (bs_next s) = n" "length (bs_heads s) = C"
    by (simp_all add: buildInv_def)
  have ev: "buildEvent u ps (Store i) s = Inr ?s'" using i L by simp
  have pn: "pendingNext ?s' a = pendingNext s a" if "a < n" for a
    using that i L by (cases "a = i") (simp_all add: pendingNext_def split: Invocation.splits)
  have ready: "bs_inv ?s' ! a \<noteq> Ready \<longleftrightarrow> bs_inv s ! a \<noteq> Ready" if "a < n" for a
    using that i L by (cases "a = i") simp_all
  have "\<exists>js. chain (pendingNext ?s') (bs_heads ?s' ! c) js \<and> distinct js \<and>
         set js = {a. a < n \<and> bs_inv ?s' ! a \<noteq> Ready \<and> cellIndex u (pos (ps ! a)) = int c}"
    if c: "c < C" for c
  proof -
    from inv c obtain js where js: "chain (pendingNext s) (bs_heads s ! c) js" "distinct js"
      "set js = {a. a < n \<and> bs_inv s ! a \<noteq> Ready \<and> cellIndex u (pos (ps ! a)) = int c}"
      unfolding buildInv_def by blast
    have same: "chain (pendingNext ?s') h js = chain (pendingNext s) h js" for h
      by (rule chain_cong) (use js(3) pn in auto)
    have "chain (pendingNext ?s') (bs_heads ?s' ! c) js" using js(1) by (simp add: same)
    moreover have "set js = {a. a < n \<and> bs_inv ?s' ! a \<noteq> Ready \<and> cellIndex u (pos (ps ! a)) = int c}"
      using js(3) ready by auto
    ultimately show ?thesis using js(2) by blast
  qed
  then have "buildInv u ps n C ?s'" using L by (simp add: buildInv_def)
  with ev show ?thesis by blast
qed

lemma buildEvent_inv:
  assumes inv: "buildInv u ps n C s"
    and cells: "\<And>a. a < n \<Longrightarrow> 0 \<le> cellIndex u (pos (ps ! a)) \<and> nat (cellIndex u (pos (ps ! a))) < C"
    and len: "n \<le> length ps"
  shows "buildEvent u ps e s = Inl NotAnExecution \<or>
         (\<exists>s'. buildEvent u ps e s = Inr s' \<and> buildInv u ps n C s')"
proof -
  from inv have L: "length (bs_inv s) = n" "length (bs_next s) = n" "length (bs_heads s) = C"
    by (simp_all add: buildInv_def)
  show ?thesis
  proof (cases e)
    case (Exchange i)
    show ?thesis
    proof (cases "i < n \<and> bs_inv s ! i = Ready")
      case True
      then show ?thesis using buildEvent_exchange_inv[OF inv cells len, of i] Exchange by simp
    next
      case False
      then show ?thesis using Exchange L by auto
    qed
  next
    case (Store i)
    show ?thesis
    proof (cases "i < n")
      case True
      show ?thesis
      proof (cases "bs_inv s ! i")
        case (Exchanged prev)
        then show ?thesis using buildEvent_store_inv[OF inv True, of prev] Store by simp
      qed (use Store True L in simp_all)
    next
      case False
      then show ?thesis using Store L by simp
    qed
  qed
qed

lemma runEvents_inv:
  assumes cells: "\<And>a. a < n \<Longrightarrow> 0 \<le> cellIndex u (pos (ps ! a)) \<and> nat (cellIndex u (pos (ps ! a))) < C"
    and len: "n \<le> length ps"
  shows "buildInv u ps n C s \<Longrightarrow>
         runEvents u ps es s = Inl NotAnExecution \<or>
         (\<exists>s'. runEvents u ps es s = Inr s' \<and> buildInv u ps n C s')"
proof (induction es arbitrary: s)
  case Nil
  then show ?case by simp
next
  case (Cons e es)
  from buildEvent_inv[OF Cons.prems cells len, of e]
  show ?case
  proof
    assume "buildEvent u ps e s = Inl NotAnExecution"
    then show ?thesis by simp
  next
    assume "\<exists>s'. buildEvent u ps e s = Inr s' \<and> buildInv u ps n C s'"
    then obtain s1 where s1: "buildEvent u ps e s = Inr s1" "buildInv u ps n C s1" by blast
    from Cons.IH[OF s1(2)] s1(1) show ?thesis by simp
  qed
qed

lemma buildInv_start:
  assumes "length ns = nat (u_particleCount u)"
  shows "buildInv u ps (nat (u_particleCount u)) C (buildStart u (replicate C (-1)) ns)"
  using assms by (auto simp: buildInv_def buildStart_def intro!: exI[of _ "[]"])

lemma boids_clear_all:
  "length hs = C \<Longrightarrow> boids_clear (int C) hs = replicate C (-1)"
proof -
  assume "length hs = C"
  then have "boids_clear (int C) hs = map (\<lambda>c. -1) [0..<C]"
    by (simp add: boids_clear_def)
  then show ?thesis by (simp add: map_replicate_const)
qed

subsection \<open>The lists of a finished build\<close>

lemma chain_walk:
  "chain f h js \<Longrightarrow> (\<And>a. a \<in> set js \<Longrightarrow> a < length ns \<and> f a = ns ! a) \<Longrightarrow>
   length js \<le> fuel \<Longrightarrow> walk fuel ns h = Some js"
proof (induction js arbitrary: h fuel)
  case Nil
  then show ?case by (cases fuel) simp_all
next
  case (Cons j js)
  from Cons.prems(3) obtain m where m: "fuel = Suc m" "length js \<le> m"
    by (cases fuel) simp_all
  from Cons.prems(1) have h: "h = int j" and rest: "chain f (f j) js" by simp_all
  from Cons.prems(2)[of j] have j: "j < length ns" "f j = ns ! j" by simp_all
  have "walk m ns (ns ! j) = Some js"
    using Cons.IH[OF rest[unfolded j(2)] _ m(2)] Cons.prems(2) by simp
  then show ?case using h j m by simp
qed

lemma distinct_below_length:
  assumes "distinct js" "set js \<subseteq> {i. i < n}"
  shows "length js \<le> n"
proof -
  have "length js = card (set js)" using assms(1) by (simp add: distinct_card)
  also have "\<dots> \<le> card {i. i < n}" using assms(2) by (intro card_mono) simp_all
  finally show ?thesis by simp
qed

lemma finished_lists:
  assumes inv: "buildInv u ps n C s"
    and fin: "list_all (\<lambda>v. v = Finished) (bs_inv s)"
    and c: "c < C"
  shows "\<exists>js. cellList (bs_heads s) (bs_next s) c = Some js \<and> distinct js \<and>
           set js = {i. i < n \<and> cellIndex u (pos (ps ! i)) = int c}"
proof -
  from inv have L: "length (bs_inv s) = n" "length (bs_next s) = n" "length (bs_heads s) = C"
    by (simp_all add: buildInv_def)
  have F: "bs_inv s ! a = Finished" if "a < n" for a
    using fin that L by (simp add: list_all_length)
  from inv c obtain js where js: "chain (pendingNext s) (bs_heads s ! c) js" "distinct js"
      "set js = {a. a < n \<and> bs_inv s ! a \<noteq> Ready \<and> cellIndex u (pos (ps ! a)) = int c}"
    unfolding buildInv_def by blast
  have set: "set js = {i. i < n \<and> cellIndex u (pos (ps ! i)) = int c}"
    using js(3) F by auto
  have len: "length js \<le> length (bs_next s)"
    unfolding L using js(2) by (rule distinct_below_length) (use set in auto)
  have "walk (length (bs_next s)) (bs_next s) (bs_heads s ! c) = Some js"
    using js(1) _ len
  proof (rule chain_walk)
    fix a assume "a \<in> set js"
    then have "a < n" using set by simp
    then show "a < length (bs_next s) \<and> pendingNext s a = bs_next s ! a"
      using F[of a] L by (simp add: pendingNext_def)
  qed
  then show ?thesis using js(2) set by (auto simp: cellList_def)
qed

lemma sum_cells:
  fixes f :: "nat \<Rightarrow> nat" and C n :: nat
  assumes "\<And>i. i < n \<Longrightarrow> \<exists>c<C. f i = c"
  shows "(\<Sum>c = 0..<C. card {i. i < n \<and> f i = c}) = n"
proof -
  have "(\<Sum>c \<in> {0..<C}. card {i. i < n \<and> f i = c}) = card (\<Union>c \<in> {0..<C}. {i. i < n \<and> f i = c})"
    by (rule card_UN_disjoint[symmetric]) auto
  also have "(\<Union>c \<in> {0..<C}. {i. i < n \<and> f i = c}) = {i. i < n}"
    using assms by auto
  finally show ?thesis by simp
qed

lemma finished_total:
  assumes inv: "buildInv u ps n C s"
    and fin: "list_all (\<lambda>v. v = Finished) (bs_inv s)"
    and cells: "\<And>a. a < n \<Longrightarrow> 0 \<le> cellIndex u (pos (ps ! a)) \<and> nat (cellIndex u (pos (ps ! a))) < C"
  shows "totalTraversed (bs_heads s) (bs_next s) = n"
proof -
  from inv have L: "length (bs_heads s) = C" by (simp add: buildInv_def)
  have each: "cellLength (bs_heads s) (bs_next s) c =
      card {i. i < n \<and> nat (cellIndex u (pos (ps ! i))) = c}" if "c < C" for c
  proof -
    from finished_lists[OF inv fin that] obtain js where
      js: "cellList (bs_heads s) (bs_next s) c = Some js" "distinct js"
        "set js = {i. i < n \<and> cellIndex u (pos (ps ! i)) = int c}" by blast
    have "{i. i < n \<and> cellIndex u (pos (ps ! i)) = int c} = {i. i < n \<and> nat (cellIndex u (pos (ps ! i))) = c}"
      using cells by auto
    then show ?thesis using js by (simp add: cellLength_def distinct_card[symmetric])
  qed
  have "totalTraversed (bs_heads s) (bs_next s) =
      (\<Sum>c = 0..<C. cellLength (bs_heads s) (bs_next s) c)"
    by (simp add: totalTraversed_def L interv_sum_list_conv_sum_set_nat)
  also have "\<dots> = (\<Sum>c = 0..<C. card {i. i < n \<and> nat (cellIndex u (pos (ps ! i))) = c})"
    by (rule sum.cong) (simp_all add: each)
  also have "\<dots> = n"
    by (rule sum_cells) (use cells in auto)
  finally show ?thesis .
qed

subsection \<open>The sequential execution\<close>

lemma Exchange_status:
  "buildEvent u ps (Exchange i) s = Inr s' \<Longrightarrow> \<exists>p. bs_inv s' = (bs_inv s)[i := Exchanged p]"
  by (auto simp: Let_def split: if_splits)

lemma Store_status:
  "buildEvent u ps (Store i) s = Inr s' \<Longrightarrow> bs_inv s' = (bs_inv s)[i := Finished]"
  by (auto split: if_splits Invocation.splits)

lemma runEvents_append:
  "runEvents u ps (es @ fs) s =
     (case runEvents u ps es s of Inl err \<Rightarrow> Inl err | Inr s' \<Rightarrow> runEvents u ps fs s')"
  by (induction es arbitrary: s) (simp_all split: sum.splits)

lemma sequentialSchedule_Suc:
  "sequentialSchedule (Suc k) = sequentialSchedule k @ [Exchange k, Store k]"
  by (simp add: sequentialSchedule_def)

lemma sequential_prefix:
  assumes cells: "\<And>a. a < n \<Longrightarrow> 0 \<le> cellIndex u (pos (ps ! a)) \<and> nat (cellIndex u (pos (ps ! a))) < C"
    and len: "n \<le> length ps"
    and start: "buildInv u ps n C s0" "\<And>a. a < n \<Longrightarrow> bs_inv s0 ! a = Ready"
  shows "k \<le> n \<Longrightarrow> \<exists>s. runEvents u ps (sequentialSchedule k) s0 = Inr s \<and> buildInv u ps n C s \<and>
           (\<forall>a<n. bs_inv s ! a = (if a < k then Finished else Ready))"
proof (induction k)
  case 0
  then show ?case using start by (simp add: sequentialSchedule_def)
next
  case (Suc k)
  then obtain s where s: "runEvents u ps (sequentialSchedule k) s0 = Inr s" "buildInv u ps n C s"
      "\<forall>a<n. bs_inv s ! a = (if a < k then Finished else Ready)" by auto
  have k: "k < n" using Suc.prems by simp
  from s(2) have L: "length (bs_inv s) = n" by (simp add: buildInv_def)
  have "bs_inv s ! k = Ready" using s(3) k by simp
  from buildEvent_exchange_inv[OF s(2) cells len k this] obtain s1 where
    s1: "buildEvent u ps (Exchange k) s = Inr s1" "buildInv u ps n C s1" by blast
  from Exchange_status[OF s1(1)] obtain p where p: "bs_inv s1 = (bs_inv s)[k := Exchanged p]" by blast
  then have "bs_inv s1 ! k = Exchanged p" using k L by simp
  from buildEvent_store_inv[OF s1(2) k this] obtain s2 where
    s2: "buildEvent u ps (Store k) s1 = Inr s2" "buildInv u ps n C s2" by blast
  have st: "bs_inv s2 = (bs_inv s)[k := Finished]"
    using Store_status[OF s2(1)] p by simp
  have "\<forall>a<n. bs_inv s2 ! a = (if a < Suc k then Finished else Ready)"
    using s(3) L by (auto simp: st nth_list_update less_Suc_eq)
  moreover have "runEvents u ps (sequentialSchedule (Suc k)) s0 = Inr s2"
    by (simp add: sequentialSchedule_Suc runEvents_append s(1) s1(1) s2(1) del: buildEvent.simps)
  ultimately show ?case using s2(2) by blast
qed

text \<open>
  The build kernel on its own. Take a grid with at least one cell per axis, a heads
  buffer with one entry per cell, cleared by the clear pass, and particle and
  next-index buffers with one entry per particle. Then no interleaving of the
  insertions leaves a buffer, the sequential interleaving is an execution, and
  after every execution the walk from \<open>heads[c]\<close> via \<open>next\<close> visits, once
  each, exactly the particles whose cell is \<open>c\<close>.
\<close>

lemma build_execution_lists:
  assumes dims: "u_gridDims u = (dx, dy, dz)" "1 \<le> dx" "1 \<le> dy" "1 \<le> dz"
    and cells: "length hs0 = nat (dx * dy * dz)"
    and parts: "length ps = nat (u_particleCount u)" "length ns0 = nat (u_particleCount u)"
    and hs: "hs = boids_clear (dx * dy * dz) hs0"
  shows "boids_build sched u ps hs ns0 \<noteq> Inl OutOfBounds \<and>
         (\<exists>r. boids_build (sequentialSchedule (length ps)) u ps hs ns0 = Inr r) \<and>
         (\<forall>hs' ns'. boids_build sched u ps hs ns0 = Inr (hs', ns') \<longrightarrow>
            length hs' = length hs0 \<and> length ns' = length ps \<and>
            (\<forall>c < length hs'. \<exists>js. cellList hs' ns' c = Some js \<and> distinct js \<and>
                 set js = {i. i < length ps \<and> cellIndex u (pos (ps ! i)) = int c}) \<and>
            totalTraversed hs' ns' = length ps)"
proof -
  let ?n = "nat (u_particleCount u)" and ?C = "nat (dx * dy * dz)"
  have pos: "0 \<le> dx * dy * dz" using dims by simp
  have hs': "hs = replicate ?C (-1)"
    using boids_clear_all[OF cells] pos by (simp add: hs)
  have cr: "0 \<le> cellIndex u (pos (ps ! a)) \<and> nat (cellIndex u (pos (ps ! a))) < ?C" for a
    using cellIndex_range[OF dims, of "pos (ps ! a)"] by simp
  have len: "?n \<le> length ps" using parts by simp
  have start: "buildInv u ps ?n ?C (buildStart u hs ns0)"
    unfolding hs' using parts(2) by (rule buildInv_start)
  have ready: "\<And>a. a < ?n \<Longrightarrow> bs_inv (buildStart u hs ns0) ! a = Ready"
    by (simp add: buildStart_def)
  from runEvents_inv[OF cr len start, of sched]
  have run: "runEvents u ps sched (buildStart u hs ns0) = Inl NotAnExecution \<or>
         (\<exists>s'. runEvents u ps sched (buildStart u hs ns0) = Inr s' \<and> buildInv u ps ?n ?C s')"
    by simp
  then have a: "boids_build sched u ps hs ns0 \<noteq> Inl OutOfBounds"
    by (auto simp: boids_build_def split: if_splits)
  from sequential_prefix[OF cr len start ready, of ?n]
  obtain s where s: "runEvents u ps (sequentialSchedule ?n) (buildStart u hs ns0) = Inr s"
    "buildInv u ps ?n ?C s" "\<forall>a<?n. bs_inv s ! a = Finished" by auto
  from s(2) have "length (bs_inv s) = ?n" by (simp add: buildInv_def)
  with s(3) have "list_all (\<lambda>v. v = Finished) (bs_inv s)" by (simp add: list_all_length)
  with s(1) have b: "\<exists>r. boids_build (sequentialSchedule (length ps)) u ps hs ns0 = Inr r"
    by (simp add: boids_build_def parts)
  have c: "length hs' = length hs0 \<and> length ns' = length ps \<and>
            (\<forall>c < length hs'. \<exists>js. cellList hs' ns' c = Some js \<and> distinct js \<and>
                 set js = {i. i < length ps \<and> cellIndex u (pos (ps ! i)) = int c}) \<and>
            totalTraversed hs' ns' = length ps"
    if r: "boids_build sched u ps hs ns0 = Inr (hs', ns')" for hs' ns'
  proof -
    from r run obtain s' where s': "runEvents u ps sched (buildStart u hs ns0) = Inr s'"
      "buildInv u ps ?n ?C s'"
      by (auto simp: boids_build_def)
    from r s'(1) have fin: "list_all (\<lambda>v. v = Finished) (bs_inv s')"
      and eq: "hs' = bs_heads s'" "ns' = bs_next s'"
      by (auto simp: boids_build_def split: if_splits)
    from s'(2) have L: "length hs' = ?C" "length ns' = ?n" by (simp_all add: buildInv_def eq)
    have "\<exists>js. cellList hs' ns' c = Some js \<and> distinct js \<and>
                 set js = {i. i < length ps \<and> cellIndex u (pos (ps ! i)) = int c}"
      if "c < length hs'" for c
      using finished_lists[OF s'(2) fin, of c] that L by (simp add: eq parts)
    moreover have "totalTraversed hs' ns' = length ps"
      using finished_total[OF s'(2) fin cr] by (simp add: eq parts)
    ultimately show ?thesis using L cells parts by simp
  qed
  from a b c show ?thesis by blast
qed

lemma vcomponents [simp]: "vx (a, b, c) = a" "vy (a, b, c) = b" "vz (a, b, c) = c"
  by (simp_all add: vx_def vy_def vz_def)

subsection \<open>The step pass\<close>

lemma vlength_axis: "vlength (a, 0, 0) = \<bar>a\<bar>"
  by (simp add: vlength_def dot_def)

lemma stepParticle_fields:
  "pos (stepParticle K u self acc) = enforceBounds u (integratedPosition u self acc)"
  "vel (stepParticle K u self acc) = clampSpeed K u (integratedVelocity u self acc)"
  by (simp_all add: stepParticle_def Let_def split: prod.splits)

lemma boids_step_nth:
  assumes "i < length out" "int i < u_particleCount u" "i < length ps"
  shows "boids_step K u ps hs ns out ! i = stepParticle K u (ps ! i) (neighbourScan K u ps hs ns i)"
  using assms by (simp add: boids_step_def boids_step_invocation_def)

lemma enforceBounds_soft:
  assumes "u_wrapBounds u = 0"
    and "vx (u_worldMin u) \<le> vx (u_worldMax u)" "vy (u_worldMin u) \<le> vy (u_worldMax u)"
        "vz (u_worldMin u) \<le> vz (u_worldMax u)"
  shows "insideWorld u (enforceBounds u p)"
  using assms by (simp add: insideWorld_def enforceBounds_def glsl_clamp_def)



lemma wrapAxis_cases:
  assumes "lo \<le> hi"
  shows "(hi < x \<longrightarrow> wrapAxis lo hi x = lo + (x - hi)) \<and>
         (x < lo \<longrightarrow> wrapAxis lo hi x = hi - (lo - x)) \<and>
         (lo \<le> x \<and> x \<le> hi \<longrightarrow> wrapAxis lo hi x = x)"
  using assms by (auto simp: wrapAxis_def Let_def)

lemma enforceBounds_wrap:
  assumes "u_wrapBounds u \<noteq> 0"
  shows "vx (enforceBounds u p) = wrapAxis (vx (u_worldMin u)) (vx (u_worldMax u)) (vx p)"
    "vy (enforceBounds u p) = wrapAxis (vy (u_worldMin u)) (vy (u_worldMax u)) (vy p)"
    "vz (enforceBounds u p) = wrapAxis (vz (u_worldMin u)) (vz (u_worldMax u)) (vz p)"
  using assms by (simp_all add: enforceBounds_def)

section \<open>Properties of a tick\<close>

subsection \<open>The host's buffers and uniforms meet the kernels' preconditions\<close>

text \<open>
  What the kernels need holds for what the host passes: the world box is ordered,
  the mode flag is 0 exactly in soft mode, and after a reallocation the grid has at
  least one cell per axis and every buffer has the size the uniforms announce
  (\<open>buffersFit\<close>). Neither a parameter update nor a tick changes that. The
  stored speeds are ordered after every parameter update
  (\<open>clampParams_speeds_ordered\<close>).
\<close>

lemma uniformsOf_world:
  "vx (u_worldMin (uniformsOf st dt)) \<le> vx (u_worldMax (uniformsOf st dt))"
  "vy (u_worldMin (uniformsOf st dt)) \<le> vy (u_worldMax (uniformsOf st dt))"
  "vz (u_worldMin (uniformsOf st dt)) \<le> vz (u_worldMax (uniformsOf st dt))"
  by (simp_all add: uniformsOf_def worldMin_def worldMax_def)

lemma uniformsOf_mode:
  "u_wrapBounds (uniformsOf st dt) = 0 \<longleftrightarrow> \<not> wrapBounds st"
  by (simp add: uniformsOf_def)

lemma rebuilt_buffers_fit:
  assumes "st = rebuildBuffersOnGLThread env k st0" "u = uniformsOf st dt"
  shows "\<exists>dx dy dz. u_gridDims u = (dx, dy, dz) \<and> 1 \<le> dx \<and> 1 \<le> dy \<and> 1 \<le> dz \<and>
           cellCount st = dx * dy * dz \<and> length (cellHeadsSSBO st) = nat (dx * dy * dz)"
    and "length (particlesSSBO0 st) = nat (u_particleCount u)"
    and "length (particlesSSBO1 st) = nat (u_particleCount u)"
    and "length (nextIndexSSBO st) = nat (u_particleCount u)"
proof -
  let ?c = "jmax 0.5 (neighborRadius st0)"
  let ?d = "jmax 1 \<lceil>20 / ?c\<rceil>"
  have g: "gridDims st = (?d, ?d, ?d)" "cellCount st = ?d * ?d * ?d"
    by (simp_all add: assms(1) rebuild_grid sizeGrid_eq computeGridFromCellSize_def Let_def worldSize_eq)
  have h: "cellHeadsSSBO st = replicate (nat (cellCount st)) (-1)"
    by (simp add: assms(1) rebuild_unfold markReady_def allocateBuffers_def Let_def)
  have d: "1 \<le> ?d" by (rule jmax_ge)
  show "\<exists>dx dy dz. u_gridDims u = (dx, dy, dz) \<and> 1 \<le> dx \<and> 1 \<le> dy \<and> 1 \<le> dz \<and>
           cellCount st = dx * dy * dz \<and> length (cellHeadsSSBO st) = nat (dx * dy * dz)"
    using d g h by (intro exI[of _ ?d]) (simp add: assms(2) uniformsOf_def)
  have n: "u_particleCount u = jlimit 1 100000 k"
    by (simp add: assms uniformsOf_def rebuild_particles)
  show "length (particlesSSBO0 st) = nat (u_particleCount u)"
    by (simp add: n) (simp add: assms(1) rebuild_particles)
  show "length (particlesSSBO1 st) = nat (u_particleCount u)"
    by (simp add: n) (simp add: assms(1) rebuild_unfold markReady_def allocateBuffers_def Let_def
        sizeGrid_params setParticleCount_def)
  show "length (nextIndexSSBO st) = nat (u_particleCount u)"
    by (simp add: n) (simp add: assms(1) rebuild_unfold markReady_def allocateBuffers_def Let_def
        sizeGrid_params setParticleCount_def)
qed

lemma buildEvent_lengths:
  "buildEvent u ps e s = Inr s' \<Longrightarrow>
     length (bs_heads s') = length (bs_heads s) \<and> length (bs_next s') = length (bs_next s)"
  by (cases e) (auto simp: Let_def split: if_splits Invocation.splits)

lemma runEvents_lengths:
  "runEvents u ps es s = Inr s' \<Longrightarrow>
     length (bs_heads s') = length (bs_heads s) \<and> length (bs_next s') = length (bs_next s)"
proof (induction es arbitrary: s)
  case Nil
  then show ?case by simp
next
  case (Cons e es)
  then obtain s1 where s1: "buildEvent u ps e s = Inr s1" "runEvents u ps es s1 = Inr s'"
    by (auto split: sum.splits)
  from Cons.IH[OF s1(2)] buildEvent_lengths[OF s1(1)] show ?case by simp
qed

lemma boids_build_lengths:
  "boids_build sched u ps hs ns = Inr (hs', ns') \<Longrightarrow> length hs' = length hs \<and> length ns' = length ns"
  using runEvents_lengths[of u ps sched "buildStart u hs ns"]
  by (auto simp: boids_build_def buildStart_def split: sum.splits if_splits)

lemma length_boids_clear: "length (boids_clear n hs) = length hs"
  by (simp add: boids_clear_def)

lemma length_boids_step: "length (boids_step K u ps hs ns out) = length out"
  by (simp add: boids_step_def)

lemma buildProgram_lengths:
  "computeBuildProgram (boidsPrograms K sched) u ps hs ns = (hs', ns') \<Longrightarrow>
     length hs' = length hs \<and> length ns' = length ns"
  using boids_build_lengths[of sched u ps hs ns]
  by (auto simp: boidsPrograms_def split: sum.splits)

lemma dispatch_ready:
  assumes "buffersReady st"
    and "computeBuildProgram (boidsPrograms K sched) (uniformsOf st dt) (particlesSSBO0 st)
           (boids_clear (cellCount st) (cellHeadsSSBO st)) (nextIndexSSBO st) = (hs', ns')"
  shows "dispatchComputePasses (boidsPrograms K sched) dt st =
           st\<lparr> cellHeadsSSBO := hs', nextIndexSSBO := ns',
               particlesSSBO0 := boids_step K (uniformsOf st dt) (particlesSSBO0 st) hs' ns' (particlesSSBO1 st),
               particlesSSBO1 := particlesSSBO0 st \<rparr>"
proof -
  have c: "computeClearProgram (boidsPrograms K sched) = boids_clear"
    and s: "computeStepProgram (boidsPrograms K sched) = boids_step K"
    by (simp_all add: boidsPrograms_def)
  show ?thesis
    using assms by (simp add: dispatchComputePasses_def Let_def c s)
qed

lemma dispatch_buffersFit:
  assumes "buffersFit st"
  shows "buffersFit (dispatchComputePasses (boidsPrograms K sched) dt st)"
proof (cases "buffersReady st")
  case False
  then show ?thesis using assms by (simp add: dispatchComputePasses_def)
next
  case True
  obtain hs' ns' where b: "computeBuildProgram (boidsPrograms K sched) (uniformsOf st dt) (particlesSSBO0 st)
           (boids_clear (cellCount st) (cellHeadsSSBO st)) (nextIndexSSBO st) = (hs', ns')"
    by (cases "computeBuildProgram (boidsPrograms K sched) (uniformsOf st dt) (particlesSSBO0 st)
           (boids_clear (cellCount st) (cellHeadsSSBO st)) (nextIndexSSBO st)") auto
  from buildProgram_lengths[OF b] have "length hs' = length (cellHeadsSSBO st)" "length ns' = length (nextIndexSSBO st)"
    by (simp_all add: length_boids_clear)
  then show ?thesis
    using assms unfolding dispatch_ready[OF True b]
    by (simp add: buffersFit_def length_boids_step)
qed

lemma rebuild_buffersFit: "buffersFit (rebuildBuffersOnGLThread env k st)"
proof -
  let ?st = "rebuildBuffersOnGLThread env k st"
  from rebuilt_buffers_fit[OF refl refl, of env k st 0]
  obtain dx dy dz where d: "u_gridDims (uniformsOf ?st 0) = (dx, dy, dz)" "1 \<le> dx" "1 \<le> dy" "1 \<le> dz"
    "cellCount ?st = dx * dy * dz" "length (cellHeadsSSBO ?st) = nat (dx * dy * dz)"
    and l: "length (particlesSSBO0 ?st) = nat (u_particleCount (uniformsOf ?st 0))"
      "length (particlesSSBO1 ?st) = nat (u_particleCount (uniformsOf ?st 0))"
      "length (nextIndexSSBO ?st) = nat (u_particleCount (uniformsOf ?st 0))"
    by blast
  have g: "gridDims ?st = (dx, dy, dz)" using d(1) by (simp add: uniformsOf_def)
  have n: "u_particleCount (uniformsOf ?st 0) = currentParticleCount ?st" by (simp add: uniformsOf_def)
  show ?thesis
    unfolding buffersFit_def g using d l by (simp add: n)
qed

lemma clampParams_buffersFit: "buffersFit (clampParams p st) = buffersFit st"
  by (simp add: buffersFit_def clampParams_def Let_def)

lemma onParamsChanged_buffersFit:
  "buffersFit st \<Longrightarrow> buffersFit (onParamsChanged env p st)"
  by (simp add: onParamsChanged_def Let_def rebuild_buffersFit clampParams_buffersFit)

lemma buildProgram_execution:
  "boids_build sched u ps hs ns = Inr r \<Longrightarrow>
     computeBuildProgram (boidsPrograms K sched) u ps hs ns = r"
  by (simp add: boidsPrograms_def)

text \<open>
  What a tick writes for particle \<open>i\<close>: the position is the integrated
  position with the boundary mode applied, whatever the grid holds.
\<close>

lemma tick_soft_containment:
  assumes fit: "buffersFit st" and ready: "buffersReady st" and soft: "\<not> wrapBounds st"
    and i: "i < length (particlesSSBO0 (dispatchComputePasses (boidsPrograms K sched) dt st))"
  shows "insideWorld (uniformsOf st dt)
           (pos (particlesSSBO0 (dispatchComputePasses (boidsPrograms K sched) dt st) ! i))"
proof -
  obtain hs' ns' where b: "computeBuildProgram (boidsPrograms K sched) (uniformsOf st dt) (particlesSSBO0 st)
           (boids_clear (cellCount st) (cellHeadsSSBO st)) (nextIndexSSBO st) = (hs', ns')"
    by (cases "computeBuildProgram (boidsPrograms K sched) (uniformsOf st dt) (particlesSSBO0 st)
           (boids_clear (cellCount st) (cellHeadsSSBO st)) (nextIndexSSBO st)") auto
  let ?u = "uniformsOf st dt"
  have out: "particlesSSBO0 (dispatchComputePasses (boidsPrograms K sched) dt st) =
      boids_step K ?u (particlesSSBO0 st) hs' ns' (particlesSSBO1 st)"
    unfolding dispatch_ready[OF ready b] by simp
  have n: "u_particleCount ?u = currentParticleCount st" by (simp add: uniformsOf_def)
  have i1: "i < length (particlesSSBO1 st)" using i by (simp add: out length_boids_step)
  then have i0: "i < length (particlesSSBO0 st)" and ic: "int i < u_particleCount ?u"
    using fit by (simp_all add: buffersFit_def n)
  have m: "u_wrapBounds ?u = 0" using soft by (simp add: uniformsOf_mode)
  show ?thesis
    unfolding out boids_step_nth[OF i1 ic i0] stepParticle_fields
    using m uniformsOf_world by (rule enforceBounds_soft)
qed

lemma tick_wrap:
  assumes fit: "buffersFit st" and ready: "buffersReady st" and wrap: "wrapBounds st"
    and st': "st' = dispatchComputePasses (boidsPrograms K sched) dt st"
    and i: "i < length (particlesSSBO0 st')"
    and p: "p = integratedPosition (uniformsOf st dt) (particlesSSBO0 st ! i)
                  (neighbourScan K (uniformsOf st dt) (particlesSSBO0 st) (cellHeadsSSBO st') (nextIndexSSBO st') i)"
    and q: "q = pos (particlesSSBO0 st' ! i)"
  shows "vx q = wrapAxis (vx worldMin) (vx worldMax) (vx p) \<and>
         vy q = wrapAxis (vy worldMin) (vy worldMax) (vy p) \<and>
         vz q = wrapAxis (vz worldMin) (vz worldMax) (vz p)"
proof -
  obtain hs' ns' where b: "computeBuildProgram (boidsPrograms K sched) (uniformsOf st dt) (particlesSSBO0 st)
           (boids_clear (cellCount st) (cellHeadsSSBO st)) (nextIndexSSBO st) = (hs', ns')"
    by (cases "computeBuildProgram (boidsPrograms K sched) (uniformsOf st dt) (particlesSSBO0 st)
           (boids_clear (cellCount st) (cellHeadsSSBO st)) (nextIndexSSBO st)") auto
  let ?u = "uniformsOf st dt"
  have out: "particlesSSBO0 st' = boids_step K ?u (particlesSSBO0 st) hs' ns' (particlesSSBO1 st)"
    and g: "cellHeadsSSBO st' = hs'" "nextIndexSSBO st' = ns'"
    unfolding st' dispatch_ready[OF ready b] by simp_all
  have n: "u_particleCount ?u = currentParticleCount st" by (simp add: uniformsOf_def)
  have i1: "i < length (particlesSSBO1 st)" using i by (simp add: out length_boids_step)
  then have i0: "i < length (particlesSSBO0 st)" and ic: "int i < u_particleCount ?u"
    using fit by (simp_all add: buffersFit_def n)
  have m: "u_wrapBounds ?u \<noteq> 0" using wrap by (simp add: uniformsOf_def)
  have w: "u_worldMin ?u = worldMin" "u_worldMax ?u = worldMax" by (simp_all add: uniformsOf_def)
  have qeq: "q = enforceBounds ?u p"
    unfolding q p out g boids_step_nth[OF i1 ic i0] stepParticle_fields by simp
  show ?thesis
    unfolding qeq using enforceBounds_wrap[OF m, of p] by (simp add: w)
qed

subsection \<open>The worked example of a tick\<close>

lemma exampleState_params:
  "neighborRadius (exampleStateFor w) = 50" "separationRadius (exampleStateFor w) = 2.07"
  "minSpeed (exampleStateFor w) = 1" "maxSpeed (exampleStateFor w) = 10"
  by (simp_all add: exampleStateFor_def rebuild_params clampParams_radii clampParams_speeds
      Params_defaults_def jlimit_def jmax_def)

lemma exampleState_uniforms:
  "uniformsOf (exampleStateFor w) dt =
     \<lparr> u_particleCount = 2, u_gridDims = (1, 1, 1),
       u_worldMin = worldMin, u_worldMax = worldMax,
       u_cellSize = 50, u_dt = dt,
       u_neighborRadius = 50, u_separationRadius = 2.07,
       u_weightSeparation = 1.85, u_weightAlignment = 1.37, u_weightCohesion = 0.5,
       u_minSpeed = 1, u_maxSpeed = 10, u_maxAccel = 8,
       u_centerAttraction = 0.3, u_boundaryMargin = 5, u_boundaryStrength = 10,
       u_wrapBounds = (if w then 1 else 0),
       u_colorMode = 1, u_hueOffset = 0, u_hueRange = 0.7, u_saturation = 0.4, u_value = 1,
       u_densityCurve = 1 \<rparr>"
  by (simp add: uniformsOf_def exampleStateFor_def rebuild_unfold markReady_def allocateBuffers_def Let_def
      sizeGrid_eq computeGridFromCellSize_def setParticleCount_def deleteBuffers_def clampParams_def
      Params_defaults_def MainComponent_ctor_def MainComponent_members_def jlimit_def jmax_def
      worldSize_eq)

lemma exampleParticle_init:
  "initParticle (exampleStateFor w) (canonical exampleEnv) i = exampleParticle"
proof -
  have d: "initDir (canonical exampleEnv) i = (1, 0, 0)"
    by (simp add: initDir_def exampleEnv_def uniform_real_def vlength_axis normalised_def vdiv_def)
  have s: "initSpeed (exampleStateFor w) (canonical exampleEnv) i = 3"
    by (simp add: initSpeed_def exampleState_params exampleEnv_def uniform_real_def jmax_def)
  have p: "initPos (canonical exampleEnv) i = (0, 0, 0)"
    by (simp add: initPos_def exampleEnv_def uniform_real_def worldMin_def worldMax_def)
  show ?thesis
    by (simp add: initParticle_def Let_def d s p exampleParticle_def
        vscale_def headingChannel_def vlength_axis
        normalisedSpeed_def exampleState_params jlimit_def)
qed

lemma exampleState_buffers:
  "particlesSSBO0 (exampleStateFor w) = [exampleParticle, exampleParticle]"
  "particlesSSBO1 (exampleStateFor w) = [zeroParticle, zeroParticle]"
  "cellHeadsSSBO (exampleStateFor w) = [-1]"
  "nextIndexSSBO (exampleStateFor w) = [0, 0]"
  "cellCount (exampleStateFor w) = 1"
  "currentParticleCount (exampleStateFor w) = 2"
  "buffersReady (exampleStateFor w)"
  "wrapBounds (exampleStateFor w) = w"
proof -
  let ?c = "clampParams (Params_defaults\<lparr> p_neighborRadius := 50, p_wrapBounds := w \<rparr>) MainComponent_ctor"
  show "particlesSSBO0 (exampleStateFor w) = [exampleParticle, exampleParticle]"
    using rebuild_particles(1)[of exampleEnv 2 ?c]
    by (simp add: exampleStateFor_def[symmetric] exampleParticle_init jlimit_def eval_nat_numeral upt_rec)
  have u: "u_particleCount (uniformsOf (exampleStateFor w) 0) = 2"
    "u_gridDims (uniformsOf (exampleStateFor w) 0) = (1, 1, 1)"
    "u_wrapBounds (uniformsOf (exampleStateFor w) 0) = (if w then 1 else 0)"
    by (simp_all add: exampleState_uniforms)
  then have c: "currentParticleCount (exampleStateFor w) = 2" and wb: "wrapBounds (exampleStateFor w) = w"
    by (simp_all add: uniformsOf_def split: if_splits)
  show "wrapBounds (exampleStateFor w) = w" by (rule wb)
  show "currentParticleCount (exampleStateFor w) = 2" by (rule c)
  have cc: "cellCount (exampleStateFor w) = 1"
    using rebuild_buffersFit[of exampleEnv 2 ?c] u(2)
    by (simp add: exampleStateFor_def[symmetric] buffersFit_def uniformsOf_def)
  show "cellCount (exampleStateFor w) = 1" by (rule cc)
  have un: "exampleStateFor w =
      markReady (allocateBuffers exampleEnv (sizeGrid (setParticleCount 2 (deleteBuffers ?c))))"
    by (simp add: exampleStateFor_def rebuild_unfold)
  let ?g = "sizeGrid (setParticleCount 2 (deleteBuffers ?c))"
  have g: "cellCount ?g = 1" "currentParticleCount ?g = 2"
    using cc c by (simp_all add: un markReady_def allocateBuffers_def Let_def)
  show "particlesSSBO1 (exampleStateFor w) = [zeroParticle, zeroParticle]"
    by (simp add: un markReady_def allocateBuffers_def Let_def g exampleEnv_def eval_nat_numeral upt_rec)
  show "cellHeadsSSBO (exampleStateFor w) = [-1]"
    by (simp add: un markReady_def allocateBuffers_def Let_def g)
  show "nextIndexSSBO (exampleStateFor w) = [0, 0]"
    by (simp add: un markReady_def allocateBuffers_def Let_def g exampleEnv_def eval_nat_numeral upt_rec)
  show "buffersReady (exampleStateFor w)"
    by (simp add: un markReady_def)
qed

lemma exampleState_build:
  "boids_build interleavedSchedule (uniformsOf (exampleStateFor w) dt) (particlesSSBO0 (exampleStateFor w))
     (boids_clear (cellCount (exampleStateFor w)) (cellHeadsSSBO (exampleStateFor w)))
     (nextIndexSSBO (exampleStateFor w))
     = Inr ([0], [1, -1])"
  by (simp add: exampleState_buffers exampleState_uniforms boids_clear_def interleavedSchedule_def
      boids_build_def buildStart_def cellIndex_def cellCoords_def flattenCell_def glsl_clamp_def
      exampleParticle_def Let_def eval_nat_numeral upt_rec worldMin_def)

lemma exampleState_scan:
  "neighbourScan exampleConstants (uniformsOf (exampleStateFor w) dt) [exampleParticle, exampleParticle] [0] [1, -1] 0
     = \<lparr> acc_cohesion = (0, 0, 0), acc_alignment = (3, 0, 0), acc_neighbours = 1,
         acc_separation = (0, 0, 0), acc_separationCount = 1, acc_examined = 2 \<rparr>"
  by (simp add: neighbourScan_def neighbourCells_def exampleState_uniforms cellCoords_def flattenCell_def
      glsl_clamp_def exampleParticle_def kMaxNeighbours_def emptyAccum_def visit_def Let_def
      vsub_def vadd_def vdiv_def dot_def eval_nat_numeral worldMin_def)

lemma exampleState_integrated:
  "integratedVelocity (uniformsOf (exampleStateFor w) dt) exampleParticle
     (neighbourScan exampleConstants (uniformsOf (exampleStateFor w) dt) [exampleParticle, exampleParticle] [0] [1, -1] 0)
     = (3, 0, 0)"
  "integratedPosition (uniformsOf (exampleStateFor w) dt) exampleParticle
     (neighbourScan exampleConstants (uniformsOf (exampleStateFor w) dt) [exampleParticle, exampleParticle] [0] [1, -1] 0)
     = (3 * dt, 0, 0)"
  unfolding exampleState_scan
  by (simp_all add: integratedPosition_def integratedVelocity_def clampAcceleration_def acceleration_def
      Let_def exampleState_uniforms exampleParticle_def steerSeparation_def steerAlignment_def
      steerCohesion_def vadd_def vscale_def vsub_def vdiv_def boundaryAvoidance_def axisAvoidance_def
      vlength_axis normalised_def worldMin_def worldMax_def)

lemma exampleTick:
  assumes "st' = dispatchComputePasses (boidsPrograms exampleConstants interleavedSchedule) dt (exampleStateFor w)"
  shows "cellHeadsSSBO st' = [0]" "nextIndexSSBO st' = [1, -1]"
    "particlesSSBO0 (exampleStateFor w) ! 0 = exampleParticle"
    "length (particlesSSBO0 st') = 2"
proof -
  have b: "computeBuildProgram (boidsPrograms exampleConstants interleavedSchedule)
      (uniformsOf (exampleStateFor w) dt) (particlesSSBO0 (exampleStateFor w))
     (boids_clear (cellCount (exampleStateFor w)) (cellHeadsSSBO (exampleStateFor w)))
     (nextIndexSSBO (exampleStateFor w)) = ([0], [1, -1])"
    by (rule buildProgram_execution[OF exampleState_build])
  show "cellHeadsSSBO st' = [0]" "nextIndexSSBO st' = [1, -1]" "length (particlesSSBO0 st') = 2"
    unfolding assms dispatch_ready[OF exampleState_buffers(7) b]
    by (simp_all add: length_boids_step exampleState_buffers)
  show "particlesSSBO0 (exampleStateFor w) ! 0 = exampleParticle"
    by (simp add: exampleState_buffers)
qed

lemma exampleState_fit: "buffersFit (exampleStateFor w)"
  unfolding exampleStateFor_def by (rule rebuild_buffersFit)

lemma exampleTick_particle:
  assumes "st' = dispatchComputePasses (boidsPrograms exampleConstants interleavedSchedule) dt (exampleStateFor w)"
  shows "pos (particlesSSBO0 st' ! 0) = enforceBounds (uniformsOf (exampleStateFor w) dt) (3 * dt, 0, 0)"
    "vel (particlesSSBO0 st' ! 0) = clampSpeed exampleConstants (uniformsOf (exampleStateFor w) dt) (3, 0, 0)"
proof -
  let ?u = "uniformsOf (exampleStateFor w) dt"
  have b: "computeBuildProgram (boidsPrograms exampleConstants interleavedSchedule)
      ?u (particlesSSBO0 (exampleStateFor w))
     (boids_clear (cellCount (exampleStateFor w)) (cellHeadsSSBO (exampleStateFor w)))
     (nextIndexSSBO (exampleStateFor w)) = ([0], [1, -1])"
    by (rule buildProgram_execution[OF exampleState_build])
  have out: "particlesSSBO0 st' = boids_step exampleConstants ?u [exampleParticle, exampleParticle] [0] [1, -1]
      [zeroParticle, zeroParticle]"
    unfolding assms dispatch_ready[OF exampleState_buffers(7) b] by (simp add: exampleState_buffers)
  have n: "int 0 < u_particleCount ?u" by (simp add: exampleState_uniforms)
  have nth: "particlesSSBO0 st' ! 0 = stepParticle exampleConstants ?u exampleParticle
      (neighbourScan exampleConstants ?u [exampleParticle, exampleParticle] [0] [1, -1] 0)"
    unfolding out using boids_step_nth[of 0 "[zeroParticle, zeroParticle]" ?u "[exampleParticle, exampleParticle]"
        exampleConstants "[0]" "[1, -1]"] n by simp
  show "pos (particlesSSBO0 st' ! 0) = enforceBounds ?u (3 * dt, 0, 0)"
    unfolding nth stepParticle_fields exampleState_integrated by (rule refl)
  show "vel (particlesSSBO0 st' ! 0) = clampSpeed exampleConstants ?u (3, 0, 0)"
    unfolding nth stepParticle_fields exampleState_integrated by (rule refl)
qed

subsection \<open>One tick of the simulation\<close>

text \<open>
  C1. A tick on a ready state whose buffers fit, with the build pass run as the
  execution \<open>sched\<close>. No interleaving of the insertions leaves a buffer, and the
  sequential interleaving is an execution. Whenever \<open>sched\<close> is an execution
  (every invocation performs its exchange and then its store, interleaved in any
  way with the others), the grid buffers after the tick hold its result, and for
  every cell \<open>c\<close> the walk from \<open>heads[c]\<close> via \<open>next\<close> visits, once each,
  exactly the particles whose cell index is \<open>c\<close>; the lengths of all cells' lists
  add up to the number of particles.
\<close>

theorem build_lists_complete:
  assumes fit: "buffersFit st" and ready: "buffersReady st"
    and st': "st' = dispatchComputePasses (boidsPrograms K sched) dt st"
  shows "boids_build sched (uniformsOf st dt) (particlesSSBO0 st)
           (boids_clear (cellCount st) (cellHeadsSSBO st)) (nextIndexSSBO st) \<noteq> Inl OutOfBounds \<and>
         (\<exists>r. boids_build (sequentialSchedule (length (particlesSSBO0 st))) (uniformsOf st dt)
                (particlesSSBO0 st) (boids_clear (cellCount st) (cellHeadsSSBO st))
                (nextIndexSSBO st) = Inr r) \<and>
         (\<forall>r. boids_build sched (uniformsOf st dt) (particlesSSBO0 st)
                (boids_clear (cellCount st) (cellHeadsSSBO st)) (nextIndexSSBO st) = Inr r \<longrightarrow>
            (cellHeadsSSBO st', nextIndexSSBO st') = r \<and>
            (\<forall>c < length (cellHeadsSSBO st'). \<exists>js.
               cellList (cellHeadsSSBO st') (nextIndexSSBO st') c = Some js \<and> distinct js \<and>
               set js = {i. i < length (particlesSSBO0 st) \<and>
                            cellIndex (uniformsOf st dt) (pos (particlesSSBO0 st ! i)) = int c}) \<and>
            totalTraversed (cellHeadsSSBO st') (nextIndexSSBO st') = nat (currentParticleCount st))"
proof -
  let ?u = "uniformsOf st dt"
  obtain dx dy dz where g: "gridDims st = (dx, dy, dz)" by (cases "gridDims st") auto
  have d: "u_gridDims ?u = (dx, dy, dz)" "1 \<le> dx" "1 \<le> dy" "1 \<le> dz"
    and cc: "cellCount st = dx * dy * dz"
    using fit g by (simp_all add: buffersFit_def uniformsOf_def)
  have n: "u_particleCount ?u = currentParticleCount st" by (simp add: uniformsOf_def)
  have cells: "length (cellHeadsSSBO st) = nat (dx * dy * dz)"
    using fit cc by (simp add: buffersFit_def)
  have parts: "length (particlesSSBO0 st) = nat (u_particleCount ?u)"
    "length (nextIndexSSBO st) = nat (u_particleCount ?u)"
    using fit by (simp_all add: buffersFit_def n)
  have hs: "boids_clear (cellCount st) (cellHeadsSSBO st) = boids_clear (dx * dy * dz) (cellHeadsSSBO st)"
    by (simp add: cc)
  note kernel = build_execution_lists[OF d cells parts hs, of sched]
  have "(cellHeadsSSBO st', nextIndexSSBO st') = r \<and>
            (\<forall>c < length (cellHeadsSSBO st'). \<exists>js.
               cellList (cellHeadsSSBO st') (nextIndexSSBO st') c = Some js \<and> distinct js \<and>
               set js = {i. i < length (particlesSSBO0 st) \<and>
                            cellIndex ?u (pos (particlesSSBO0 st ! i)) = int c}) \<and>
            totalTraversed (cellHeadsSSBO st') (nextIndexSSBO st') = nat (currentParticleCount st)"
    if exec: "boids_build sched ?u (particlesSSBO0 st)
                (boids_clear (cellCount st) (cellHeadsSSBO st)) (nextIndexSSBO st) = Inr r" for r
  proof -
    obtain hs' ns' where r: "r = (hs', ns')" by (cases r)
    have b: "computeBuildProgram (boidsPrograms K sched) ?u (particlesSSBO0 st)
           (boids_clear (cellCount st) (cellHeadsSSBO st)) (nextIndexSSBO st) = (hs', ns')"
      using buildProgram_execution[OF exec] r by simp
    have f: "cellHeadsSSBO st' = hs'" "nextIndexSSBO st' = ns'"
      unfolding st' dispatch_ready[OF ready b] by simp_all
    from kernel exec r
    have "(\<forall>c < length hs'. \<exists>js. cellList hs' ns' c = Some js \<and> distinct js \<and>
                 set js = {i. i < length (particlesSSBO0 st) \<and> cellIndex ?u (pos (particlesSSBO0 st ! i)) = int c}) \<and>
            totalTraversed hs' ns' = length (particlesSSBO0 st)"
      by blast
    then show ?thesis using f r parts n by simp
  qed
  with kernel show ?thesis by blast
qed

theorem build_lists_complete_witness:
  "cellHeadsSSBO (dispatchComputePasses (boidsPrograms exampleConstants interleavedSchedule) 4 (exampleStateFor False)) = [0] \<and>
   nextIndexSSBO (dispatchComputePasses (boidsPrograms exampleConstants interleavedSchedule) 4 (exampleStateFor False)) = [1, -1] \<and>
   cellList [0] [1, -1] 0 = Some [0, 1] \<and>
   totalTraversed [0] [1, -1] = 2"
proof -
  let ?st' = "dispatchComputePasses (boidsPrograms exampleConstants interleavedSchedule) 4 (exampleStateFor False)"
  note t = exampleTick[of ?st' 4 False, OF refl]
  from build_lists_complete[of "exampleStateFor False" _ exampleConstants interleavedSchedule 4, OF exampleState_fit exampleState_buffers(7) refl]
    exampleState_build[of False 4]
  have "totalTraversed (cellHeadsSSBO ?st') (nextIndexSSBO ?st') = nat (currentParticleCount (exampleStateFor False))"
    by blast
  then have tot: "totalTraversed [0] [1, -1] = 2"
    by (simp add: t exampleState_buffers)
  have cl: "cellList [0] [1, -1] 0 = Some [0, 1]"
    by (simp add: cellList_def eval_nat_numeral)
  from t(1,2) cl tot show ?thesis by blast
qed

text \<open>
  C3. In soft-boundary mode, after a tick on a ready state whose buffers fit, the
  position of every particle lies inside \<open>[worldMin, worldMax]\<close> on each axis,
  for every time step, every value of the other parameters and of the kernel's
  constants, and whatever the build pass has left in the grid.
\<close>

theorem soft_bounds_containment:
  assumes fit: "buffersFit st" and ready: "buffersReady st" and soft: "\<not> wrapBounds st"
    and st': "st' = dispatchComputePasses (boidsPrograms K sched) dt st"
    and i: "i < length (particlesSSBO0 st')"
    and q: "q = pos (particlesSSBO0 st' ! i)"
  shows "vx worldMin \<le> vx q \<and> vx q \<le> vx worldMax \<and>
         vy worldMin \<le> vy q \<and> vy q \<le> vy worldMax \<and>
         vz worldMin \<le> vz q \<and> vz q \<le> vz worldMax"
  using tick_soft_containment[OF fit ready soft i[unfolded st'], of ] 
  by (simp add: insideWorld_def q st' uniformsOf_def)

theorem soft_bounds_containment_witness:
  "pos (particlesSSBO0 (dispatchComputePasses (boidsPrograms exampleConstants interleavedSchedule) 4
          (exampleStateFor False)) ! 0) = (10, 0, 0) \<and>
   vx (pos (particlesSSBO0 (dispatchComputePasses (boidsPrograms exampleConstants interleavedSchedule) 4
          (exampleStateFor False)) ! 0)) \<le> vx worldMax"
proof -
  let ?st' = "dispatchComputePasses (boidsPrograms exampleConstants interleavedSchedule) 4 (exampleStateFor False)"
  have w: "\<not> wrapBounds (exampleStateFor False)" by (simp add: exampleState_buffers)
  have i: "0 < length (particlesSSBO0 ?st')" by (simp add: exampleTick[OF refl])
  note main = soft_bounds_containment[OF exampleState_fit exampleState_buffers(7) w refl i refl]
  have "pos (particlesSSBO0 ?st' ! 0) = (10, 0, 0)"
    unfolding exampleTick_particle[OF refl]
    by (simp add: enforceBounds_def exampleState_uniforms glsl_clamp_def worldMin_def worldMax_def)
  with main show ?thesis by blast
qed



text \<open>
  C5. In wrap mode, after a tick on a ready state whose buffers fit, for every
  particle and each axis on its own: a coordinate that the integration has taken
  above \<open>worldMax\<close> by some amount ends at \<open>worldMin\<close> plus that amount, one
  below \<open>worldMin\<close> ends as far below \<open>worldMax\<close>, and one inside the box is
  unchanged.
\<close>

theorem wrap_bounds_translation:
  assumes fit: "buffersFit st" and ready: "buffersReady st" and wrap: "wrapBounds st"
    and st': "st' = dispatchComputePasses (boidsPrograms K sched) dt st"
    and i: "i < length (particlesSSBO0 st')"
    and p: "p = integratedPosition (uniformsOf st dt) (particlesSSBO0 st ! i)
                  (neighbourScan K (uniformsOf st dt) (particlesSSBO0 st)
                     (cellHeadsSSBO st') (nextIndexSSBO st') i)"
    and q: "q = pos (particlesSSBO0 st' ! i)"
  shows "(vx worldMax < vx p \<longrightarrow> vx q = vx worldMin + (vx p - vx worldMax)) \<and>
         (vx p < vx worldMin \<longrightarrow> vx q = vx worldMax - (vx worldMin - vx p)) \<and>
         (vx worldMin \<le> vx p \<and> vx p \<le> vx worldMax \<longrightarrow> vx q = vx p) \<and>
         (vy worldMax < vy p \<longrightarrow> vy q = vy worldMin + (vy p - vy worldMax)) \<and>
         (vy p < vy worldMin \<longrightarrow> vy q = vy worldMax - (vy worldMin - vy p)) \<and>
         (vy worldMin \<le> vy p \<and> vy p \<le> vy worldMax \<longrightarrow> vy q = vy p) \<and>
         (vz worldMax < vz p \<longrightarrow> vz q = vz worldMin + (vz p - vz worldMax)) \<and>
         (vz p < vz worldMin \<longrightarrow> vz q = vz worldMax - (vz worldMin - vz p)) \<and>
         (vz worldMin \<le> vz p \<and> vz p \<le> vz worldMax \<longrightarrow> vz q = vz p)"
proof -
  have w: "vx worldMin \<le> vx worldMax" "vy worldMin \<le> vy worldMax" "vz worldMin \<le> vz worldMax"
    by (simp_all add: worldMin_def worldMax_def)
  from tick_wrap[OF fit ready wrap st' i p q]
  have e: "vx q = wrapAxis (vx worldMin) (vx worldMax) (vx p)"
         "vy q = wrapAxis (vy worldMin) (vy worldMax) (vy p)"
         "vz q = wrapAxis (vz worldMin) (vz worldMax) (vz p)" by simp_all
  show ?thesis
    unfolding e
    using wrapAxis_cases[OF w(1), of "vx p"] wrapAxis_cases[OF w(2), of "vy p"]
      wrapAxis_cases[OF w(3), of "vz p"] by blast
qed

theorem wrap_bounds_translation_witness:
  "integratedPosition (uniformsOf (exampleStateFor True) 4) (particlesSSBO0 (exampleStateFor True) ! 0)
      (neighbourScan exampleConstants (uniformsOf (exampleStateFor True) 4) (particlesSSBO0 (exampleStateFor True))
         (cellHeadsSSBO (dispatchComputePasses (boidsPrograms exampleConstants interleavedSchedule) 4 (exampleStateFor True)))
         (nextIndexSSBO (dispatchComputePasses (boidsPrograms exampleConstants interleavedSchedule) 4 (exampleStateFor True))) 0)
     = (12, 0, 0) \<and>
   vx (pos (particlesSSBO0 (dispatchComputePasses (boidsPrograms exampleConstants interleavedSchedule) 4
          (exampleStateFor True)) ! 0)) = vx worldMin + 2 \<and>
   vy (pos (particlesSSBO0 (dispatchComputePasses (boidsPrograms exampleConstants interleavedSchedule) 4
          (exampleStateFor True)) ! 0)) = 0"
proof -
  let ?st = "exampleStateFor True"
  let ?st' = "dispatchComputePasses (boidsPrograms exampleConstants interleavedSchedule) 4 ?st"
  have i: "0 < length (particlesSSBO0 ?st')" by (simp add: exampleTick[OF refl])
  have w: "wrapBounds ?st" by (simp add: exampleState_buffers)
  note main = wrap_bounds_translation[OF exampleState_fit exampleState_buffers(7) w refl i refl refl]
  have p: "integratedPosition (uniformsOf ?st 4) (particlesSSBO0 ?st ! 0)
      (neighbourScan exampleConstants (uniformsOf ?st 4) (particlesSSBO0 ?st)
         (cellHeadsSSBO ?st') (nextIndexSSBO ?st') 0) = (12, 0, 0)"
    by (simp add: exampleTick[OF refl] exampleState_buffers exampleState_integrated)
  from main[unfolded p]
  have "vx (pos (particlesSSBO0 ?st' ! 0)) = vx worldMin + 2" "vy (pos (particlesSSBO0 ?st' ! 0)) = 0"
    by (simp_all add: worldMin_def worldMax_def)
  with p show ?thesis by blast
qed

end
